(* ===== verification/Errors.thy ===== *)
theory Errors
  imports Prelude
begin

text \<open>
  Errors and effects. \<^verbatim>\<open>error\<close> values are the datatype \<open>error\<close>: the plain errors of
  \<^verbatim>\<open>errors.New\<close>/\<^verbatim>\<open>fmt.Errorf\<close>, the wrapped errors of bosh-utils (\<^verbatim>\<open>ComplexError\<close>) and the
  \<^verbatim>\<open>*StatusError\<close> an API call returns, with the reason and the HTTP code the source tests.

  An operation of the source that talks to the cluster is a function of the world it runs in:
  \<open>('s, 'a) act\<close> takes the state \<open>'s\<close> behind the API (and the file system, the clock and the
  random source, which no definition looks into) and gives an outcome with the state after it.
  An outcome is \<open>Ok\<close>, an error return \<open>Err\<close>, or a \<open>Panic\<close> (an index out of range, an
  assignment to a nil map) that ends the process. The early return
  \<^verbatim>\<open>if err != nil { return ..., bosherr.WrapError(err, msg) }\<close> after a call \<open>m\<close> is
  \<open>and_then (wrap_err msg m)\<close>.
\<close>

named_theorems act_simps \<open>outcomes of sequenced operations\<close>
named_theorems act_intros \<open>frame and invariant rules of sequenced operations\<close>

section \<open>Errors\<close>

datatype error =
    PlainError string
  | ComplexError error error
  | StatusError string int string \<comment> \<open>reason, HTTP code, message\<close>

fun Error :: "error \<Rightarrow> string" where
  "Error (PlainError m) = m"
| "Error (ComplexError e cause) = Error e @ '': '' @ Error cause"
| "Error (StatusError r c m) = m"

definition WrapComplexError :: "error option \<Rightarrow> error \<Rightarrow> error" where
  "WrapComplexError cause e =
     ComplexError e (case cause of None \<Rightarrow> PlainError ''<nil cause>'' | Some c \<Rightarrow> c)"

definition WrapError :: "error \<Rightarrow> string \<Rightarrow> error" where
  "WrapError cause msg = WrapComplexError (Some cause) (PlainError msg)"

definition StatusReasonNotFound :: string where
  "StatusReasonNotFound = ''NotFound''"

definition StatusReasonAlreadyExists :: string where
  "StatusReasonAlreadyExists = ''AlreadyExists''"

text \<open>The two tests the source makes on an error: by reason and by HTTP code.\<close>

fun has_reason :: "string \<Rightarrow> error \<Rightarrow> bool" where
  "has_reason r (StatusError r' c m) = (r' = r)"
| "has_reason r _ = False"

fun has_code :: "int \<Rightarrow> error \<Rightarrow> bool" where
  "has_code c (StatusError r c' m) = (c' = c)"
| "has_code c _ = False"

definition not_found :: "string \<Rightarrow> error" where
  "not_found n = StatusError StatusReasonNotFound 404 (n @ '' not found'')"

definition already_exists :: "string \<Rightarrow> error" where
  "already_exists n = StatusError StatusReasonAlreadyExists 409 (n @ '' already exists'')"

lemma Error_WrapError [simp]: "Error (WrapError e m) = m @ '': '' @ Error e"
  by (simp add: WrapError_def WrapComplexError_def)

lemma WrapError_inject [simp]: "WrapError e m = WrapError e' m' \<longleftrightarrow> e = e' \<and> m = m'"
  by (auto simp: WrapError_def WrapComplexError_def)

lemma WrapError_not_status [simp]:
  "\<not> has_reason r (WrapError e m)" "\<not> has_code c (WrapError e m)"
  by (simp_all add: WrapError_def WrapComplexError_def)

lemma WrapError_neq [simp]: "WrapError e m \<noteq> PlainError p" "PlainError p \<noteq> WrapError e m"
    "WrapError e m \<noteq> StatusError r c t" "StatusError r c t \<noteq> WrapError e m"
  by (simp_all add: WrapError_def WrapComplexError_def)

lemma not_found_tests [simp]:
  "has_reason StatusReasonNotFound (not_found n)" "has_code 404 (not_found n)"
  "\<not> has_reason StatusReasonNotFound (already_exists n)"
  "has_reason StatusReasonAlreadyExists (already_exists n)"
  by (simp_all add: not_found_def already_exists_def StatusReasonNotFound_def StatusReasonAlreadyExists_def)

section \<open>Outcomes and operations\<close>

datatype 'a res = Ok 'a | Err error | Panic string

type_synonym ('s, 'a) act = "'s \<Rightarrow> 'a res \<times> 's"

definition ret :: "'a \<Rightarrow> ('s, 'a) act" where
  "ret x s = (Ok x, s)"

definition fail :: "error \<Rightarrow> ('s, 'a) act" where
  "fail e s = (Err e, s)"

definition panic :: "string \<Rightarrow> ('s, 'a) act" where
  "panic m s = (Panic m, s)"

definition lift_res :: "'a res \<Rightarrow> ('s, 'a) act" where
  "lift_res r s = (r, s)"

definition and_then :: "('s, 'a) act \<Rightarrow> ('a \<Rightarrow> ('s, 'b) act) \<Rightarrow> ('s, 'b) act" where
  "and_then m f s =
     (case m s of (r, s') \<Rightarrow>
        (case r of Ok x \<Rightarrow> f x s' | Err e \<Rightarrow> (Err e, s') | Panic p \<Rightarrow> (Panic p, s')))"

definition wrap_err :: "string \<Rightarrow> ('s, 'a) act \<Rightarrow> ('s, 'a) act" where
  "wrap_err msg m s =
     (case m s of (r, s') \<Rightarrow>
        ((case r of Ok x \<Rightarrow> Ok x | Err e \<Rightarrow> Err (WrapError e msg) | Panic p \<Rightarrow> Panic p), s'))"

text \<open>Looking at the error of a call without returning at once.\<close>

definition catch :: "('s, 'a) act \<Rightarrow> ('a \<Rightarrow> ('s, 'b) act) \<Rightarrow> (error \<Rightarrow> ('s, 'b) act) \<Rightarrow> ('s, 'b) act" where
  "catch m f g s =
     (case m s of (r, s') \<Rightarrow>
        (case r of Ok x \<Rightarrow> f x s' | Err e \<Rightarrow> g e s' | Panic p \<Rightarrow> (Panic p, s')))"

text \<open>A \<^verbatim>\<open>for ... range\<close> loop whose body may return early with an error.\<close>

fun for_each :: "('a \<Rightarrow> ('s, unit) act) \<Rightarrow> 'a list \<Rightarrow> ('s, unit) act" where
  "for_each f [] = ret ()"
| "for_each f (x # xs) = and_then (f x) (\<lambda>_. for_each f xs)"

text \<open>The pure counterpart of \<open>and_then\<close>, for functions that do not touch the cluster.\<close>

definition res_then :: "'a res \<Rightarrow> ('a \<Rightarrow> 'b res) \<Rightarrow> 'b res" where
  "res_then r f = (case r of Ok x \<Rightarrow> f x | Err e \<Rightarrow> Err e | Panic p \<Rightarrow> Panic p)"

definition res_wrap :: "string \<Rightarrow> 'a res \<Rightarrow> 'a res" where
  "res_wrap msg r = (case r of Ok x \<Rightarrow> Ok x | Err e \<Rightarrow> Err (WrapError e msg) | Panic p \<Rightarrow> Panic p)"

definition outcome :: "('s, 'a) act \<Rightarrow> 's \<Rightarrow> 'a res" where
  "outcome m s = fst (m s)"

definition final :: "('s, 'a) act \<Rightarrow> 's \<Rightarrow> 's" where
  "final m s = snd (m s)"

lemma outcome_final: "outcome m s = r \<Longrightarrow> m s = (r, final m s)"
  by (simp add: outcome_def final_def prod_eq_iff)

lemma run_pair: "m s = (outcome m s, final m s)"
  by (simp add: outcome_def final_def)

subsection \<open>Evaluation and inversion\<close>

lemma ret_apply [simp]: "ret x s = (Ok x, s)" by (simp add: ret_def)
lemma fail_apply [simp]: "fail e s = (Err e, s)" by (simp add: fail_def)
lemma panic_apply [simp]: "panic p s = (Panic p, s)" by (simp add: panic_def)
lemma lift_res_apply [simp]: "lift_res r s = (r, s)" by (simp add: lift_res_def)

lemma lift_res_simps [simp]:
  "lift_res (Ok x) = ret x" "lift_res (Err e) = fail e" "lift_res (Panic p) = panic p"
  by (rule ext; simp)+

lemma and_then_eval [act_simps]:
  "m s = (Ok x, s') \<Longrightarrow> and_then m f s = f x s'"
  "m s = (Err e, s') \<Longrightarrow> and_then m f s = (Err e, s')"
  "m s = (Panic p, s') \<Longrightarrow> and_then m f s = (Panic p, s')"
  by (simp_all add: and_then_def)

lemma and_then_ret [simp]: "and_then (ret x) f = f x"
  by (rule ext) (simp add: and_then_def)

lemma and_then_fail [simp]: "and_then (fail e) f = fail e"
  by (rule ext) (simp add: and_then_def)

lemma and_then_panic [simp]: "and_then (panic p) f = panic p"
  by (rule ext) (simp add: and_then_def)

lemma and_then_assoc: "and_then (and_then m f) g = and_then m (\<lambda>x. and_then (f x) g)"
  by (rule ext) (simp add: and_then_def split: prod.splits res.splits)

lemma wrap_err_eval [act_simps]:
  "m s = (Ok x, s') \<Longrightarrow> wrap_err msg m s = (Ok x, s')"
  "m s = (Err e, s') \<Longrightarrow> wrap_err msg m s = (Err (WrapError e msg), s')"
  "m s = (Panic p, s') \<Longrightarrow> wrap_err msg m s = (Panic p, s')"
  by (simp_all add: wrap_err_def)

lemma wrap_err_simps [simp]:
  "wrap_err msg (ret x) = ret x" "wrap_err msg (fail e) = fail (WrapError e msg)" "wrap_err msg (panic p) = panic p"
  by (rule ext; simp add: wrap_err_def)+

lemma wrap_err_lift [simp]: "wrap_err msg (lift_res r) = lift_res (res_wrap msg r)"
  by (rule ext) (simp add: wrap_err_def res_wrap_def)

lemma and_then_Ok: "and_then m f s = (Ok y, s') \<longleftrightarrow> (\<exists>x t. m s = (Ok x, t) \<and> f x t = (Ok y, s'))"
  by (auto simp: and_then_def split: prod.splits res.splits)

lemma and_then_Err:
  "and_then m f s = (Err e, s') \<longleftrightarrow>
     m s = (Err e, s') \<or> (\<exists>x t. m s = (Ok x, t) \<and> f x t = (Err e, s'))"
  by (auto simp: and_then_def split: prod.splits res.splits)

lemma and_then_Panic:
  "and_then m f s = (Panic p, s') \<longleftrightarrow>
     m s = (Panic p, s') \<or> (\<exists>x t. m s = (Ok x, t) \<and> f x t = (Panic p, s'))"
  by (auto simp: and_then_def split: prod.splits res.splits)

lemma wrap_err_Ok: "wrap_err msg m s = (Ok y, s') \<longleftrightarrow> m s = (Ok y, s')"
  by (auto simp: wrap_err_def split: prod.splits res.splits)

lemma wrap_err_Err:
  "wrap_err msg m s = (Err e, s') \<longleftrightarrow> (\<exists>e'. e = WrapError e' msg \<and> m s = (Err e', s'))"
  by (auto simp: wrap_err_def split: prod.splits res.splits)

lemma wrap_err_Panic: "wrap_err msg m s = (Panic p, s') \<longleftrightarrow> m s = (Panic p, s')"
  by (auto simp: wrap_err_def split: prod.splits res.splits)

lemma catch_Ok:
  "catch m f g s = (Ok y, s') \<longleftrightarrow>
     (\<exists>x t. m s = (Ok x, t) \<and> f x t = (Ok y, s')) \<or> (\<exists>e t. m s = (Err e, t) \<and> g e t = (Ok y, s'))"
  by (auto simp: catch_def split: prod.splits res.splits)

lemma catch_eval [act_simps]:
  "m s = (Ok x, s') \<Longrightarrow> catch m f g s = f x s'"
  "m s = (Err e, s') \<Longrightarrow> catch m f g s = g e s'"
  "m s = (Panic p, s') \<Longrightarrow> catch m f g s = (Panic p, s')"
  by (simp_all add: catch_def)

lemmas act_Ok = and_then_Ok wrap_err_Ok catch_Ok
lemmas act_Err = and_then_Err wrap_err_Err

lemma res_then_Ok: "res_then r f = Ok y \<longleftrightarrow> (\<exists>x. r = Ok x \<and> f x = Ok y)"
  by (auto simp: res_then_def split: res.splits)

lemma res_then_simps [simp]:
  "res_then (Ok x) f = f x" "res_then (Err e) f = Err e" "res_then (Panic p) f = Panic p"
  by (simp_all add: res_then_def)

lemma res_wrap_simps [simp]:
  "res_wrap m (Ok x) = Ok x" "res_wrap m (Err e) = Err (WrapError e m)" "res_wrap m (Panic p) = Panic p"
  by (simp_all add: res_wrap_def)

lemma res_wrap_Ok: "res_wrap m r = Ok x \<longleftrightarrow> r = Ok x"
  by (cases r) auto

subsection \<open>Frames: what an operation leaves alone\<close>

text \<open>\<open>keeps P m\<close>: the operation preserves the predicate, whatever its outcome.
  \<open>unchanged obs m\<close>: the observation is the same before and after.\<close>

definition keeps :: "('s \<Rightarrow> bool) \<Rightarrow> ('s, 'a) act \<Rightarrow> bool" where
  "keeps P m = (\<forall>s. P s \<longrightarrow> P (snd (m s)))"

lemma keepsI [intro?]: "(\<And>s r s'. P s \<Longrightarrow> m s = (r, s') \<Longrightarrow> P s') \<Longrightarrow> keeps P m"
  unfolding keeps_def by (metis prod.collapse)

lemma keepsD: "keeps P m \<Longrightarrow> P s \<Longrightarrow> m s = (r, s') \<Longrightarrow> P s'"
  unfolding keeps_def by (metis snd_conv)

lemma keeps_final: "keeps P m \<Longrightarrow> P s \<Longrightarrow> P (final m s)"
  by (simp add: keeps_def final_def)

lemma keeps_same: "keeps (\<lambda>x. x = s) m \<Longrightarrow> m s = (r, s') \<Longrightarrow> s' = s"
  using keepsD [of "\<lambda>x. x = s" m s r s'] by simp

lemma keeps_simple [act_intros, simp]:
  "keeps P (ret x)" "keeps P (fail e)" "keeps P (panic p)" "keeps P (lift_res r)"
  by (simp_all add: keeps_def)

lemma keeps_and_then [act_intros]:
  "keeps P m \<Longrightarrow> (\<And>x. keeps P (f x)) \<Longrightarrow> keeps P (and_then m f)"
  unfolding keeps_def and_then_def by (fastforce split: prod.splits res.splits)

lemma keeps_wrap_err [act_intros]: "keeps P m \<Longrightarrow> keeps P (wrap_err msg m)"
  unfolding keeps_def wrap_err_def by (fastforce split: prod.splits)

lemma keeps_catch [act_intros]:
  "keeps P m \<Longrightarrow> (\<And>x. keeps P (f x)) \<Longrightarrow> (\<And>e. keeps P (g e)) \<Longrightarrow> keeps P (catch m f g)"
  unfolding keeps_def catch_def by (fastforce split: prod.splits res.splits)

lemma keeps_for_each [act_intros]: "(\<And>x. keeps P (f x)) \<Longrightarrow> keeps P (for_each f xs)"
  by (induction xs) (auto intro: act_intros)

lemma keeps_if [act_intros]: "(b \<Longrightarrow> keeps P m) \<Longrightarrow> (\<not> b \<Longrightarrow> keeps P n) \<Longrightarrow> keeps P (if b then m else n)"
  by simp

lemma keeps_case_option [act_intros]:
  "keeps P m \<Longrightarrow> (\<And>x. keeps P (f x)) \<Longrightarrow> keeps P (case_option m f opt)"
  by (cases opt) auto

end
