(* ===== verification/Json.thy ===== *)
theory Json
  imports Errors
begin

text \<open>
  The part of Go's \<^verbatim>\<open>encoding/json\<close> the program uses, over JSON values: the compact text
  \<^verbatim>\<open>json.Marshal\<close> writes and the grammar \<^verbatim>\<open>json.Unmarshal\<close> accepts. The instance settings in a
  config map, the request, the response and every dispatched argument pass through it. Strings
  are bytes; those from 128 on are copied (Go does the same for valid UTF-8 other than U+2028 and
  U+2029). A number is its literal here; \<open>FloatText\<close> says what becomes of it in an untyped field.
\<close>

datatype json =
    JNull
  | JBool bool
  | JNum string
  | JStr string
  | JArr "json list"
  | JObj "(string \<times> json) list"

section \<open>Printing\<close>

definition dquote :: char where "dquote = CHR 0x22"
definition backslash :: char where "backslash = CHR 0x5C"

definition json_escape :: "char \<Rightarrow> string" where
  "json_escape c =
     (let n = (of_char c :: nat)
      in if n = 34 \<or> n = 92 then [backslash, c]
         else if n = 10 then [backslash, CHR ''n'']
         else if n = 13 then [backslash, CHR ''r'']
         else if n = 9 then [backslash, CHR ''t'']
         else if n < 32 \<or> n = 60 \<or> n = 62 \<or> n = 38
         then [backslash, CHR ''u'', CHR ''0'', CHR ''0'', hex_digit (n div 16), hex_digit (n mod 16)]
         else [c])"

definition print_string :: "string \<Rightarrow> string" where
  "print_string s = dquote # concat (map json_escape s) @ [dquote]"

fun print_json :: "json \<Rightarrow> string"
  and print_elems :: "json list \<Rightarrow> string"
  and print_members :: "(string \<times> json) list \<Rightarrow> string" where
  "print_json JNull = ''null''"
| "print_json (JBool b) = (if b then ''true'' else ''false'')"
| "print_json (JNum l) = l"
| "print_json (JStr s) = print_string s"
| "print_json (JArr js) = CHR ''['' # print_elems js @ '']''"
| "print_json (JObj ms) = CHR ''{'' # print_members ms @ ''}''"
| "print_elems [] = []"
| "print_elems (j # js) = print_json j @ (if js = [] then [] else CHR '','' # print_elems js)"
| "print_members [] = []"
| "print_members ((k, j) # ms) =
     print_string k @ CHR '':'' # print_json j @ (if ms = [] then [] else CHR '','' # print_members ms)"

section \<open>Lexical elements of the parser\<close>

definition is_ws :: "char \<Rightarrow> bool" where
  "is_ws c = (c = CHR '' '' \<or> c = CHR 0x09 \<or> c = CHR 0x0A \<or> c = CHR 0x0D)"

definition skip_ws :: "string \<Rightarrow> string" where
  "skip_ws s = dropWhile is_ws s"

definition hex_value :: "char \<Rightarrow> nat option" where
  "hex_value c =
     (let n = (of_char c :: nat)
      in if 48 \<le> n \<and> n \<le> 57 then Some (n - 48)
         else if 97 \<le> n \<and> n \<le> 102 then Some (n - 87)
         else if 65 \<le> n \<and> n \<le> 70 then Some (n - 55)
         else None)"

definition hex4 :: "char \<Rightarrow> char \<Rightarrow> char \<Rightarrow> char \<Rightarrow> nat option" where
  "hex4 a b c d =
     (case (hex_value a, hex_value b, hex_value c, hex_value d) of
        (Some w, Some x, Some y, Some z) \<Rightarrow> Some (((w * 16 + x) * 16 + y) * 16 + z)
      | _ \<Rightarrow> None)"

text \<open>UTF-8 encoding of a code point, and the replacement character of a lone surrogate.\<close>

definition utf8 :: "nat \<Rightarrow> string" where
  "utf8 n =
     (if n < 128 then [char_of n]
      else if n < 2048 then [char_of (192 + n div 64), char_of (128 + n mod 64)]
      else if n < 65536
      then [char_of (224 + n div 4096), char_of (128 + n div 64 mod 64), char_of (128 + n mod 64)]
      else [char_of (240 + n div 262144), char_of (128 + n div 4096 mod 64),
            char_of (128 + n div 64 mod 64), char_of (128 + n mod 64)])"

definition is_surrogate :: "nat \<Rightarrow> bool" where
  "is_surrogate n = (55296 \<le> n \<and> n < 57344)"

definition surrogate_pair :: "nat \<Rightarrow> nat \<Rightarrow> nat option" where
  "surrogate_pair h l =
     (if 55296 \<le> h \<and> h < 56320 \<and> 56320 \<le> l \<and> l < 57344
      then Some ((h - 55296) * 1024 + (l - 56320) + 65536) else None)"

definition unescape :: "char \<Rightarrow> char option" where
  "unescape c =
     (if c = dquote \<or> c = backslash \<or> c = CHR ''/'' then Some c
      else if c = CHR ''b'' then Some CHR 0x08
      else if c = CHR ''f'' then Some CHR 0x0C
      else if c = CHR ''n'' then Some CHR 0x0A
      else if c = CHR ''r'' then Some CHR 0x0D
      else if c = CHR ''t'' then Some CHR 0x09
      else None)"

definition push_str :: "string \<Rightarrow> (string \<times> string) option \<Rightarrow> (string \<times> string) option" where
  "push_str p r = map_option (\<lambda>(s, rest). (p @ s, rest)) r"

text \<open>The low half of a surrogate pair, when the text goes on with one.\<close>

definition low_half :: "nat \<Rightarrow> string \<Rightarrow> (nat \<times> string) option" where
  "low_half h s =
     (case s of
        b # u # a # c # x # y # rest \<Rightarrow>
          if b = backslash \<and> u = CHR ''u'' then
            (case hex4 a c x y of
               None \<Rightarrow> None
             | Some l \<Rightarrow> map_option (\<lambda>n. (n, rest)) (surrogate_pair h l))
          else None
      | _ \<Rightarrow> None)"

lemma low_half_shorter: "low_half h s = Some (n, rest) \<Longrightarrow> length rest < length s"
  by (auto simp: low_half_def split: list.splits if_splits option.splits)

text \<open>The rest of a string literal, after its opening quote.\<close>

function parse_str :: "string \<Rightarrow> (string \<times> string) option" where
  "parse_str [] = None"
| "parse_str (c # cs) =
     (if c = dquote then Some ([], cs)
      else if c = backslash then
        (case cs of
           [] \<Rightarrow> None
         | e # es \<Rightarrow>
             if e = CHR ''u'' then
               (case es of
                  a # b # x # y # rest \<Rightarrow>
                    (case hex4 a b x y of
                       None \<Rightarrow> None
                     | Some n \<Rightarrow>
                         if is_surrogate n then
                           (case low_half n rest of
                              Some (m, rest') \<Rightarrow> push_str (utf8 m) (parse_str rest')
                            | None \<Rightarrow> push_str (utf8 65533) (parse_str rest))
                         else push_str (utf8 n) (parse_str rest))
                | _ \<Rightarrow> None)
             else (case unescape e of None \<Rightarrow> None | Some ch \<Rightarrow> push_str [ch] (parse_str es)))
      else if (of_char c :: nat) < 32 then None
      else push_str [c] (parse_str cs))"
  by pat_completeness auto
termination
  by (relation "measure length") (auto dest: low_half_shorter)

text \<open>Number literals: an optional minus, an integer part without leading zeros, an optional
  fraction and an optional exponent.\<close>

definition is_num_char :: "char \<Rightarrow> bool" where
  "is_num_char c = (is_digit c \<or> c \<in> {CHR ''-'', CHR ''+'', CHR ''.'', CHR ''e'', CHR ''E''})"

definition exponent_ok :: "string \<Rightarrow> bool" where
  "exponent_ok s =
     (case s of
        [] \<Rightarrow> True
      | c # cs \<Rightarrow>
          (c = CHR ''e'' \<or> c = CHR ''E'') \<and>
          (let ds = (if cs \<noteq> [] \<and> (hd cs = CHR ''+'' \<or> hd cs = CHR ''-'') then tl cs else cs)
           in ds \<noteq> [] \<and> list_all is_digit ds))"

definition fraction_ok :: "string \<Rightarrow> bool" where
  "fraction_ok s =
     (if s \<noteq> [] \<and> hd s = CHR ''.'' then
        takeWhile is_digit (tl s) \<noteq> [] \<and> exponent_ok (dropWhile is_digit (tl s))
      else exponent_ok s)"

definition is_number :: "string \<Rightarrow> bool" where
  "is_number s =
     (let t = (if s \<noteq> [] \<and> hd s = CHR ''-'' then tl s else s);
          ip = takeWhile is_digit t
      in list_all is_num_char s \<and> ip \<noteq> [] \<and> (hd ip = CHR ''0'' \<longrightarrow> ip = ''0'') \<and>
         fraction_ok (dropWhile is_digit t))"

section \<open>Parsing\<close>

definition strip_prefix :: "string \<Rightarrow> string \<Rightarrow> string option" where
  "strip_prefix p s = (if take (length p) s = p then Some (drop (length p) s) else None)"

text \<open>The value parsers spend one unit of fuel a call; two units a byte are enough.\<close>

fun pvalue :: "nat \<Rightarrow> string \<Rightarrow> (json \<times> string) option"
  and pelems :: "nat \<Rightarrow> string \<Rightarrow> (json list \<times> string) option"
  and pmembers :: "nat \<Rightarrow> string \<Rightarrow> ((string \<times> json) list \<times> string) option" where
  "pvalue 0 s = None"
| "pvalue (Suc n) s =
     (case skip_ws s of
        [] \<Rightarrow> None
      | c # cs \<Rightarrow>
          if c = CHR ''{'' then
            (case skip_ws cs of
               [] \<Rightarrow> None
             | d # ds \<Rightarrow> if d = CHR ''}'' then Some (JObj [], ds)
                        else map_option (\<lambda>(ms, r). (JObj ms, r)) (pmembers n (d # ds)))
          else if c = CHR ''['' then
            (case skip_ws cs of
               [] \<Rightarrow> None
             | d # ds \<Rightarrow> if d = CHR '']'' then Some (JArr [], ds)
                        else map_option (\<lambda>(js, r). (JArr js, r)) (pelems n (d # ds)))
          else if c = dquote then map_option (\<lambda>(t, r). (JStr t, r)) (parse_str cs)
          else if c = CHR ''t'' then map_option (\<lambda>r. (JBool True, r)) (strip_prefix ''rue'' cs)
          else if c = CHR ''f'' then map_option (\<lambda>r. (JBool False, r)) (strip_prefix ''alse'' cs)
          else if c = CHR ''n'' then map_option (\<lambda>r. (JNull, r)) (strip_prefix ''ull'' cs)
          else (let tok = takeWhile is_num_char (c # cs)
                in if is_number tok then Some (JNum tok, dropWhile is_num_char (c # cs)) else None))"
| "pelems 0 s = None"
| "pelems (Suc n) s =
     (case pvalue n s of
        None \<Rightarrow> None
      | Some (j, r) \<Rightarrow>
          (case skip_ws r of
             [] \<Rightarrow> None
           | d # ds \<Rightarrow>
               if d = CHR '','' then map_option (\<lambda>(js, r'). (j # js, r')) (pelems n ds)
               else if d = CHR '']'' then Some ([j], ds) else None))"
| "pmembers 0 s = None"
| "pmembers (Suc n) s =
     (case skip_ws s of
        [] \<Rightarrow> None
      | q # qs \<Rightarrow>
          if q \<noteq> dquote then None
          else (case parse_str qs of
             None \<Rightarrow> None
           | Some (k, r) \<Rightarrow>
               (case skip_ws r of
                  [] \<Rightarrow> None
                | co # cos \<Rightarrow>
                    if co \<noteq> CHR '':'' then None
                    else (case pvalue n cos of
                       None \<Rightarrow> None
                     | Some (j, r1) \<Rightarrow>
                         (case skip_ws r1 of
                            [] \<Rightarrow> None
                          | d # ds \<Rightarrow>
                              if d = CHR '','' then map_option (\<lambda>(ms, r'). ((k, j) # ms, r')) (pmembers n ds)
                              else if d = CHR ''}'' then Some ([(k, j)], ds) else None)))))"

definition parse_json :: "string \<Rightarrow> json option" where
  "parse_json s =
     (case pvalue (2 * length s + 2) s of
        None \<Rightarrow> None
      | Some (j, r) \<Rightarrow> if skip_ws r = [] then Some j else None)"

section \<open>Round trip\<close>

fun wf_json :: "json \<Rightarrow> bool"
  and wf_elems :: "json list \<Rightarrow> bool"
  and wf_members :: "(string \<times> json) list \<Rightarrow> bool" where
  "wf_json (JNum l) = is_number l"
| "wf_json (JArr js) = wf_elems js"
| "wf_json (JObj ms) = wf_members ms"
| "wf_json _ = True"
| "wf_elems [] = True"
| "wf_elems (j # js) = (wf_json j \<and> wf_elems js)"
| "wf_members [] = True"
| "wf_members ((k, j) # ms) = (wf_json j \<and> wf_members ms)"

fun need :: "json \<Rightarrow> nat"
  and need_elems :: "json list \<Rightarrow> nat"
  and need_members :: "(string \<times> json) list \<Rightarrow> nat" where
  "need (JArr js) = Suc (need_elems js)"
| "need (JObj ms) = Suc (need_members ms)"
| "need _ = 1"
| "need_elems [] = 0"
| "need_elems (j # js) = Suc (max (need j) (need_elems js))"
| "need_members [] = 0"
| "need_members ((k, j) # ms) = Suc (max (need j) (need_members ms))"

definition num_safe :: "string \<Rightarrow> bool" where
  "num_safe r = (r = [] \<or> \<not> is_num_char (hd r))"

lemma push_str_Some [simp]: "push_str p (Some (s, r)) = Some (p @ s, r)"
  by (simp add: push_str_def)

lemma of_char_hex_digit:
  "n < 16 \<Longrightarrow> (of_char (hex_digit n) :: nat) = (if n < 10 then 48 + n else 87 + n)"
  by (simp add: hex_digit_def of_char_of)

lemma hex_value_hex_digit: "n < 16 \<Longrightarrow> hex_value (hex_digit n) = Some n"
  by (auto simp: hex_value_def of_char_hex_digit Let_def)

lemma hex4_low: "n < 256 \<Longrightarrow> hex4 CHR ''0'' CHR ''0'' (hex_digit (n div 16)) (hex_digit (n mod 16)) = Some n"
  by (simp add: hex4_def hex_value_hex_digit) (simp add: hex_value_def)

lemma parse_str_escape: "parse_str (json_escape c @ t) = push_str [c] (parse_str t)"
proof -
  define n where "n = (of_char c :: nat)"
  have c: "c = char_of n" and n: "n < 256"
    by (simp_all add: n_def)
  have eq: "(c = d) = (n = of_char d)" for d :: char
    by (simp add: n_def)
  consider "n = 34 \<or> n = 92" | "n = 10" | "n = 13" | "n = 9"
    | "n \<notin> {10, 13, 9}" "n < 32 \<or> n = 60 \<or> n = 62 \<or> n = 38"
    | "n \<notin> {34, 92, 60, 62, 38}" "32 \<le> n"
    by fastforce
  then show ?thesis
  proof cases
    case 2
    then have "c = CHR 0x0A" by (simp add: eq)
    then show ?thesis by (simp add: json_escape_def dquote_def backslash_def unescape_def)
  next
    case 3
    then have "c = CHR 0x0D" by (simp add: eq)
    then show ?thesis by (simp add: json_escape_def dquote_def backslash_def unescape_def)
  next
    case 4
    then have "c = CHR 0x09" by (simp add: eq)
    then show ?thesis by (simp add: json_escape_def dquote_def backslash_def unescape_def)
  next
    case 5
    then have "json_escape c = [backslash, CHR ''u'', CHR ''0'', CHR ''0'', hex_digit (n div 16), hex_digit (n mod 16)]"
      by (auto simp: json_escape_def n_def [symmetric] Let_def)
    moreover have "utf8 n = [c]" "\<not> is_surrogate n"
      using 5 c by (auto simp: utf8_def is_surrogate_def)
    ultimately show ?thesis
      using n by (simp add: hex4_low dquote_def backslash_def)
  next
    case 6
    then have "json_escape c = [c]"
      by (auto simp: json_escape_def n_def [symmetric] Let_def)
    with 6 show ?thesis
      by (simp add: dquote_def backslash_def eq n_def [symmetric])
  qed (auto simp: json_escape_def n_def [symmetric] Let_def dquote_def backslash_def unescape_def eq)
qed

lemma parse_print_str: "parse_str (concat (map json_escape s) @ dquote # r) = Some (s, r)"
  by (induction s) (simp_all add: parse_str_escape)

lemma is_number_head:
  assumes "is_number l"
  shows "\<exists>c cs. l = c # cs \<and> (is_digit c \<or> c = CHR ''-'')"
proof (cases l)
  case Nil
  with assms show ?thesis by (simp add: is_number_def Let_def)
next
  case (Cons c cs)
  with assms show ?thesis
    by (cases "c = CHR ''-''") (auto simp: is_number_def Let_def split: if_splits)
qed

lemma pvalue_number:
  assumes l: "is_number l" and r: "num_safe r"
  shows "pvalue (Suc n) (l @ r) = Some (JNum l, r)"
proof -
  obtain c cs where c: "l = c # cs" "is_digit c \<or> c = CHR ''-''"
    using is_number_head [OF l] by blast
  have "list_all is_num_char l"
    using l by (simp add: is_number_def Let_def)
  then have "takeWhile is_num_char (l @ r) = l \<and> dropWhile is_num_char (l @ r) = r"
    using r by (induction l) (cases r, auto simp: num_safe_def)
  moreover have "\<not> is_ws c" "c \<noteq> CHR ''{''" "c \<noteq> CHR ''[''" "c \<noteq> dquote" "c \<noteq> CHR ''t''"
      "c \<noteq> CHR ''f''" "c \<noteq> CHR ''n''"
    using c(2) by (auto simp: is_ws_def is_digit_def dquote_def)
  ultimately show ?thesis
    using c(1) l by (simp add: skip_ws_def)
qed

lemma print_json_head:
  "wf_json j \<Longrightarrow>
     \<exists>c cs. print_json j = c # cs \<and> \<not> is_ws c \<and> c \<noteq> CHR '']'' \<and> c \<noteq> CHR ''}''"
proof (cases j)
  case (JNum l)
  moreover assume "wf_json j"
  ultimately show ?thesis
    using is_number_head [of l] by (auto simp: is_ws_def is_digit_def)
qed (auto simp: is_ws_def print_string_def dquote_def)

lemma skip_ws_head [simp]: "\<not> is_ws c \<Longrightarrow> skip_ws (c # cs) = c # cs"
  by (simp add: skip_ws_def)

lemma skip_ws_print: "wf_json j \<Longrightarrow> skip_ws (print_json j @ r) = print_json j @ r"
  using print_json_head [of j] by auto

lemma ws_punctuation [simp]:
  "\<not> is_ws CHR '',''" "\<not> is_ws CHR '':''" "\<not> is_ws CHR ''{''" "\<not> is_ws CHR ''}''"
  "\<not> is_ws CHR ''[''" "\<not> is_ws CHR '']''" "\<not> is_ws dquote"
  by (simp_all add: is_ws_def dquote_def)

lemma num_safe_punctuation [simp]:
  "num_safe []" "num_safe (CHR '','' # r)" "num_safe (CHR '']'' # r)" "num_safe (CHR ''}'' # r)"
  by (simp_all add: num_safe_def is_num_char_def is_digit_def)

lemma pvalue_punctuation [simp]:
  "dquote \<noteq> CHR ''{''" "dquote \<noteq> CHR ''[''" "dquote \<noteq> CHR ''}''" "CHR ''}'' \<noteq> dquote"
  by (simp_all add: dquote_def)

lemma pvalue_leaf:
  "pvalue (Suc n) (''null'' @ r) = Some (JNull, r)"
  "pvalue (Suc n) (''true'' @ r) = Some (JBool True, r)"
  "pvalue (Suc n) (''false'' @ r) = Some (JBool False, r)"
  "pvalue (Suc n) (print_string s @ r) = Some (JStr s, r)"
  by (simp_all add: strip_prefix_def is_ws_def dquote_def print_string_def)
     (simp add: parse_print_str [unfolded dquote_def])

lemma pvalue_print_json:
  "wf_json j \<Longrightarrow> need j \<le> n \<Longrightarrow> num_safe r \<Longrightarrow> pvalue n (print_json j @ r) = Some (j, r)"
  "wf_elems js \<Longrightarrow> js \<noteq> [] \<Longrightarrow> need_elems js \<le> n \<Longrightarrow>
     pelems n (print_elems js @ CHR '']'' # r) = Some (js, r)"
  "wf_members ms \<Longrightarrow> ms \<noteq> [] \<Longrightarrow> need_members ms \<le> n \<Longrightarrow>
     pmembers n (print_members ms @ CHR ''}'' # r) = Some (ms, r)"
proof (induction j and js and ms arbitrary: n r and n r and n r
    rule: print_json_print_elems_print_members.induct)
  case 1
  then show ?case by (cases n) (use pvalue_leaf(1) in auto)
next
  case (2 b)
  then show ?case by (cases n; cases b) (use pvalue_leaf(2,3) in auto)
next
  case (3 l)
  then show ?case by (cases n) (auto simp: pvalue_number simp del: pvalue.simps)
next
  case (4 s)
  then show ?case by (cases n) (auto simp: pvalue_leaf(4) simp del: pvalue.simps)
next
  case (5 js)
  then obtain m where n: "n = Suc m" "need_elems js \<le> m"
    by (cases n) auto
  show ?case
  proof (cases js)
    case Nil
    with n show ?thesis by simp
  next
    case (Cons j js')
    with 5 have "wf_json j" by simp
    then obtain d ds where d: "print_json j = d # ds" "\<not> is_ws d" "d \<noteq> CHR '']''"
      using print_json_head by blast
    have "pelems m (print_elems js @ CHR '']'' # r) = Some (js, r)"
      using 5 n Cons by simp
    moreover have "\<exists>ds'. print_elems js @ CHR '']'' # r = d # ds'"
      using Cons d by simp
    ultimately show ?thesis
      using n d by auto
  qed
next
  case (6 ms)
  then obtain m where n: "n = Suc m" "need_members ms \<le> m"
    by (cases n) auto
  show ?case
  proof (cases ms)
    case Nil
    with n show ?thesis by simp
  next
    case (Cons kj ms')
    have "pmembers m (print_members ms @ CHR ''}'' # r) = Some (ms, r)"
      using 6 n Cons by simp
    moreover have "\<exists>ds'. print_members ms @ CHR ''}'' # r = dquote # ds'"
      using Cons by (cases kj) (simp add: print_string_def)
    ultimately show ?thesis
      using n by auto
  qed
next
  case 7
  then show ?case by simp
next
  case (8 j js)
  then obtain m where n: "n = Suc m" "need j \<le> m" "need_elems js \<le> m"
    by (cases n) auto
  show ?case
  proof (cases "js = []")
    case True
    have "pvalue m (print_json j @ CHR '']'' # r) = Some (j, CHR '']'' # r)"
      using 8 n by simp
    with True n show ?thesis by simp
  next
    case False
    let ?t = "CHR '','' # print_elems js @ CHR '']'' # r"
    have "pvalue m (print_json j @ ?t) = Some (j, ?t)"
      using 8 n by simp
    moreover have "pelems m (print_elems js @ CHR '']'' # r) = Some (js, r)"
      using 8 n False by simp
    ultimately show ?thesis
      using False n by simp
  qed
next
  case 9
  then show ?case by simp
next
  case (10 k j ms)
  then obtain m where n: "n = Suc m" "need j \<le> m" "need_members ms \<le> m"
    by (cases n) auto
  have key: "parse_str (concat (map json_escape k) @ dquote # t) = Some (k, t)" for t
    by (rule parse_print_str)
  show ?case
  proof (cases "ms = []")
    case True
    have "pvalue m (print_json j @ CHR ''}'' # r) = Some (j, CHR ''}'' # r)"
      using 10 n by simp
    with True n key show ?thesis
      by (simp add: print_string_def)
  next
    case False
    let ?t = "CHR '','' # print_members ms @ CHR ''}'' # r"
    have "pvalue m (print_json j @ ?t) = Some (j, ?t)"
      using 10 n by simp
    moreover have "pmembers m (print_members ms @ CHR ''}'' # r) = Some (ms, r)"
      using 10 n False by simp
    ultimately show ?thesis
      using False n key by (simp add: print_string_def)
  qed
qed

lemma need_bound:
  "wf_json j \<Longrightarrow> Suc (need j) \<le> 2 * length (print_json j)"
  "wf_elems js \<Longrightarrow> need_elems js \<le> 2 * length (print_elems js)"
  "wf_members ms \<Longrightarrow> need_members ms \<le> 2 * length (print_members ms)"
proof (induction j and js and ms rule: print_json_print_elems_print_members.induct)
  case (3 l)
  then show ?case using is_number_head [of l] by auto
qed (auto simp: print_string_def)

lemma parse_print_json: "wf_json j \<Longrightarrow> parse_json (print_json j) = Some j"
proof -
  assume j: "wf_json j"
  have "pvalue (2 * length (print_json j) + 2) (print_json j @ []) = Some (j, [])"
    using j need_bound(1) [OF j] by (intro pvalue_print_json) auto
  then show ?thesis
    by (simp add: parse_json_def skip_ws_def)
qed

section \<open>Enough fuel\<close>

text \<open>Every parser leaves a shorter text, so no call goes deeper than the text is long: the result of
  parsing does not depend on the fuel once there are two units a byte.\<close>

lemma length_skip_ws: "length (skip_ws s) \<le> length s"
  by (simp add: skip_ws_def length_dropWhile_le)

lemma skip_ws_ConsD: "skip_ws s = c # cs \<Longrightarrow> length cs < length s"
  using length_skip_ws [of s] by simp

lemma strip_prefix_shorter: "strip_prefix p s = Some r \<Longrightarrow> length r \<le> length s"
  by (auto simp: strip_prefix_def split: if_splits)

lemma push_str_SomeD: "push_str p q = Some (t, r) \<Longrightarrow> \<exists>u. q = Some (u, r)"
  by (cases q) (auto simp: push_str_def)

lemma parse_str_shorter: "parse_str s = Some (t, r) \<Longrightarrow> length r < length s"
proof (induction "length s" arbitrary: s t r rule: less_induct)
  case less
  have sub: "length r < length s" if "push_str p (parse_str s') = Some (t, r)" "length s' < length s" for p s'
    using push_str_SomeD [OF that(1)] less.hyps [OF that(2)] that(2) by auto
  show ?case
  proof (cases s)
    case (Cons c cs)
    show ?thesis
    proof (cases "c \<noteq> dquote \<and> c = backslash")
      case False
      then show ?thesis using less.prems Cons sub [of "[c]" cs] by (auto split: if_splits)
    next
      case esc: True
      then obtain e es where es: "cs = e # es"
        using less.prems Cons by (cases cs) auto
      show ?thesis
      proof (cases "e = CHR ''u''")
        case False
        then show ?thesis
          using less.prems Cons esc es sub [of _ es] by (auto split: option.splits)
      next
        case u: True
        then obtain a b x y rest where rest: "es = a # b # x # y # rest"
          using less.prems Cons esc es by (auto split: list.splits)
        then obtain n where n: "hex4 a b x y = Some n"
          using less.prems Cons esc es u by (auto split: option.splits)
        show ?thesis
          using less.prems Cons esc es u rest n sub [of _ rest] low_half_shorter [of n rest] sub
          by (fastforce split: if_splits option.splits)
      qed
    qed
  qed (use less.prems in simp)
qed

lemma is_number_token: "is_number (takeWhile is_num_char s) \<Longrightarrow> length (dropWhile is_num_char s) < length s"
proof -
  assume "is_number (takeWhile is_num_char s)"
  then have "takeWhile is_num_char s \<noteq> []" by (auto simp: is_number_def)
  moreover have "length (takeWhile is_num_char s) + length (dropWhile is_num_char s) = length s"
    by (metis length_append takeWhile_dropWhile_id)
  ultimately show ?thesis by (cases "takeWhile is_num_char s") auto
qed


lemma parsed_shorter:
  "pvalue n s = Some (j, r) \<Longrightarrow> length r < length s"
  "pelems n s = Some (js, r) \<Longrightarrow> length r < length s"
  "pmembers n s = Some (ms, r) \<Longrightarrow> length r < length s"
proof (induction n s and n s and n s arbitrary: j r and js r and ms r rule: pvalue_pelems_pmembers.induct)
  case (2 n s)
  obtain c cs where s: "skip_ws s = c # cs"
    using 2(3) by (cases "skip_ws s") auto
  have cs: "length cs < length s" using skip_ws_ConsD [OF s] .
  have tok: "is_number (takeWhile is_num_char (c # cs)) \<Longrightarrow> length (dropWhile is_num_char (c # cs)) < length s"
    using is_number_token [of "c # cs"] cs by (metis Suc_leI length_Cons order_less_le_trans)
  consider "c = CHR ''{''" | "c = CHR ''[''" | "c = dquote" | "c \<notin> {CHR ''{'', CHR ''['', dquote}" by blast
  then show ?case
  proof cases
    case 1
    then obtain d ds where d: "skip_ws cs = d # ds"
      using 2(3) s by (cases "skip_ws cs") auto
    show ?thesis
      using 2(3) 1 s d cs skip_ws_ConsD [OF d] 2(1) [OF s 1 d] length_skip_ws [of cs] by (fastforce split: if_splits)
  next
    case 2
    then obtain d ds where d: "skip_ws cs = d # ds"
      using "2.prems" s by (cases "skip_ws cs") auto
    show ?thesis
      using "2.prems" 2 s d cs skip_ws_ConsD [OF d] "2.IH"(2) [OF s _ 2 d] length_skip_ws [of cs] by (fastforce split: if_splits)
  next
    case 3
    then show ?thesis
      using "2.prems" s cs by (auto dest: parse_str_shorter)
  next
    case 4
    then show ?thesis
      using "2.prems" s cs tok by (auto simp: Let_def split: if_splits dest!: strip_prefix_shorter)
  qed
next
  case (4 n s)
  then obtain j1 r1 where v: "pvalue n s = Some (j1, r1)" by (auto split: option.splits)
  with 4(3) obtain d ds where d: "skip_ws r1 = d # ds" by (cases "skip_ws r1") auto
  show ?case
    using 4(3) v d 4(1) [OF v] 4(2) [OF v refl d] skip_ws_ConsD [OF d] by (fastforce split: if_splits)
next
  case (6 n s)
  then obtain qs where q: "skip_ws s = dquote # qs" by (auto split: list.splits if_splits)
  with 6(3) obtain k r1 where k: "parse_str qs = Some (k, r1)" by (auto split: option.splits)
  with 6(3) q obtain cos where co: "skip_ws r1 = CHR '':'' # cos" by (auto split: list.splits if_splits)
  with 6(3) q k obtain j1 r2 where v: "pvalue n cos = Some (j1, r2)" by (auto split: option.splits)
  with 6(3) q k co obtain d ds where d: "skip_ws r2 = d # ds" by (cases "skip_ws r2") auto
  have "length ds < length s"
    using skip_ws_ConsD [OF q] parse_str_shorter [OF k] skip_ws_ConsD [OF co] 6(1) [OF q _ k refl co _ v] skip_ws_ConsD [OF d]
    by simp
  then show ?case
    using 6(3) q k co v d 6(2) [OF q _ k refl co _ v refl d] by (fastforce split: if_splits)
qed simp_all

text \<open>More fuel than two units a byte and two changes nothing.\<close>

lemma fuel_step:
  "2 * length s + 1 \<le> n \<Longrightarrow> pvalue (Suc n) s = pvalue n s"
  "2 * length s + 2 \<le> n \<Longrightarrow> pelems (Suc n) s = pelems n s"
  "2 * length s + 2 \<le> n \<Longrightarrow> pmembers (Suc n) s = pmembers n s"
proof (induction n s and n s and n s rule: pvalue_pelems_pmembers.induct)
  case (2 n s)
  have sub: "2 * length (d # ds) + 2 \<le> n" if "skip_ws s = c # cs" "skip_ws cs = d # ds" for c cs d ds
    using skip_ws_ConsD [OF that(1)] length_skip_ws [of cs] that(2) 2(3) by simp
  show ?case
    unfolding pvalue.simps(2) [of "Suc n" s] pvalue.simps(2) [of n s]
    using 2(1,2) sub by (auto split: list.split simp del: pvalue.simps pelems.simps pmembers.simps)
next
  case (4 n s)
  have sub: "2 * length ds + 2 \<le> n" if "pvalue n s = Some (j1, r1)" "skip_ws r1 = d # ds" for j1 r1 d ds
    using parsed_shorter(1) [OF that(1)] skip_ws_ConsD [OF that(2)] 4(3) by simp
  have v: "pvalue (Suc n) s = pvalue n s" using 4(1,3) by simp
  show ?case
    unfolding pelems.simps(2) [of "Suc n" s] pelems.simps(2) [of n s] v
    using 4(2) sub by (auto split: list.split option.split simp del: pvalue.simps pelems.simps pmembers.simps)
next
  case (6 n s)
  show ?case
  proof (cases "\<exists>qs k r cos. skip_ws s = dquote # qs \<and> parse_str qs = Some (k, r) \<and> skip_ws r = CHR '':'' # cos")
    case False
    then show ?thesis
      unfolding pmembers.simps(2) [of "Suc n" s] pmembers.simps(2) [of n s]
      by (auto split: list.split option.split simp del: pvalue.simps pmembers.simps)
  next
    case True
    then obtain qs k r cos where a: "skip_ws s = dquote # qs" and b: "parse_str qs = Some (k, r)"
      and c: "skip_ws r = CHR '':'' # cos"
      by blast
    have cos: "2 * length cos + 2 \<le> n"
      using skip_ws_ConsD [OF a] parse_str_shorter [OF b] skip_ws_ConsD [OF c] 6(3) by simp
    then have v: "pvalue (Suc n) cos = pvalue n cos"
      using 6(1) [OF a _ b refl c] by simp
    have m: "pmembers (Suc n) ds = pmembers n ds" if p: "pvalue n cos = Some (j, r1)" and d: "skip_ws r1 = CHR '','' # ds" for j r1 ds
      using 6(2) [OF a _ b refl c _ p refl d] cos parsed_shorter(1) [OF p] skip_ws_ConsD [OF d] by simp
    show ?thesis
      unfolding pmembers.simps(2) [of "Suc n" s] pmembers.simps(2) [of n s]
      using a b c v m by (simp split: list.split option.split del: pvalue.simps pmembers.simps)
  qed
qed simp_all

lemma pvalue_enough_fuel: "2 * length s + 1 \<le> n \<Longrightarrow> n \<le> m \<Longrightarrow> pvalue m s = pvalue n s"
  by (induction m) (auto simp: fuel_step(1) le_Suc_eq simp del: pvalue.simps)

lemma parse_json_fuel:
  "2 * length s + 1 \<le> n \<Longrightarrow>
     parse_json s = (case pvalue n s of None \<Rightarrow> None | Some (j, r) \<Rightarrow> if skip_ws r = [] then Some j else None)"
  using pvalue_enough_fuel [of s "2 * length s + 1" n] pvalue_enough_fuel [of s "2 * length s + 1" "2 * length s + 2"]
  by (simp add: parse_json_def del: pvalue.simps)

end
