(* ===== verification/Numbers.thy ===== *)
theory Numbers
  imports Json
begin

text \<open>
  Decimal literals of integers: what \<^verbatim>\<open>strconv.ParseUint\<close> and \<^verbatim>\<open>ParseInt\<close> read in base ten, what
  \<^verbatim>\<open>FormatInt\<close> writes, and that the first reads back the second.
\<close>

section \<open>Reading and writing\<close>

fun digits_val :: "string \<Rightarrow> nat \<Rightarrow> nat" where
  "digits_val [] n = n"
| "digits_val (d # ds) n = digits_val ds (10 * n + ((of_char d :: nat) - 48))"

definition ParseUint :: "string \<Rightarrow> nat option" where
  "ParseUint s = (if s \<noteq> [] \<and> list_all is_digit s then Some (digits_val s 0) else None)"

definition ParseInt :: "string \<Rightarrow> int option" where
  "ParseInt s =
     (case s of
        CHR ''-'' # ds \<Rightarrow> map_option (\<lambda>n. - int n) (ParseUint ds)
      | _ \<Rightarrow> map_option int (ParseUint s))"

definition show_int :: "int \<Rightarrow> string" where
  "show_int i = (if i < 0 then CHR ''-'' # show_nat (nat (- i)) else show_nat (nat i))"

section \<open>Round trips\<close>

lemma digits_val_snoc: "digits_val (ds @ [d]) n = 10 * digits_val ds n + (of_char d - 48)"
  by (induction ds arbitrary: n) simp_all

lemma of_char_digit: "(n::nat) < 10 \<Longrightarrow> (of_char (char_of (48 + n) :: char) :: nat) = 48 + n"
  by (simp add: of_char_of)

lemma digits_val_show_nat: "digits_val (show_nat n) 0 = n"
proof (induction n rule: show_nat.induct)
  case (1 n)
  then show ?case
    by (subst show_nat.simps) (simp add: digits_val_snoc of_char_digit)
qed

lemma ParseUint_show_nat [simp]: "ParseUint (show_nat n) = Some n"
  using show_nat_digits [of n] by (simp add: ParseUint_def digits_val_show_nat list_all_iff)

lemma ParseInt_unsigned: "d \<noteq> CHR ''-'' \<Longrightarrow> ParseInt (d # ds) = map_option int (ParseUint (d # ds))"
  unfolding ParseInt_def by (cases d) (auto split: bool.split)

lemma ParseInt_show_int [simp]: "ParseInt (show_int i) = Some i"
proof (cases "i < 0")
  case True
  then show ?thesis by (simp add: ParseInt_def show_int_def)
next
  case False
  obtain d ds where d: "show_nat (nat i) = d # ds"
    using show_nat_not_Nil by (meson neq_Nil_conv)
  then have "is_digit d" using show_nat_digits [of "nat i"] by simp
  then have "d \<noteq> CHR ''-''" by (auto simp: is_digit_def)
  then have "ParseInt (show_nat (nat i)) = map_option int (ParseUint (show_nat (nat i)))"
    unfolding d by (rule ParseInt_unsigned)
  with False show ?thesis by (simp add: show_int_def)
qed

lemma show_nat_head: "n > 0 \<Longrightarrow> hd (show_nat n) \<noteq> CHR ''0''"
proof (induction n rule: show_nat.induct)
  case (1 n)
  show ?case
  proof (cases "n < 10")
    case True
    have "char_of (48 + n) = CHR ''0'' \<Longrightarrow> n = 0"
      using of_char_digit [OF True] by auto
    with True 1 show ?thesis by (subst show_nat.simps) auto
  next
    case False
    with 1 show ?thesis by (subst show_nat.simps) simp
  qed
qed

lemma is_number_show_nat [simp]: "is_number (show_nat n)"
proof -
  have digits: "\<forall>c \<in> set (show_nat n). is_digit c" by (rule show_nat_digits)
  then have all: "takeWhile is_digit (show_nat n) = show_nat n" "dropWhile is_digit (show_nat n) = []"
    by (simp_all add: takeWhile_eq_all_conv)
  have "hd (show_nat n) \<noteq> CHR ''-''"
    using digits show_nat_not_Nil [of n] by (cases "show_nat n") (auto simp: is_digit_def)
  moreover have "hd (show_nat n) = CHR ''0'' \<Longrightarrow> show_nat n = ''0''"
  proof -
    assume "hd (show_nat n) = CHR ''0''"
    then have "n = 0" using show_nat_head by blast
    show ?thesis unfolding \<open>n = 0\<close> by code_simp
  qed
  moreover have "list_all is_num_char (show_nat n)"
    using digits by (auto simp: list_all_iff is_num_char_def)
  ultimately show ?thesis
    by (simp add: all digits is_number_def Let_def fraction_ok_def exponent_ok_def)
qed

lemma is_number_show_int [simp]: "is_number (show_int i)"
proof (cases "i < 0")
  case True
  have "is_number (show_nat (nat (- i)))" by simp
  moreover have "hd (show_nat (nat (- i))) \<noteq> CHR ''-''"
    using show_nat_digits [of "nat (- i)"] show_nat_not_Nil [of "nat (- i)"]
    by (cases "show_nat (nat (- i))") (auto simp: is_digit_def)
  ultimately show ?thesis
    using True by (simp add: is_number_def show_int_def Let_def is_num_char_def)
next
  case False
  then show ?thesis by (simp add: show_int_def)
qed

lemma ParseInt_show_nat [simp]: "ParseInt (show_nat n) = Some (int n)"
  using ParseInt_show_int [of "int n"] by (simp add: show_int_def)

end
