(* ===== verification/Float64.thy ===== *)
theory Float64
  imports Numbers "HOL-Library.Log_Nat"
begin

text \<open>
  The numbers of untyped JSON values, read: \<^verbatim>\<open>json.Unmarshal\<close> reads a number into an \<^verbatim>\<open>interface{}\<close> as a
  \<^verbatim>\<open>float64\<close> (\<^verbatim>\<open>strconv.ParseFloat\<close>: the nearest one, ties to even, an error when it is out of range). The
  routine computes on natural numbers; \<open>nearest_float\<close>, over the reals, says what it computes. Numbers of up
  to 53 bits are exact, others at most half a unit in the last place off, and order is kept.
\<close>

section \<open>Reading\<close>

text \<open>A fraction of natural numbers to the nearest natural number, ties to even.\<close>

definition round_even :: "nat \<Rightarrow> nat \<Rightarrow> nat" where
  "round_even p q =
     (let d = p div q; r = p mod q
      in if 2 * r < q \<or> 2 * r = q \<and> even d then d else d + 1)"

text \<open>A float without its sign: mantissa and binary exponent. The mantissa has 53 bits, fewer only at the
  smallest exponent.\<close>

type_synonym float64 = "nat \<times> int"

definition float_exp :: "nat \<Rightarrow> nat \<Rightarrow> int" where
  "float_exp p q =
     (let k = int (floorlog 2 p) - int (floorlog 2 q) - 53
      in max (- 1074) (if p * 2 ^ nat (- k) < 2 ^ 53 * (q * 2 ^ nat k) then k else k + 1))"

definition carry :: "float64 \<Rightarrow> float64" where
  "carry d = (case d of (m, e) \<Rightarrow> if m = 2 ^ 53 then (2 ^ 52, e + 1) else (m, e))"

definition in_range :: "float64 \<Rightarrow> float64 option" where
  "in_range d = (if snd d \<le> 971 then Some d else None)"

definition float_of_frac :: "nat \<Rightarrow> nat \<Rightarrow> float64 option" where
  "float_of_frac p q =
     (if p = 0 then Some (0, - 1074)
      else let e = float_exp p q
        in in_range (carry (round_even (p * 2 ^ nat (- e)) (q * 2 ^ nat e), e)))"

definition float_of_dec :: "nat \<Rightarrow> int \<Rightarrow> float64 option" where
  "float_of_dec ds t = float_of_frac (ds * 10 ^ nat t) (10 ^ nat (- t))"

text \<open>A literal is a sign, digits, and a power of ten.\<close>

definition exponent_val :: "string \<Rightarrow> int" where
  "exponent_val s =
     (if s = [] then 0
      else if tl s \<noteq> [] \<and> hd (tl s) = CHR ''-'' then - int (digits_val (tl (tl s)) 0)
      else if tl s \<noteq> [] \<and> hd (tl s) = CHR ''+'' then int (digits_val (tl (tl s)) 0)
      else int (digits_val (tl s) 0))"

definition read_unsigned :: "string \<Rightarrow> nat \<times> int" where
  "read_unsigned s =
     (let ip = takeWhile is_digit s; r = dropWhile is_digit s
      in if r \<noteq> [] \<and> hd r = CHR ''.''
         then let fr = takeWhile is_digit (tl r)
           in (digits_val (ip @ fr) 0, exponent_val (dropWhile is_digit (tl r)) - int (length fr))
         else (digits_val ip 0, exponent_val r))"

definition is_negative :: "string \<Rightarrow> bool" where
  "is_negative l = (l \<noteq> [] \<and> hd l = CHR ''-'')"

definition unsigned_part :: "string \<Rightarrow> string" where
  "unsigned_part l = (if is_negative l then tl l else l)"

definition ParseFloat :: "string \<Rightarrow> float64 option" where
  "ParseFloat l = (case read_unsigned (unsigned_part l) of (ds, t) \<Rightarrow> float_of_dec ds t)"

section \<open>What reading computes\<close>

definition nearest :: "real \<Rightarrow> int" where
  "nearest x = (let d = \<lfloor>x\<rfloor> in if x - real_of_int d < 1 / 2 \<or> x - real_of_int d = 1 / 2 \<and> even d then d else d + 1)"

definition ulp_exp :: "real \<Rightarrow> int" where
  "ulp_exp x = max (- 1074) (\<lfloor>log 2 x\<rfloor> - 52)"

definition nearest_float :: "real \<Rightarrow> float64 option" where
  "nearest_float x =
     (if x = 0 then Some (0, - 1074)
      else in_range (carry (nat (nearest (x / 2 powi ulp_exp x)), ulp_exp x)))"

definition value_of :: "float64 \<Rightarrow> real" where
  "value_of d = real (fst d) * 2 powi snd d"

definition float_ok :: "float64 \<Rightarrow> bool" where
  "float_ok d = (case d of (m, e) \<Rightarrow> m < 2 ^ 53 \<and> (e = - 1074 \<or> 2 ^ 52 \<le> m \<and> - 1074 \<le> e) \<and> e \<le> 971)"

lemma nearest_of_int [simp]: "nearest (of_int i) = i"
  by (simp add: nearest_def)

lemma nearest_of_nat [simp]: "nearest (real n) = int n"
  using nearest_of_int [of "int n"] by simp

lemma nearest_error: "\<bar>x - real_of_int (nearest x)\<bar> \<le> 1 / 2"
  unfolding nearest_def Let_def by (auto simp: abs_if) linarith+

lemma nearest_mono: "x \<le> y \<Longrightarrow> nearest x \<le> nearest y"
proof -
  assume le: "x \<le> y"
  consider "\<lfloor>x\<rfloor> < \<lfloor>y\<rfloor>" | "\<lfloor>x\<rfloor> = \<lfloor>y\<rfloor>" using floor_mono [OF le] by linarith
  then show ?thesis
  proof cases
    case 2
    with le show ?thesis by (auto simp: nearest_def Let_def)
  qed (auto simp: nearest_def Let_def)
qed

lemma round_even_nearest: "0 < q \<Longrightarrow> int (round_even p q) = nearest (real p / real q)"
proof -
  assume q: "0 < q"
  define d r where "d = p div q" and "r = p mod q"
  have p: "p = d * q + r" by (simp add: d_def r_def)
  have x: "real p / real q = real d + real r / real q"
    using q by (simp add: p field_simps)
  have r: "r < q" using q by (simp add: r_def)
  then have fl: "\<lfloor>real p / real q\<rfloor> = int d"
    unfolding x by (intro floor_unique) (simp_all add: field_simps)
  have half: "real r / real q < 1 / 2 \<longleftrightarrow> 2 * r < q" "real r / real q = 1 / 2 \<longleftrightarrow> 2 * r = q"
    using q by (simp_all add: field_simps) linarith+
  have "real p / real q - real_of_int (int d) = real r / real q"
    unfolding x by simp
  then show ?thesis
    unfolding round_even_def nearest_def Let_def fl d_def [symmetric] r_def [symmetric]
    by (simp only: half) simp
qed

text \<open>Powers of two and ten of a sign that is known only at run time.\<close>

lemma scaled_frac:
  fixes b :: nat
  assumes "0 < b"
  shows "real (p * b ^ nat (- e)) / real (q * b ^ nat e) = real p / real q / real b powi e"
proof (cases "0 \<le> e")
  case True
  then show ?thesis by (simp add: power_int_def)
next
  case False
  then show ?thesis using assms by (simp add: power_int_def field_simps power_inverse)
qed

lemma powi_between: "2 powi i \<le> (x :: real) \<Longrightarrow> x < 2 powi (i + 1) \<Longrightarrow> \<lfloor>log 2 x\<rfloor> = i"
proof -
  assume x: "2 powi i \<le> x" "x < 2 powi (i + 1)"
  then have "0 < x" by (meson less_le_trans zero_less_numeral zero_less_power_int)
  with x show ?thesis
    by (subst floor_log_eq_powr_iff) (simp_all add: powr_real_of_int' [symmetric])
qed

lemma powi_floor_log:
  assumes "0 < x"
  shows "2 powi \<lfloor>log 2 x\<rfloor> \<le> (x :: real)" and "x < 2 powi (\<lfloor>log 2 x\<rfloor> + 1)"
  using assms floor_log_eq_powr_iff [of x 2 "\<lfloor>log 2 x\<rfloor>"] by (simp_all add: powr_real_of_int' [symmetric])

lemma floorlog_powi:
  assumes "0 < p" and "1 < b"
  shows "real b powi (int (floorlog b p) - 1) \<le> real p" and "real p < real b powi int (floorlog b p)"
proof -
  have f: "b ^ (floorlog b p - 1) \<le> p" "p < b ^ floorlog b p" "0 < floorlog b p"
    using floorlog_bounds [OF assms] assms by (auto simp: floorlog_def)
  have "int (floorlog b p) - 1 = int (floorlog b p - 1)" using f(3) by simp
  then show "real b powi (int (floorlog b p) - 1) \<le> real p"
    using f(1) by (simp only: power_int_of_nat) (metis of_nat_le_iff of_nat_power)
  show "real p < real b powi int (floorlog b p)"
    using f(2) by (simp only: power_int_of_nat) (metis of_nat_less_iff of_nat_power)
qed

lemma float_exp_ulp:
  assumes "0 < p" and "0 < q"
  shows "float_exp p q = ulp_exp (real p / real q)"
proof -
  define a b k x where "a = int (floorlog 2 p)" and "b = int (floorlog 2 q)" and "k = a - b - 53"
    and "x = real p / real q"
  have x: "0 < x" using assms by (simp add: x_def)
  have p: "2 powi (a - 1) \<le> real p" "real p < 2 powi a" and q: "2 powi (b - 1) \<le> real q" "real q < 2 powi b"
    using floorlog_powi [OF assms(1), of 2] floorlog_powi [OF assms(2), of 2] by (simp_all add: a_def b_def)
  have "x \<ge> 2 powi (a - 1) / real q"
    unfolding x_def using p(1) by (intro divide_right_mono) simp_all
  moreover have "2 powi (a - 1) / real q \<ge> 2 powi (a - 1) / 2 powi b"
    using q(2) assms by (intro divide_left_mono) simp_all
  ultimately have low: "2 powi (52 + k) \<le> x"
    by (simp add: k_def power_int_diff power_int_add)
  have "x < 2 powi a / real q"
    unfolding x_def using p(2) assms by (intro divide_strict_right_mono) simp_all
  also have "\<dots> \<le> 2 powi a / 2 powi (b - 1)"
    using q(1) assms by (intro divide_left_mono) simp_all
  finally have high: "x < 2 powi (54 + k)"
    by (simp add: k_def power_int_diff power_int_add mult.commute)
  have test: "p * 2 ^ nat (- k) < 2 ^ 53 * (q * 2 ^ nat k) \<longleftrightarrow> x < 2 powi (53 + k)"
  proof -
    have "p * 2 ^ nat (- k) < 2 ^ 53 * (q * 2 ^ nat k) \<longleftrightarrow>
        real (p * 2 ^ nat (- k)) < 2 ^ 53 * real (q * 2 ^ nat k)"
      by (simp only: of_nat_less_iff [where 'a = real, symmetric]) simp
    also have "\<dots> \<longleftrightarrow> real (p * 2 ^ nat (- k)) / real (q * 2 ^ nat k) < 2 ^ 53"
      using assms by (simp add: pos_divide_less_eq)
    also have "\<dots> \<longleftrightarrow> x / 2 powi k < 2 ^ 53"
      using scaled_frac [of 2 p k q] by (simp add: x_def)
    also have "\<dots> \<longleftrightarrow> x < 2 powi (53 + k)"
      by (simp add: pos_divide_less_eq power_int_add)
    finally show ?thesis .
  qed
  have "\<lfloor>log 2 x\<rfloor> = (if x < 2 powi (53 + k) then 52 + k else 53 + k)"
    using low high by (auto intro!: powi_between simp: add.commute)
  then show ?thesis
    unfolding float_exp_def ulp_exp_def Let_def a_def [symmetric] b_def [symmetric] k_def [symmetric] x_def [symmetric] test
    by (simp add: add.commute)
qed

lemma float_of_frac_nearest:
  assumes "0 < q"
  shows "float_of_frac p q = nearest_float (real p / real q)"
proof (cases "p = 0")
  case True
  then show ?thesis by (simp add: float_of_frac_def nearest_float_def)
next
  case False
  then have e: "float_exp p q = ulp_exp (real p / real q)" using assms by (simp add: float_exp_ulp)
  let ?e = "ulp_exp (real p / real q)"
  have "int (round_even (p * 2 ^ nat (- ?e)) (q * 2 ^ nat ?e)) = nearest (real p / real q / 2 powi ?e)"
    using assms scaled_frac [of 2 p ?e q] by (subst round_even_nearest) simp_all
  then have "round_even (p * 2 ^ nat (- ?e)) (q * 2 ^ nat ?e) = nat (nearest (real p / real q / 2 powi ?e))"
    by simp
  with False assms show ?thesis
    by (simp add: float_of_frac_def nearest_float_def Let_def e)
qed

lemma float_of_dec_nearest: "float_of_dec n t = nearest_float (real n * 10 powi t)"
proof -
  have "real (n * 10 ^ nat t) / real (10 ^ nat (- t)) = real n * 10 powi t"
    using scaled_frac [of 10 n "- t" 1] by (simp add: power_int_minus field_simps)
  then show ?thesis by (simp add: float_of_dec_def float_of_frac_nearest)
qed

section \<open>The nearest float\<close>

lemma scaled_bounds:
  assumes "0 < x"
  shows "x / 2 powi ulp_exp x < 2 ^ 53" and "- 1074 < ulp_exp x \<Longrightarrow> 2 ^ 52 \<le> x / 2 powi ulp_exp x"
proof -
  let ?l = "\<lfloor>log 2 x\<rfloor>"
  have "x < 2 powi (?l + 1)" using assms by (rule powi_floor_log)
  also have "\<dots> \<le> 2 powi (53 + ulp_exp x)"
    by (intro power_int_increasing) (simp_all add: ulp_exp_def)
  finally show "x / 2 powi ulp_exp x < 2 ^ 53"
    by (simp add: pos_divide_less_eq power_int_add)
  show "2 ^ 52 \<le> x / 2 powi ulp_exp x" if "- 1074 < ulp_exp x"
  proof -
    have "?l = 52 + ulp_exp x" using that by (simp add: ulp_exp_def max_def split: if_splits)
    then have "2 powi (52 + ulp_exp x) \<le> x" using powi_floor_log(1) [OF assms] by simp
    then show ?thesis by (simp add: pos_le_divide_eq power_int_add)
  qed
qed

lemma nearest_le: "x \<le> real_of_int i \<Longrightarrow> nearest x \<le> i"
  using nearest_mono [of x "of_int i"] by simp

lemma nearest_ge: "real_of_int i \<le> x \<Longrightarrow> i \<le> nearest x"
  using nearest_mono [of "of_int i" x] by simp

lemma nearest_float_ok: "0 \<le> x \<Longrightarrow> nearest_float x = Some d \<Longrightarrow> float_ok d"
proof (cases "x = 0")
  case False
  assume "0 \<le> x" and d: "nearest_float x = Some d"
  with False have x: "0 < x" by simp
  let ?m = "nearest (x / 2 powi ulp_exp x)"
  have "?m \<le> 2 ^ 53" and "0 \<le> ?m"
    using scaled_bounds(1) [OF x] x by (intro nearest_le nearest_ge; simp)+
  moreover have "2 ^ 52 \<le> ?m" if "- 1074 < ulp_exp x"
    using scaled_bounds(2) [OF x that] by (intro nearest_ge) simp
  moreover have "- 1074 \<le> ulp_exp x" by (simp add: ulp_exp_def)
  ultimately show ?thesis
    using d False
    by (auto simp: nearest_float_def in_range_def carry_def float_ok_def nat_le_iff le_nat_iff nat_less_iff split: if_splits)
qed (auto simp: nearest_float_def float_ok_def)

lemma nearest_float_value:
  assumes "float_ok d"
  shows "nearest_float (value_of d) = Some d"
proof -
  obtain m e where d: "d = (m, e)" by fastforce
  show ?thesis
  proof (cases "m = 0")
    case True
    then show ?thesis using assms d by (auto simp: nearest_float_def value_of_def float_ok_def)
  next
    case False
    define x where "x = real m * 2 powi e"
    have x: "0 < x" using False by (simp add: x_def)
    have m: "real m < 2 ^ 53"
      using assms d by (auto simp: float_ok_def)
    have "x < 2 powi (53 + e)" using m by (simp add: x_def power_int_add)
    moreover have "2 powi (52 + e) \<le> x" if "2 ^ 52 \<le> m"
      using that by (simp add: x_def power_int_add)
    moreover define l where "l = \<lfloor>log 2 x\<rfloor>"
    ultimately have "l < 53 + e" and "2 ^ 52 \<le> m \<Longrightarrow> 52 + e \<le> l"
      using x unfolding l_def by (simp_all add: floor_less_iff le_floor_iff log_less_iff le_log_iff powr_real_of_int' flip: of_int_add)
    then have e: "ulp_exp x = e"
      using assms d by (auto simp: ulp_exp_def float_ok_def l_def [symmetric])
    have "x / 2 powi e = real m" by (simp add: x_def)
    then have "nearest_float x = in_range (carry (m, e))" using x by (simp add: nearest_float_def e)
    then show ?thesis
      using assms d by (simp add: value_of_def in_range_def carry_def float_ok_def x_def)
  qed
qed

lemma carry_value: "value_of (carry (m, e)) = real m * 2 powi e"
  by (simp add: value_of_def carry_def power_int_add)

lemma nearest_float_SomeD:
  assumes "0 < x" and "nearest_float x = Some d"
  shows "value_of d = real_of_int (nearest (x / 2 powi ulp_exp x)) * 2 powi ulp_exp x"
proof -
  have "0 \<le> nearest (x / 2 powi ulp_exp x)"
    using assms(1) by (intro nearest_ge) simp
  then show ?thesis
    using assms carry_value [of "nat (nearest (x / 2 powi ulp_exp x))" "ulp_exp x"]
    by (auto simp: nearest_float_def in_range_def split: if_splits)
qed

text \<open>A float is at most half a unit in the last place away from what it stands for.\<close>

lemma nearest_float_error:
  assumes "0 < x" and "nearest_float x = Some d"
  shows "\<bar>x - value_of d\<bar> \<le> 2 powi ulp_exp x / 2"
proof -
  let ?e = "ulp_exp x"
  have "\<bar>x - value_of d\<bar> = \<bar>(x / 2 powi ?e - real_of_int (nearest (x / 2 powi ?e))) * 2 powi ?e\<bar>"
    unfolding nearest_float_SomeD [OF assms] by (simp add: left_diff_distrib)
  also have "\<dots> \<le> 1 / 2 * 2 powi ?e"
    unfolding abs_mult using nearest_error by (intro mult_mono) simp_all
  finally show ?thesis by simp
qed

text \<open>Numbers below 2 to the 64th are in range, and at most 2 to the 10th off.\<close>

lemma ulp_exp_64: "0 < x \<Longrightarrow> x < 2 powi 64 \<Longrightarrow> ulp_exp x \<le> 11"
proof -
  assume "0 < x" and "x < 2 powi 64"
  then have "\<lfloor>log 2 x\<rfloor> < 64" by (simp add: floor_less_iff log_less_iff powr_real_of_int')
  then show ?thesis by (simp add: ulp_exp_def)
qed

lemma nearest_float_64:
  assumes "0 \<le> x" and "x < 2 powi 64"
  shows "\<exists>d. nearest_float x = Some d \<and> \<bar>x - value_of d\<bar> \<le> 2 ^ 10"
proof (cases "x = 0")
  case True
  then show ?thesis by (simp add: nearest_float_def value_of_def)
next
  case False
  with assms have x: "0 < x" and e: "ulp_exp x \<le> 11" using ulp_exp_64 by simp_all
  then have "snd (carry (nat (nearest (x / 2 powi ulp_exp x)), ulp_exp x)) \<le> 971"
    by (simp add: carry_def)
  then obtain d where d: "nearest_float x = Some d" using False by (simp add: nearest_float_def in_range_def)
  have "\<bar>x - value_of d\<bar> \<le> 2 powi ulp_exp x / 2" by (rule nearest_float_error [OF x d])
  also have "\<dots> \<le> 2 powi 11 / 2" using e by (intro divide_right_mono power_int_increasing) simp_all
  finally show ?thesis using d by simp
qed

text \<open>No float lies between a number and the float it is read as.\<close>

lemma nearest_float_mono:
  assumes "nearest_float x = Some d" and "float_ok c" and "value_of c \<le> x"
  shows "value_of c \<le> value_of d"
proof (cases "value_of c = 0")
  case True
  then show ?thesis by (simp add: value_of_def)
next
  case False
  then have "0 < value_of c" by (simp add: value_of_def)
  with assms(3) have x: "0 < x" by simp
  obtain m e where c: "c = (m, e)" by fastforce
  let ?e = "ulp_exp x" and ?n = "nearest (x / 2 powi ulp_exp x)"
  have d: "value_of d = real_of_int ?n * 2 powi ?e" by (rule nearest_float_SomeD [OF x assms(1)])
  show ?thesis
  proof (cases "?e \<le> e")
    case True
    have p: "(2::real) powi e = real_of_int (2 ^ nat (e - ?e)) * 2 powi ?e"
      using True by (simp add: power_int_of_nat [symmetric] power_int_add [symmetric] del: power_int_of_nat)
    have "real_of_int (int m * 2 ^ nat (e - ?e)) \<le> x / 2 powi ?e"
      using assms(3) by (simp add: c value_of_def p pos_le_divide_eq mult.assoc)
    then have "int m * 2 ^ nat (e - ?e) \<le> ?n" by (rule nearest_ge)
    then have "real_of_int (int m * 2 ^ nat (e - ?e)) \<le> real_of_int ?n" by (simp only: of_int_le_iff)
    then have "real_of_int (int m * 2 ^ nat (e - ?e)) * 2 powi ?e \<le> real_of_int ?n * 2 powi ?e"
      by (rule mult_right_mono) simp
    then show ?thesis unfolding d by (simp add: c value_of_def p mult.assoc)
  next
    case False
    have m: "real m \<le> 2 ^ 53" and "- 1074 < ?e"
      using assms(2) c False by (auto simp: float_ok_def)
    then have "real_of_int (2 ^ 52) \<le> x / 2 powi ?e" using scaled_bounds(2) [OF x] by simp
    then have "2 ^ 52 \<le> ?n" by (rule nearest_ge)
    then have n: "2 ^ 52 \<le> real_of_int ?n" using of_int_le_iff [of "2 ^ 52" ?n, where 'a = real] by simp
    have "real m * 2 powi e \<le> 2 ^ 53 * 2 powi (?e - 1)"
      using m False by (intro mult_mono power_int_increasing) simp_all
    also have "\<dots> = 2 ^ 52 * 2 powi ?e" by (simp add: power_int_diff)
    also have "\<dots> \<le> real_of_int ?n * 2 powi ?e" using n by (intro mult_right_mono) simp_all
    finally show ?thesis unfolding d by (simp add: c value_of_def)
  qed
qed

text \<open>The integers up to 2 to the 53rd are floats.\<close>

lemma float_int: "n \<le> 2 ^ 53 \<Longrightarrow> \<exists>d. nearest_float (real n) = Some d \<and> value_of d = real n"
proof (cases "n = 0 \<or> n = 2 ^ 53")
  case True
  have "float_ok (2 ^ 52, 1)" by (simp add: float_ok_def)
  from nearest_float_value [OF this] True show ?thesis
    by (auto simp: nearest_float_def value_of_def)
next
  case False
  assume "n \<le> 2 ^ 53"
  with False have n: "0 < real n" "real n < 2 powi 53" by simp_all
  let ?e = "ulp_exp (real n)"
  have l: "\<lfloor>log 2 (real n)\<rfloor> < 53"
    using n by (simp add: floor_less_iff log_less_iff powr_real_of_int')
  then have e: "?e \<le> 0" by (simp add: ulp_exp_def)
  have "real n / 2 powi ?e = real (n * 2 ^ nat (- ?e))"
    using scaled_frac [of 2 n ?e 1] e by simp
  then have m: "nearest (real n / 2 powi ?e) = int (n * 2 ^ nat (- ?e))" and
      v: "real_of_int (nearest (real n / 2 powi ?e)) * 2 powi ?e = real n"
    by (simp_all only: nearest_of_nat) (simp add: field_simps)
  have "snd (carry (nat (nearest (real n / 2 powi ?e)), ?e)) \<le> 971"
    using e by (simp add: carry_def)
  then obtain d where d: "nearest_float (real n) = Some d"
    using n by (simp add: nearest_float_def in_range_def)
  with nearest_float_SomeD [OF n(1) d] v show ?thesis by simp
qed

end
