(* ===== verification/FloatText.thy ===== *)
theory FloatText
  imports Float64
begin

text \<open>
  The numbers of untyped JSON values, written: \<^verbatim>\<open>json.Marshal\<close> writes a \<^verbatim>\<open>float64\<close> with the smallest number
  of digits that reads back as the same float, in plain notation between 1e-6 and 1e21 (the format of Go
  from 1.8 on). What is written reads back as the float, and the integers up to 2 to the 53rd are
  written as they were read. Every argument of a request is read and written this way.
\<close>

section \<open>Writing\<close>

text \<open>The quotient of a float by a power of ten, as a fraction.\<close>

definition over_ten :: "float64 \<Rightarrow> int \<Rightarrow> nat \<times> nat" where
  "over_ten d t = (case d of (m, e) \<Rightarrow> (m * 2 ^ nat e * 10 ^ nat (- t), 2 ^ nat (- e) * 10 ^ nat t))"

text \<open>The multiple of a power of ten that reads back as the float, the nearer one when both neighbours do.\<close>

definition decimal_at :: "float64 \<Rightarrow> int \<Rightarrow> nat option" where
  "decimal_at d t =
     (case over_ten d t of (a, b) \<Rightarrow>
        let lo = a div b; down = (float_of_dec lo t = Some d); up = (float_of_dec (lo + 1) t = Some d)
        in if down \<and> up then Some (round_even a b)
           else if down then Some lo
           else if up then Some (lo + 1)
           else None)"

text \<open>From the leading digit on, one more digit at a time; the last digit of the exact decimal expansion is
  reached when there are none left.\<close>

fun decimal_from :: "nat \<Rightarrow> float64 \<Rightarrow> int \<Rightarrow> nat \<times> int" where
  "decimal_from 0 d last_place = (case over_ten d last_place of (a, b) \<Rightarrow> (a div b, last_place))"
| "decimal_from (Suc k) d last_place =
     (case decimal_at d (last_place + int (Suc k)) of
        Some ds \<Rightarrow> (ds, last_place + int (Suc k))
      | None \<Rightarrow> decimal_from k d last_place)"

text \<open>The place of the leading digit.\<close>

definition leading_place :: "float64 \<Rightarrow> int" where
  "leading_place d =
     (case over_ten d 0 of (a, b) \<Rightarrow>
        let k = int (floorlog 10 a) - int (floorlog 10 b)
        in if a * 10 ^ nat (- k) < b * 10 ^ nat k then k - 1 else k)"

definition shortest :: "float64 \<Rightarrow> nat \<times> int" where
  "shortest d = (let last_place = min 0 (snd d) in decimal_from (nat (leading_place d - last_place)) d last_place)"

function strip_zeros :: "nat \<Rightarrow> int \<Rightarrow> nat \<times> int" where
  "strip_zeros n t = (if n \<noteq> 0 \<and> n mod 10 = 0 then strip_zeros (n div 10) (t + 1) else (n, t))"
  by pat_completeness auto
termination
  by (relation "measure fst") auto

declare strip_zeros.simps [simp del]

text \<open>Digits whose first one has the given place.\<close>

definition format_digits :: "string \<Rightarrow> int \<Rightarrow> string" where
  "format_digits ds x =
     (if 0 \<le> x \<and> x < 21 then
        (let n = nat x + 1
         in if length ds \<le> n then ds @ replicate (n - length ds) CHR ''0''
            else take n ds @ CHR ''.'' # drop n ds)
      else if - 6 \<le> x \<and> x < 0 then ''0.'' @ replicate (nat (- x) - 1) CHR ''0'' @ ds
      else hd ds # (if tl ds = [] then [] else CHR ''.'' # tl ds) @
        CHR ''e'' # (if x < 0 then CHR ''-'' else CHR ''+'') # show_nat (nat \<bar>x\<bar>))"

definition FormatFloat :: "float64 \<Rightarrow> string" where
  "FormatFloat d =
     (if fst d = 0 then ''0''
      else case shortest d of (n, t) \<Rightarrow>
        (case strip_zeros n t of (n', t') \<Rightarrow> format_digits (show_nat n') (t' + int (length (show_nat n')) - 1)))"

text \<open>A literal read and written again.\<close>

definition reformat :: "string \<Rightarrow> string" where
  "reformat l =
     (case ParseFloat l of
        None \<Rightarrow> l
      | Some d \<Rightarrow> (if is_negative l then ''-'' else []) @ FormatFloat d)"

section \<open>What writing computes is read back\<close>

lemma value_frac: "real (m * 2 ^ nat e) / real (2 ^ nat (- e)) = real m * 2 powi e"
  using scaled_frac [of 2 m "- e" 1] by (simp add: power_int_minus field_simps)

lemma over_ten_value:
  assumes "over_ten d t = (a, b)"
  shows "real a / real b = value_of d / 10 powi t" and "0 < b"
proof -
  obtain m e where d: "d = (m, e)" by fastforce
  with assms have ab: "a = m * 2 ^ nat e * 10 ^ nat (- t)" "b = 2 ^ nat (- e) * 10 ^ nat t"
    by (simp_all add: over_ten_def)
  have "real a / real b = real (m * 2 ^ nat e) / real (2 ^ nat (- e)) / 10 powi t"
    using scaled_frac [of 10 "m * 2 ^ nat e" t "2 ^ nat (- e)"] by (simp only: ab) simp
  then show "real a / real b = value_of d / 10 powi t"
    by (simp only: value_frac) (simp add: d value_of_def)
  show "0 < b" by (simp add: ab)
qed

lemma round_even_cases: "round_even p q = p div q \<or> round_even p q = p div q + 1"
  by (simp add: round_even_def Let_def)

lemma decimal_at_reads: "decimal_at d t = Some n \<Longrightarrow> float_of_dec n t = Some d"
  using round_even_cases [of "fst (over_ten d t)" "snd (over_ten d t)"]
  by (auto simp: decimal_at_def Let_def split: prod.splits if_splits)

lemma last_place_exact:
  assumes "over_ten d (min 0 (snd d)) = (a, b)"
  shows "real (a div b) * 10 powi (min 0 (snd d)) = value_of d"
proof -
  obtain m e where d: "d = (m, e)" by fastforce
  have "b dvd a"
  proof (cases "0 \<le> e")
    case True
    with assms d show ?thesis by (auto simp: over_ten_def)
  next
    case False
    then have "a = m * 10 ^ nat (- e)" "b = 2 ^ nat (- e)"
      using assms d by (simp_all add: over_ten_def)
    moreover have "(2::nat) ^ nat (- e) dvd 10 ^ nat (- e)" by (rule dvd_power_same) simp
    ultimately show ?thesis by simp
  qed
  then have "real (a div b) = real a / real b" by (rule real_of_nat_div)
  then show ?thesis using over_ten_value [OF assms] by simp
qed

lemma decimal_from_reads:
  "float_ok d \<Longrightarrow> decimal_from k d (min 0 (snd d)) = (n, t) \<Longrightarrow> float_of_dec n t = Some d"
proof (induction k)
  case 0
  then show ?case
    using last_place_exact [of d] by (auto simp: float_of_dec_nearest nearest_float_value split: prod.splits)
next
  case (Suc k)
  then show ?case by (auto simp: decimal_at_reads split: option.splits)
qed

lemma strip_zeros_value: "strip_zeros n t = (n', t') \<Longrightarrow> real n' * 10 powi t' = real n * 10 powi t \<and> t \<le> t'"
proof (induction n t rule: strip_zeros.induct)
  case (1 n t)
  show ?case
  proof (cases "n \<noteq> 0 \<and> n mod 10 = 0")
    case True
    then have "real n = real (n div 10) * 10" by (metis mod_0_imp_dvd dvd_div_mult_self of_nat_mult of_nat_numeral)
    with 1 True show ?thesis by (auto simp: strip_zeros.simps [of n] power_int_add)
  next
    case False
    then have "strip_zeros n t = (n, t)" by (subst strip_zeros.simps) auto
    with 1(2) show ?thesis by simp
  qed
qed

text \<open>A literal by its parts: integer digits, fraction digits and exponent.\<close>

definition plain :: "string \<Rightarrow> string \<Rightarrow> string \<Rightarrow> string" where
  "plain ip fr ex = ip @ (if fr = [] then [] else CHR ''.'' # fr) @ ex"

definition exponent_text :: "string \<Rightarrow> bool" where
  "exponent_text ex = (ex = [] \<or> (\<exists>c ds. ex = CHR ''e'' # c # ds \<and> (c = CHR ''-'' \<or> c = CHR ''+'') \<and> ds \<noteq> [] \<and> list_all is_digit ds))"

lemma not_digits [simp]: "\<not> is_digit CHR ''.''" "\<not> is_digit CHR ''e''" "\<not> is_digit CHR ''-''"
  by (simp_all add: is_digit_def)

lemma digit_parts:
  assumes "list_all is_digit ds" and "exponent_text ex"
  shows "takeWhile is_digit (ds @ ex) = ds" "dropWhile is_digit (ds @ ex) = ex"
    "takeWhile is_digit (ds @ CHR ''.'' # r) = ds" "dropWhile is_digit (ds @ CHR ''.'' # r) = CHR ''.'' # r"
  using assms by (auto simp: list_all_iff exponent_text_def)

lemma read_plain:
  assumes "list_all is_digit ip" and "list_all is_digit fr" and "exponent_text ex"
  shows "read_unsigned (plain ip fr ex) = (digits_val (ip @ fr) 0, exponent_val ex - int (length fr))"
proof (cases "fr = []")
  case True
  moreover have "ex = [] \<or> hd ex \<noteq> CHR ''.''" using assms(3) by (auto simp: exponent_text_def)
  ultimately show ?thesis
    using digit_parts [OF assms(1,3)] by (auto simp: read_unsigned_def plain_def)
next
  case False
  then show ?thesis
    using digit_parts [OF assms(1,3)] digit_parts [OF assms(2,3)] by (simp add: read_unsigned_def plain_def)
qed

lemma number_plain:
  assumes "list_all is_digit ip" and "list_all is_digit fr" and "exponent_text ex" and "ip \<noteq> []"
    and "hd ip = CHR ''0'' \<Longrightarrow> ip = ''0''"
  shows "is_number (plain ip fr ex)" and "\<not> is_negative (plain ip fr ex)"
proof -
  have hd: "hd (plain ip fr ex) = hd ip" "plain ip fr ex \<noteq> []" "is_digit (hd ip)"
    using assms(1,4) by (cases ip; simp add: plain_def)+
  then have neg: "hd (plain ip fr ex) \<noteq> CHR ''-''" using not_digits(3) by metis
  then show "\<not> is_negative (plain ip fr ex)" by (simp add: is_negative_def)
  have "list_all is_num_char (plain ip fr ex)"
    using assms(1-3) by (auto simp: plain_def list_all_iff is_num_char_def exponent_text_def)
  moreover have "exponent_ok ex"
    using assms(3) by (auto simp: exponent_text_def exponent_ok_def)
  moreover have "takeWhile is_digit (plain ip fr ex) = ip"
    "dropWhile is_digit (plain ip fr ex) = (if fr = [] then [] else CHR ''.'' # fr) @ ex"
    using digit_parts [OF assms(1,3)] by (simp_all add: plain_def)
  moreover have "ex = [] \<or> hd ex \<noteq> CHR ''.''" using assms(3) by (auto simp: exponent_text_def)
  ultimately have parts: "list_all is_num_char (plain ip fr ex)" "takeWhile is_digit (plain ip fr ex) = ip"
      "fraction_ok (dropWhile is_digit (plain ip fr ex))"
    using digit_parts [OF assms(2,3)] by (auto simp: fraction_ok_def)
  with neg assms(4,5) show "is_number (plain ip fr ex)" by (simp add: is_number_def Let_def)
qed

lemma digits_val_append: "digits_val (a @ b) n = digits_val b (digits_val a n)"
  by (induction a arbitrary: n) simp_all

lemma digits_val_zeros: "digits_val (replicate k CHR ''0'') n = n * 10 ^ k"
  by (induction k arbitrary: n) simp_all

lemma list_all_show_nat [simp]: "list_all is_digit (show_nat n)"
  using show_nat_digits by (simp add: list_all_iff)

lemma exponent_text_show [simp]:
  "exponent_text []" "exponent_text (CHR ''e'' # CHR ''-'' # show_nat k)" "exponent_text (CHR ''e'' # CHR ''+'' # show_nat k)"
  by (auto simp: exponent_text_def)

lemma exponent_val_show [simp]:
  "exponent_val [] = 0" "exponent_val (CHR ''e'' # CHR ''-'' # show_nat k) = - int k"
  "exponent_val (CHR ''e'' # CHR ''+'' # show_nat k) = int k"
  by (simp_all add: exponent_val_def digits_val_show_nat)

definition reads_as :: "string \<Rightarrow> nat \<Rightarrow> int \<Rightarrow> bool" where
  "reads_as l n t = (is_number l \<and> \<not> is_negative l \<and>
     (\<exists>n' t'. read_unsigned l = (n', t') \<and> real n' * 10 powi t' = real n * 10 powi t))"

lemma reads_plain:
  assumes "list_all is_digit ip" and "list_all is_digit fr" and "exponent_text ex" and "ip \<noteq> []"
    and "hd ip = CHR ''0'' \<Longrightarrow> ip = ''0''"
    and "real (digits_val (ip @ fr) 0) * 10 powi (exponent_val ex - int (length fr)) = real n * 10 powi t"
  shows "reads_as (plain ip fr ex) n t"
  using read_plain [OF assms(1-3)] number_plain [OF assms(1-5)] assms(6) by (simp add: reads_as_def)

lemma format_digits_reads:
  assumes n: "0 < n" and ds: "ds = show_nat n"
  shows "reads_as (format_digits ds x) n (x + 1 - int (length ds))"
proof -
  have dig: "list_all is_digit ds" "ds \<noteq> []" "hd ds \<noteq> CHR ''0''" "digits_val ds 0 = n"
    using show_nat_head [OF n] by (simp_all add: ds digits_val_show_nat)
  consider (int) "0 \<le> x" "x < 21" "length ds \<le> nat x + 1"
    | (frac) "0 \<le> x" "x < 21" "nat x + 1 < length ds"
    | (small) "- 6 \<le> x" "x < 0"
    | (expo) "x < - 6 \<or> 21 \<le> x" by linarith
  then show ?thesis
  proof cases
    case int
    let ?k = "nat x + 1 - length ds"
    have "reads_as (plain (ds @ replicate ?k CHR ''0'') [] []) n (x + 1 - int (length ds))"
    proof (rule reads_plain)
      have "real (n * 10 ^ ?k) = real n * 10 powi (x + 1 - int (length ds))"
        using int by (simp add: power_int_def nat_diff_distrib nat_add_distrib)
      then show "real (digits_val ((ds @ replicate ?k CHR ''0'') @ []) 0) * 10 powi (exponent_val [] - int (length [])) =
          real n * 10 powi (x + 1 - int (length ds))"
        by (simp add: digits_val_append digits_val_zeros dig(4))
    qed (use dig in \<open>auto simp: list_all_iff is_digit_def\<close>)
    with int show ?thesis by (simp add: format_digits_def plain_def)
  next
    case frac
    let ?m = "nat x + 1"
    have "reads_as (plain (take ?m ds) (drop ?m ds) []) n (x + 1 - int (length ds))"
    proof (rule reads_plain)
      have "- int (length (drop ?m ds)) = x + 1 - int (length ds)" using frac by simp
      then show "real (digits_val (take ?m ds @ drop ?m ds) 0) * 10 powi (exponent_val [] - int (length (drop ?m ds))) =
          real n * 10 powi (x + 1 - int (length ds))"
        unfolding append_take_drop_id dig(4) by simp
    qed (use dig frac in \<open>auto simp: list_all_iff hd_take dest: in_set_takeD in_set_dropD\<close>)
    with frac show ?thesis by (simp add: format_digits_def plain_def)
  next
    case small
    let ?z = "replicate (nat (- x) - 1) CHR ''0''"
    have "reads_as (plain ''0'' (?z @ ds) []) n (x + 1 - int (length ds))"
    proof (rule reads_plain)
      have e: "exponent_val [] - int (length (?z @ ds)) = x + 1 - int (length ds)" using small by simp
      show "real (digits_val (''0'' @ ?z @ ds) 0) * 10 powi (exponent_val [] - int (length (?z @ ds))) =
          real n * 10 powi (x + 1 - int (length ds))"
        unfolding e by (simp add: digits_val_append digits_val_zeros dig(4))
    qed (use dig in \<open>auto simp: list_all_iff is_digit_def\<close>)
    with small dig show ?thesis by (simp add: format_digits_def plain_def)
  next
    case expo
    let ?ex = "CHR ''e'' # (if x < 0 then CHR ''-'' else CHR ''+'') # show_nat (nat \<bar>x\<bar>)"
    have "reads_as (plain [hd ds] (tl ds) ?ex) n (x + 1 - int (length ds))"
    proof (rule reads_plain)
      have "exponent_val ?ex - int (length (tl ds)) = x + 1 - int (length ds)" using dig(2) by (cases ds) simp_all
      then show "real (digits_val ([hd ds] @ tl ds) 0) * 10 powi (exponent_val ?ex - int (length (tl ds))) =
          real n * 10 powi (x + 1 - int (length ds))"
        using dig(2,4) by simp
    qed (use dig in \<open>cases ds; simp\<close>)+
    with expo show ?thesis by (auto simp: format_digits_def plain_def)
  qed
qed

lemma strip_zeros_pos: "strip_zeros n t = (n', t') \<Longrightarrow> 0 < n \<Longrightarrow> 0 < n'"
  using strip_zeros_value [of n t n' t'] by (cases "n' = 0") auto

lemma FormatFloat_reads:
  assumes ok: "float_ok d"
  shows "is_number (FormatFloat d) \<and> \<not> is_negative (FormatFloat d) \<and> ParseFloat (FormatFloat d) = Some d"
proof (cases "fst d = 0")
  case True
  then have "d = (0, - 1074)" using ok by (cases d) (auto simp: float_ok_def)
  then show ?thesis
    by (simp add: FormatFloat_def ParseFloat_def is_negative_def unsigned_part_def read_unsigned_def is_digit_def
        exponent_val_def float_of_dec_def float_of_frac_def is_number_def is_num_char_def fraction_ok_def exponent_ok_def)
next
  case False
  obtain n t where s: "shortest d = (n, t)" by fastforce
  then have n: "float_of_dec n t = Some d"
    using decimal_from_reads [OF ok] by (simp add: shortest_def Let_def)
  have "0 < n"
  proof (rule ccontr)
    assume "\<not> 0 < n"
    with n have "d = (0, - 1074)" by (simp add: float_of_dec_def float_of_frac_def)
    with False show False by simp
  qed
  obtain n' t' where s': "strip_zeros n t = (n', t')" by fastforce
  have "0 < n'" using strip_zeros_pos [OF s' \<open>0 < n\<close>] .
  then have r: "reads_as (FormatFloat d) n' t'"
    using format_digits_reads [of n' "show_nat n'" "t' + int (length (show_nat n')) - 1"] False
    by (simp add: FormatFloat_def s s')
  then obtain k u where k: "read_unsigned (FormatFloat d) = (k, u)" "real k * 10 powi u = real n' * 10 powi t'"
    unfolding reads_as_def by blast
  then have "float_of_dec k u = Some d"
    using n strip_zeros_value [OF s'] by (simp add: float_of_dec_nearest)
  with r k show ?thesis by (simp add: reads_as_def ParseFloat_def unsigned_part_def)
qed

lemma ParseFloat_ok: "ParseFloat l = Some d \<Longrightarrow> float_ok d"
  by (auto simp: ParseFloat_def float_of_dec_nearest intro: nearest_float_ok [rotated] split: prod.splits)

lemma ParseFloat_neg: "ParseFloat (CHR ''-'' # l) = ParseFloat l" if "\<not> is_negative l"
  using that by (simp add: ParseFloat_def unsigned_part_def) (simp add: is_negative_def)

lemma is_number_neg: "\<not> is_negative l \<Longrightarrow> is_number l \<Longrightarrow> is_number (CHR ''-'' # l)"
  by (auto simp: is_number_def is_negative_def Let_def is_num_char_def)

text \<open>Reading what was written gives the float that was written.\<close>

lemma ParseFloat_reformat: "ParseFloat (reformat l) = ParseFloat l"
proof (cases "ParseFloat l")
  case (Some d)
  then show ?thesis
    using FormatFloat_reads [OF ParseFloat_ok [OF Some]] by (simp add: reformat_def ParseFloat_neg)
qed (simp add: reformat_def)

lemma is_number_reformat: "is_number l \<Longrightarrow> is_number (reformat l)"
  using FormatFloat_reads [OF ParseFloat_ok] by (auto simp: reformat_def is_number_neg split: option.split)

lemma is_negative_reformat: "is_negative (reformat l) = is_negative l"
  using FormatFloat_reads [OF ParseFloat_ok] by (auto simp: reformat_def split: option.split) (auto simp: is_negative_def)

lemma reformat_reformat [simp]: "reformat (reformat l) = reformat l"
  unfolding reformat_def [of "reformat l"] ParseFloat_reformat is_negative_reformat
  by (simp add: reformat_def split: option.split)

section \<open>Integers that pass unchanged\<close>

lemma round_even_exact: "b dvd a \<Longrightarrow> round_even a b = a div b"
  by (cases "b = 0") (auto simp: round_even_def Let_def)

text \<open>A float that stands for a positive integer of at most 53 bits.\<close>

definition whole :: "float64 \<Rightarrow> nat \<Rightarrow> bool" where
  "whole d n = (float_ok d \<and> value_of d = real n \<and> 0 < n \<and> n \<le> 2 ^ 53)"

lemma over_ten_int: "whole d n \<Longrightarrow> 0 \<le> t \<Longrightarrow> over_ten d t = (a, b) \<Longrightarrow> a * 10 ^ nat t = n * b"
proof -
  assume "whole d n" and "0 \<le> t" and ab: "over_ten d t = (a, b)"
  then have "real a * 10 ^ nat t = real n * real b"
    using over_ten_value [OF ab] by (simp add: whole_def power_int_def field_simps)
  then show ?thesis by (metis of_nat_eq_iff of_nat_mult of_nat_numeral of_nat_power)
qed

lemma float_of_dec_int: "whole d n \<Longrightarrow> float_of_dec n 0 = Some d"
  using nearest_float_value [of d] by (simp add: float_of_dec_nearest whole_def)

lemma decimal_at_0: "whole d n \<Longrightarrow> decimal_at d 0 = Some n"
proof -
  assume d: "whole d n"
  obtain a b where ab: "over_ten d 0 = (a, b)" by fastforce
  then have "a = n * b" using over_ten_int [OF d, of 0 a b] by simp
  then show ?thesis
    using over_ten_value(2) [OF ab] float_of_dec_int [OF d] round_even_exact [of b a]
    by (simp add: decimal_at_def ab Let_def)
qed

lemma decimal_at_int:
  assumes d: "whole d n" and "0 \<le> t" and "decimal_at d t = Some k"
  shows "k * 10 ^ nat t = n"
proof (cases "t = 0")
  case True
  then show ?thesis using assms decimal_at_0 [OF d] by simp
next
  case False
  let ?c = "k * 10 ^ nat t"
  have c: "nearest_float (real ?c) = Some d"
    using decimal_at_reads [OF assms(3)] assms(2) by (simp add: float_of_dec_nearest power_int_def)
  show ?thesis
  proof (cases "?c \<le> 2 ^ 53")
    case True
    then obtain d' where d': "nearest_float (real ?c) = Some d'" "value_of d' = real ?c"
      using float_int by blast
    then have "real ?c = real n" using c d by (simp add: whole_def)
    then show ?thesis by (simp only: of_nat_eq_iff)
  next
    case big: False
    have "even ?c" using False assms(2) by simp
    then have "2 ^ 53 + 2 \<le> ?c" using big by (cases "?c = 2 ^ 53 + 1") simp_all
    then have "real (2 ^ 53 + 2) \<le> real ?c" by (simp only: of_nat_le_iff)
    then have "value_of (2 ^ 52 + 1, 1) \<le> real ?c" by (simp add: value_of_def)
    moreover have "float_ok (2 ^ 52 + 1, 1)" by (simp add: float_ok_def)
    ultimately have "value_of (2 ^ 52 + 1, 1) \<le> real n"
      using nearest_float_mono [OF c] d unfolding whole_def by metis
    then have "real (2 ^ 53 + 2) \<le> real n" by (simp add: value_of_def)
    with d show ?thesis by (simp add: whole_def)
  qed
qed

lemma decimal_from_int:
  assumes d: "whole d n"
  shows "last_place \<le> 0 \<Longrightarrow> 0 \<le> last_place + int k \<Longrightarrow> decimal_from k d last_place = (m, t) \<Longrightarrow> 0 \<le> t \<and> m * 10 ^ nat t = n"
proof (induction k)
  case 0
  then have l: "last_place = 0" by simp
  obtain a b where ab: "over_ten d 0 = (a, b)" by fastforce
  then have "a div b = n" using over_ten_int [OF d, of 0 a b] over_ten_value(2) [OF ab] by simp
  then show ?case using 0 ab l by auto
next
  case (Suc k)
  show ?case
  proof (cases "decimal_at d (last_place + int (Suc k))")
    case None
    then have "last_place + int (Suc k) \<noteq> 0" using decimal_at_0 [OF d] by auto
    with Suc None show ?thesis by simp
  next
    case (Some j)
    then show ?thesis using Suc.prems decimal_at_int [OF d _ Some] by auto
  qed
qed

lemma leading_place_int: "whole d n \<Longrightarrow> 0 \<le> leading_place d"
proof -
  assume d: "whole d n"
  obtain a b where ab: "over_ten d 0 = (a, b)" by fastforce
  then have "a = n * b" using over_ten_int [OF d, of 0 a b] by simp
  then have "b \<le> a" using d by (simp add: whole_def)
  with floorlog_mono [OF this, of 10] show ?thesis
    by (cases "floorlog 10 a = floorlog 10 b") (simp_all add: leading_place_def ab Let_def)
qed

lemma shortest_int:
  assumes d: "whole d n" and s: "shortest d = (m, t)"
  shows "0 \<le> t \<and> m * 10 ^ nat t = n"
proof (rule decimal_from_int [OF d])
  show "decimal_from (nat (leading_place d - min 0 (snd d))) d (min 0 (snd d)) = (m, t)"
    using s by (simp add: shortest_def Let_def)
qed (use leading_place_int [OF d] in simp_all)

lemma char_zero [simp]: "(char_of (48 :: nat) :: char) = CHR ''0''"
  by code_simp

lemma show_nat_shift: "0 < m \<Longrightarrow> show_nat (m * 10 ^ k) = show_nat m @ replicate k CHR ''0''"
proof (induction k)
  case (Suc k)
  have "show_nat (m * 10 ^ Suc k) = show_nat (m * 10 ^ k) @ ''0''"
    using Suc.prems by (subst show_nat.simps) (auto simp: mult.assoc [symmetric] mult.commute [of _ 10])
  with Suc show ?case by (simp add: replicate_append_same)
qed simp

lemma length_show_nat: "n < 10 ^ k \<Longrightarrow> 0 < k \<Longrightarrow> length (show_nat n) \<le> k"
proof (induction n arbitrary: k rule: show_nat.induct)
  case (1 n)
  show ?case
  proof (cases "n < 10")
    case False
    then obtain j where "k = Suc j" "0 < j" using 1(2,3) by (cases k; cases "k - 1") auto
    with 1(1) [OF False, of j] 1(2) show ?thesis
      using False by (subst show_nat.simps) (simp add: less_mult_imp_div_less mult.commute)
  qed (use 1 in \<open>subst show_nat.simps; simp\<close>)
qed

lemma FormatFloat_int:
  assumes "float_ok d" and "value_of d = real n" and "n \<le> 2 ^ 53"
  shows "FormatFloat d = show_nat n"
proof (cases "n = 0")
  case True
  then have "show_nat n = ''0''" by (subst show_nat.simps) simp
  then show ?thesis using assms True by (simp add: FormatFloat_def value_of_def)
next
  case False
  then have n: "0 < n" by simp
  then have nz: "fst d \<noteq> 0" using assms(2) by (cases "fst d = 0") (simp_all add: value_of_def)
  obtain m t where s: "shortest d = (m, t)" by fastforce
  have m: "0 \<le> t" "m * 10 ^ nat t = n" using shortest_int [of d n, OF _ s] assms n by (simp_all add: whole_def)
  obtain m' t' where s': "strip_zeros m t = (m', t')" by fastforce
  have t': "0 \<le> t'" using strip_zeros_value [OF s'] m(1) by simp
  then have "(10::real) powi t' = 10 ^ nat t'" and "(10::real) powi t = 10 ^ nat t"
    using m(1) by (simp_all add: power_int_def)
  then have "real (m' * 10 ^ nat t') = real (m * 10 ^ nat t)"
    using strip_zeros_value [OF s'] by simp
  then have "m' * 10 ^ nat t' = m * 10 ^ nat t" by (simp only: of_nat_eq_iff)
  then have m': "m' * 10 ^ nat t' = n" "0 < m'" using m n by (auto intro: gr0I)
  then have sn: "show_nat n = show_nat m' @ replicate (nat t') CHR ''0''"
    using show_nat_shift [of m' "nat t'"] by simp
  have "n < 10 ^ 21" using assms(3) by simp
  then have len: "length (show_nat m') + nat t' \<le> 21" using length_show_nat [of n 21] sn by simp
  have pos: "0 < length (show_nat m')" by simp
  let ?x = "t' + int (length (show_nat m')) - 1"
  have "0 \<le> ?x" "?x < 21" and x: "nat ?x + 1 = nat t' + length (show_nat m')"
    using len pos t' by linarith+
  then have "format_digits (show_nat m') ?x = show_nat n"
    by (simp add: format_digits_def sn)
  then show ?thesis using nz by (simp add: FormatFloat_def s s')
qed

lemma is_negative_show_nat [simp]: "\<not> is_negative (show_nat n)"
  using show_nat_digits [of n] by (cases "show_nat n") (auto simp: is_negative_def is_digit_def)

lemma ParseFloat_digits: "ParseUint l = Some n \<Longrightarrow> ParseFloat l = nearest_float (real n)"
proof -
  assume "ParseUint l = Some n"
  then have l: "l \<noteq> []" "list_all is_digit l" "n = digits_val l 0" by (simp_all add: ParseUint_def split: if_splits)
  then have "\<not> is_negative l" by (cases l) (auto simp: is_negative_def is_digit_def)
  with l read_plain [of l "[]" "[]"] show ?thesis
    by (simp add: ParseFloat_def unsigned_part_def plain_def float_of_dec_nearest)
qed

lemma ParseFloat_show_nat: "ParseFloat (show_nat n) = nearest_float (real n)"
  by (simp add: ParseFloat_digits)

lemma reformat_show_int:
  assumes "\<bar>i\<bar> \<le> 2 ^ 53"
  shows "reformat (show_int i) = show_int i" and "ParseFloat (show_int i) \<noteq> None"
proof -
  define n where "n = nat \<bar>i\<bar>"
  have n: "n \<le> 2 ^ 53" using assms by (simp add: n_def)
  obtain d where d: "nearest_float (real n) = Some d" "value_of d = real n" using float_int [OF n] by blast
  have i: "show_int i = (if i < 0 then ''-'' else []) @ show_nat n" by (simp add: show_int_def n_def)
  then have p: "ParseFloat (show_int i) = Some d" using d by (simp add: ParseFloat_neg ParseFloat_show_nat)
  then show "ParseFloat (show_int i) \<noteq> None" by simp
  have "FormatFloat d = show_nat n" using ParseFloat_ok [OF p] d(2) n by (rule FormatFloat_int)
  moreover have "is_negative (show_int i) \<longleftrightarrow> i < 0" by (simp add: i) (simp add: is_negative_def)
  ultimately show "reformat (show_int i) = show_int i" unfolding reformat_def p using i by simp
qed

section \<open>Evaluation\<close>

text \<open>Literals of such integers are decided without the detour.\<close>

definition exact_int :: "string \<Rightarrow> bool" where
  "exact_int l = (case ParseInt l of None \<Rightarrow> False | Some i \<Rightarrow> \<bar>i\<bar> \<le> 2 ^ 53 \<and> show_int i = l)"

definition finite_num :: "string \<Rightarrow> bool" where
  "finite_num l = (ParseFloat l \<noteq> None)"

lemma exact_int_show [simp]: "exact_int (show_int i) = (\<bar>i\<bar> \<le> 2 ^ 53)"
  by (simp add: exact_int_def)

lemma exact_int_passes: "exact_int l \<Longrightarrow> reformat l = l \<and> finite_num l"
  using reformat_show_int by (auto simp: exact_int_def finite_num_def simp del: not_None_eq split: option.splits)

lemma reformat_code [code]:
  "reformat l =
     (if exact_int l then l
      else case ParseFloat l of
          None \<Rightarrow> l
        | Some d \<Rightarrow> (if is_negative l then ''-'' else []) @ FormatFloat d)"
  using exact_int_passes by (auto simp: reformat_def split: option.splits)

lemma finite_num_code [code]: "finite_num l = (exact_int l \<or> ParseFloat l \<noteq> None)"
  using exact_int_passes by (auto simp: finite_num_def)

lemma finite_num_reformat [simp]: "finite_num (reformat l) = finite_num l"
  by (simp add: finite_num_def ParseFloat_reformat)

end
