(* ===== verification/Settings.thy ===== *)
theory Settings
  imports FloatText
begin

text \<open>
  The agent's settings (\<^verbatim>\<open>agent/settings.go\<close>), the networks of a request
  (\<^verbatim>\<open>cpi/types.go\<close>), the agent configuration (\<^verbatim>\<open>config/agent.go\<close>) and their JSON form: the
  struct tags of the source decide the member names, their order and which are left out when
  empty. Decoding follows \<^verbatim>\<open>encoding/json\<close>: member names match without regard to ASCII case,
  unknown members are skipped, null keeps a string and empties a map or a slice, a value of the
  wrong shape is an error. A slice that is only ever encoded with \<^verbatim>\<open>omitempty\<close> is a list, nil
  being the empty one.
\<close>

named_theorems codec_simps \<open>decoding of what was encoded\<close>

section \<open>Decoding primitives\<close>

definition type_error :: "'a res" where
  "type_error = Err (PlainError ''json: cannot unmarshal value into Go value'')"

definition field_is :: "string \<Rightarrow> string \<Rightarrow> bool" where
  "field_is name k = (ToLower k = ToLower name)"

fun dec_string :: "json \<Rightarrow> string \<Rightarrow> string res" where
  "dec_string JNull old = Ok old"
| "dec_string (JStr s) old = Ok s"
| "dec_string _ old = type_error"

fun dec_bool :: "json \<Rightarrow> bool \<Rightarrow> bool res" where
  "dec_bool JNull old = Ok old"
| "dec_bool (JBool b) old = Ok b"
| "dec_bool _ old = type_error"

fun dec_string_elems :: "json list \<Rightarrow> string list res" where
  "dec_string_elems [] = Ok []"
| "dec_string_elems (j # js) =
     res_then (dec_string j []) (\<lambda>s. res_then (dec_string_elems js) (\<lambda>ss. Ok (s # ss)))"

fun dec_strings :: "json \<Rightarrow> string list option res" where
  "dec_strings JNull = Ok None"
| "dec_strings (JArr js) = res_then (dec_string_elems js) (\<lambda>ss. Ok (Some ss))"
| "dec_strings _ = type_error"

text \<open>The members of an object, one after the other, into a value: the fields of a struct or the
  entries of a map.\<close>

fun dec_members :: "(string \<Rightarrow> json \<Rightarrow> 'r \<Rightarrow> 'r res) \<Rightarrow> (string \<times> json) list \<Rightarrow> 'r \<Rightarrow> 'r res" where
  "dec_members f [] r = Ok r"
| "dec_members f ((k, j) # ms) r = res_then (f k j r) (\<lambda>r'. dec_members f ms r')"

fun dec_struct :: "(string \<Rightarrow> json \<Rightarrow> 'r \<Rightarrow> 'r res) \<Rightarrow> json \<Rightarrow> 'r \<Rightarrow> 'r res" where
  "dec_struct f JNull r = Ok r"
| "dec_struct f (JObj ms) r = dec_members f ms r"
| "dec_struct f _ r = type_error"

fun dec_map :: "(json \<Rightarrow> 'v res) \<Rightarrow> json \<Rightarrow> (string, 'v) gomap option \<Rightarrow> (string, 'v) gomap option res" where
  "dec_map dec JNull old = Ok None"
| "dec_map dec (JObj ms) old =
     res_then (dec_members (\<lambda>k j m. res_then (dec j) (\<lambda>v. Ok (gput k v m))) ms
                 (case old of None \<Rightarrow> [] | Some m \<Rightarrow> m))
       (\<lambda>m. Ok (Some m))"
| "dec_map dec _ old = type_error"

definition dec_smap :: "json \<Rightarrow> smap option \<Rightarrow> smap option res" where
  "dec_smap = dec_map (\<lambda>j. dec_string j [])"

text \<open>An untyped value (\<^verbatim>\<open>interface{}\<close>): objects become maps, so their keys are distinct and, when
  encoded again, sorted; numbers become floats, and one that is out of their range is an error. Here it
  is the value it is encoded to again.\<close>

fun canon :: "json \<Rightarrow> json"
  and canon_elems :: "json list \<Rightarrow> json list"
  and canon_members :: "(string \<times> json) list \<Rightarrow> (string \<times> json) list \<Rightarrow> (string \<times> json) list" where
  "canon (JArr js) = JArr (canon_elems js)"
| "canon (JObj ms) = JObj (sort_key fst (canon_members ms []))"
| "canon (JNum l) = JNum (reformat l)"
| "canon j = j"
| "canon_elems [] = []"
| "canon_elems (j # js) = canon j # canon_elems js"
| "canon_members [] acc = acc"
| "canon_members ((k, j) # ms) acc = canon_members ms (gput k (canon j) acc)"

fun finite_json :: "json \<Rightarrow> bool"
  and finite_elems :: "json list \<Rightarrow> bool"
  and finite_members :: "(string \<times> json) list \<Rightarrow> bool" where
  "finite_json (JNum l) = finite_num l"
| "finite_json (JArr js) = finite_elems js"
| "finite_json (JObj ms) = finite_members ms"
| "finite_json _ = True"
| "finite_elems [] = True"
| "finite_elems (j # js) = (finite_json j \<and> finite_elems js)"
| "finite_members [] = True"
| "finite_members ((k, j) # ms) = (finite_json j \<and> finite_members ms)"

definition dec_untyped :: "json \<Rightarrow> json res" where
  "dec_untyped j = (if finite_json j then Ok (canon j) else type_error)"

fun dec_any :: "json \<Rightarrow> json option res" where
  "dec_any JNull = Ok None"
| "dec_any j = res_then (dec_untyped j) (\<lambda>x. Ok (Some x))"

text \<open>The values that pass unchanged.\<close>

definition canonical :: "json \<Rightarrow> bool" where
  "canonical j = (wf_json j \<and> finite_json j \<and> canon j = j)"

lemma dec_untyped_canonical [simp]: "canonical j \<Longrightarrow> dec_untyped j = Ok j"
  by (simp add: canonical_def dec_untyped_def)

lemma dec_any_canonical: "canonical j \<Longrightarrow> dec_any j = Ok (if j = JNull then None else Some j)"
  by (cases j) simp_all

section \<open>Encoding primitives\<close>

definition omit_if :: "bool \<Rightarrow> (string \<times> json) \<Rightarrow> (string \<times> json) list" where
  "omit_if is_empty m = (if is_empty then [] else [m])"

definition enc_map :: "('v \<Rightarrow> json) \<Rightarrow> (string, 'v) gomap \<Rightarrow> json" where
  "enc_map enc m = JObj (map (\<lambda>(k, v). (k, enc v)) (sort_key fst m))"

definition enc_map_opt :: "('v \<Rightarrow> json) \<Rightarrow> (string, 'v) gomap option \<Rightarrow> json" where
  "enc_map_opt enc m = (case m of None \<Rightarrow> JNull | Some m' \<Rightarrow> enc_map enc m')"

definition enc_strings :: "string list \<Rightarrow> json" where
  "enc_strings ss = JArr (map JStr ss)"

definition enc_strings_opt :: "string list option \<Rightarrow> json" where
  "enc_strings_opt ss = (case ss of None \<Rightarrow> JNull | Some l \<Rightarrow> enc_strings l)"

section \<open>Networks\<close>

text \<open>\<^verbatim>\<open>cpi.Network\<close>: the network of a request.\<close>

record Network =
  nw_Type :: string
  nw_IP :: string
  nw_Netmask :: string
  nw_Gateway :: string
  nw_DNS :: "string list option"
  nw_Default :: "string list option"
  nw_CloudProperties :: "(string, json) gomap option"

type_synonym Networks = "(string, Network) gomap"

text \<open>\<^verbatim>\<open>agent.Network\<close>.\<close>

record AgentNetwork =
  an_Type :: string
  an_IP :: string
  an_Netmask :: string
  an_Gateway :: string
  an_Default :: "string list"
  an_DNS :: "string list"
  an_Preconfigured :: bool

definition zero_AgentNetwork :: AgentNetwork where
  "zero_AgentNetwork = \<lparr>an_Type = [], an_IP = [], an_Netmask = [], an_Gateway = [],
     an_Default = [], an_DNS = [], an_Preconfigured = False\<rparr>"

definition enc_Network :: "Network \<Rightarrow> json" where
  "enc_Network n = JObj
     [(''type'', JStr (nw_Type n)), (''ip'', JStr (nw_IP n)), (''netmask'', JStr (nw_Netmask n)),
      (''gateway'', JStr (nw_Gateway n)), (''dns'', enc_strings_opt (nw_DNS n)),
      (''default'', enc_strings_opt (nw_Default n)),
      (''cloud_properties'', enc_map_opt (\<lambda>j. j) (nw_CloudProperties n))]"

definition enc_AgentNetwork :: "AgentNetwork \<Rightarrow> json" where
  "enc_AgentNetwork n = JObj
     ([(''type'', JStr (an_Type n))]
      @ omit_if (an_IP n = []) (''ip'', JStr (an_IP n))
      @ omit_if (an_Netmask n = []) (''netmask'', JStr (an_Netmask n))
      @ omit_if (an_Gateway n = []) (''gateway'', JStr (an_Gateway n))
      @ omit_if (an_Default n = []) (''default'', enc_strings (an_Default n))
      @ omit_if (an_DNS n = []) (''dns'', enc_strings (an_DNS n))
      @ omit_if (\<not> an_Preconfigured n) (''preconfigured'', JBool (an_Preconfigured n)))"

definition go_slice :: "string list option \<Rightarrow> string list" where
  "go_slice s = (case s of None \<Rightarrow> [] | Some l \<Rightarrow> l)"

definition set_AgentNetwork :: "string \<Rightarrow> json \<Rightarrow> AgentNetwork \<Rightarrow> AgentNetwork res" where
  "set_AgentNetwork k j n =
     (if field_is ''type'' k then res_then (dec_string j (an_Type n)) (\<lambda>x. Ok (n\<lparr>an_Type := x\<rparr>))
      else if field_is ''ip'' k then res_then (dec_string j (an_IP n)) (\<lambda>x. Ok (n\<lparr>an_IP := x\<rparr>))
      else if field_is ''netmask'' k then res_then (dec_string j (an_Netmask n)) (\<lambda>x. Ok (n\<lparr>an_Netmask := x\<rparr>))
      else if field_is ''gateway'' k then res_then (dec_string j (an_Gateway n)) (\<lambda>x. Ok (n\<lparr>an_Gateway := x\<rparr>))
      else if field_is ''default'' k then res_then (dec_strings j) (\<lambda>x. Ok (n\<lparr>an_Default := go_slice x\<rparr>))
      else if field_is ''dns'' k then res_then (dec_strings j) (\<lambda>x. Ok (n\<lparr>an_DNS := go_slice x\<rparr>))
      else if field_is ''preconfigured'' k then res_then (dec_bool j (an_Preconfigured n)) (\<lambda>x. Ok (n\<lparr>an_Preconfigured := x\<rparr>))
      else Ok n)"

definition dec_AgentNetwork :: "json \<Rightarrow> AgentNetwork res" where
  "dec_AgentNetwork j = dec_struct set_AgentNetwork j zero_AgentNetwork"

section \<open>Remarshal\<close>

text \<open>\<^verbatim>\<open>cpi.Remarshal(source, target)\<close>: the source as JSON text, read back into the target. The
  caller gives the source already encoded and the target's decoder.\<close>

definition syntax_error :: "'a res" where
  "syntax_error = Err (PlainError ''invalid JSON input'')"

definition json_Unmarshal :: "(json \<Rightarrow> 'a res) \<Rightarrow> string \<Rightarrow> 'a res" where
  "json_Unmarshal dec text = (case parse_json text of None \<Rightarrow> syntax_error | Some j \<Rightarrow> dec j)"

definition Remarshal :: "json \<Rightarrow> (json \<Rightarrow> 'a res) \<Rightarrow> 'a res" where
  "Remarshal source dec = json_Unmarshal dec (print_json source)"

section \<open>Settings\<close>

record Disks =
  Persistent :: "smap option"

type_synonym AgentNetworks = "(string, AgentNetwork) gomap"

record Settings =
  st_AgentID :: string
  st_Disks :: Disks
  st_Networks :: "AgentNetworks option"
  st_MessageBus :: string
  st_NTPServers :: "string list"
  st_VM :: string
  st_Blobstore :: "json option"
  st_Env :: "json option"

record AgentConfig =
  ac_Blobstore :: "json option"
  ac_MessageBus :: string
  ac_NTPServers :: "string list"

definition zero_Settings :: Settings where
  "zero_Settings = \<lparr>st_AgentID = [], st_Disks = \<lparr>Persistent = None\<rparr>, st_Networks = None,
     st_MessageBus = [], st_NTPServers = [], st_VM = [], st_Blobstore = None, st_Env = None\<rparr>"

definition empty_map :: "(string, 'v) gomap option \<Rightarrow> bool" where
  "empty_map m = (m = None \<or> m = Some [])"

definition enc_Disks :: "Disks \<Rightarrow> json" where
  "enc_Disks d = JObj (omit_if (empty_map (Persistent d)) (''persistent'', enc_map_opt JStr (Persistent d)))"

definition enc_any :: "string \<Rightarrow> json option \<Rightarrow> (string \<times> json) list" where
  "enc_any k v = (case v of None \<Rightarrow> [] | Some j \<Rightarrow> [(k, j)])"

definition enc_Settings :: "Settings \<Rightarrow> json" where
  "enc_Settings s = JObj
     ([(''agent_id'', JStr (st_AgentID s)), (''disks'', enc_Disks (st_Disks s))]
      @ omit_if (empty_map (st_Networks s)) (''networks'', enc_map_opt enc_AgentNetwork (st_Networks s))
      @ [(''mbus'', JStr (st_MessageBus s))]
      @ omit_if (st_NTPServers s = []) (''ntp'', enc_strings (st_NTPServers s))
      @ [(''vm'', JObj [(''name'', JStr (st_VM s))])]
      @ enc_any ''blobstore'' (st_Blobstore s)
      @ enc_any ''env'' (st_Env s))"

definition set_Disks :: "string \<Rightarrow> json \<Rightarrow> Disks \<Rightarrow> Disks res" where
  "set_Disks k j d =
     (if field_is ''persistent'' k then res_then (dec_smap j (Persistent d)) (\<lambda>x. Ok (d\<lparr>Persistent := x\<rparr>))
      else Ok d)"

definition set_VM :: "string \<Rightarrow> json \<Rightarrow> string \<Rightarrow> string res" where
  "set_VM k j n = (if field_is ''name'' k then dec_string j n else Ok n)"

definition set_Settings :: "string \<Rightarrow> json \<Rightarrow> Settings \<Rightarrow> Settings res" where
  "set_Settings k j s =
     (if field_is ''agent_id'' k then res_then (dec_string j (st_AgentID s)) (\<lambda>x. Ok (s\<lparr>st_AgentID := x\<rparr>))
      else if field_is ''disks'' k then res_then (dec_struct set_Disks j (st_Disks s)) (\<lambda>x. Ok (s\<lparr>st_Disks := x\<rparr>))
      else if field_is ''networks'' k then res_then (dec_map dec_AgentNetwork j (st_Networks s)) (\<lambda>x. Ok (s\<lparr>st_Networks := x\<rparr>))
      else if field_is ''mbus'' k then res_then (dec_string j (st_MessageBus s)) (\<lambda>x. Ok (s\<lparr>st_MessageBus := x\<rparr>))
      else if field_is ''ntp'' k then res_then (dec_strings j) (\<lambda>x. Ok (s\<lparr>st_NTPServers := go_slice x\<rparr>))
      else if field_is ''vm'' k then res_then (dec_struct set_VM j (st_VM s)) (\<lambda>x. Ok (s\<lparr>st_VM := x\<rparr>))
      else if field_is ''blobstore'' k then res_then (dec_any j) (\<lambda>x. Ok (s\<lparr>st_Blobstore := x\<rparr>))
      else if field_is ''env'' k then res_then (dec_any j) (\<lambda>x. Ok (s\<lparr>st_Env := x\<rparr>))
      else Ok s)"

definition dec_Settings :: "json \<Rightarrow> Settings res" where
  "dec_Settings j = dec_struct set_Settings j zero_Settings"

definition marshal_Settings :: "Settings \<Rightarrow> string" where
  "marshal_Settings s = print_json (enc_Settings s)"

definition unmarshal_Settings :: "string \<Rightarrow> Settings res" where
  "unmarshal_Settings text = json_Unmarshal dec_Settings text"

section \<open>Decoding what was encoded\<close>

lemma gput_new: "k \<notin> fst ` set m \<Longrightarrow> gput k v m = m @ [(k, v)]"
  by (induction m) (auto simp: gput_def)

lemma dec_string_elems_enc [codec_simps]: "dec_string_elems (map JStr ss) = Ok ss"
  by (induction ss) simp_all

lemma dec_strings_enc [codec_simps]: "dec_strings (enc_strings ss) = Ok (Some ss)"
  by (simp add: enc_strings_def codec_simps)

lemma dec_strings_opt_enc [codec_simps]: "dec_strings (enc_strings_opt ss) = Ok ss"
  by (cases ss) (simp_all add: enc_strings_opt_def codec_simps)

lemma go_slice_Some [simp]: "go_slice (Some l) = l"
  by (simp add: go_slice_def)

lemma dec_members_map:
  assumes "distinct (map fst (acc @ m))" and "\<And>v. v \<in> snd ` set m \<Longrightarrow> dec (enc v) = Ok v"
  shows "dec_members (\<lambda>k j a. res_then (dec j) (\<lambda>v. Ok (gput k v a)))
           (map (\<lambda>(k, v). (k, enc v)) m) acc = Ok (acc @ m)"
  using assms
proof (induction m arbitrary: acc)
  case Nil
  then show ?case by simp
next
  case (Cons kv m)
  obtain k v where kv: "kv = (k, v)" by (cases kv)
  with Cons.prems have "gput k v acc = acc @ [(k, v)]"
    by (intro gput_new) auto
  with Cons kv show ?case by simp
qed

lemma gomap_ok_sort [simp]: "gomap_ok (sort_key fst m) = gomap_ok m"
  by (simp add: gomap_ok_def distinct_map)

lemma gget_sort: "gomap_ok m \<Longrightarrow> gget k (sort_key fst m) = gget k m"
proof -
  assume "gomap_ok m"
  then have "map_of (sort_key fst m) = map_of m"
    using gomap_ok_sort [of m] by (subst map_of_inject_set) (simp_all add: gomap_ok_def)
  then show ?thesis by (simp add: gget_def)
qed

lemma dec_map_enc:
  assumes "gomap_ok m" and "\<And>v. v \<in> snd ` set m \<Longrightarrow> dec (enc v) = Ok v"
  shows "dec_map dec (enc_map enc m) None = Ok (Some (sort_key fst m))"
proof -
  have "distinct (map fst ([] @ sort_key fst m))"
    using assms(1) gomap_ok_sort [of m] unfolding gomap_ok_def by simp
  then show ?thesis
    using dec_members_map [of "[]" "sort_key fst m" dec enc] assms(2)
    by (simp add: enc_map_def)
qed

lemma field_is_names [simp]:
  "field_is ''type'' ''type''" "field_is ''ip'' ''ip''" "field_is ''netmask'' ''netmask''"
  "field_is ''gateway'' ''gateway''" "field_is ''default'' ''default''" "field_is ''dns'' ''dns''"
  "field_is ''preconfigured'' ''preconfigured''" "field_is ''agent_id'' ''agent_id''"
  "field_is ''disks'' ''disks''" "field_is ''networks'' ''networks''" "field_is ''mbus'' ''mbus''"
  "field_is ''ntp'' ''ntp''" "field_is ''vm'' ''vm''" "field_is ''blobstore'' ''blobstore''"
  "field_is ''env'' ''env''" "field_is ''persistent'' ''persistent''" "field_is ''name'' ''name''"
  by (simp_all add: field_is_def)

lemma set_AgentNetwork_names [simp]:
  "set_AgentNetwork ''type'' j n = res_then (dec_string j (an_Type n)) (\<lambda>x. Ok (n\<lparr>an_Type := x\<rparr>))"
  "set_AgentNetwork ''ip'' j n = res_then (dec_string j (an_IP n)) (\<lambda>x. Ok (n\<lparr>an_IP := x\<rparr>))"
  "set_AgentNetwork ''netmask'' j n = res_then (dec_string j (an_Netmask n)) (\<lambda>x. Ok (n\<lparr>an_Netmask := x\<rparr>))"
  "set_AgentNetwork ''gateway'' j n = res_then (dec_string j (an_Gateway n)) (\<lambda>x. Ok (n\<lparr>an_Gateway := x\<rparr>))"
  "set_AgentNetwork ''default'' j n = res_then (dec_strings j) (\<lambda>x. Ok (n\<lparr>an_Default := go_slice x\<rparr>))"
  "set_AgentNetwork ''dns'' j n = res_then (dec_strings j) (\<lambda>x. Ok (n\<lparr>an_DNS := go_slice x\<rparr>))"
  "set_AgentNetwork ''preconfigured'' j n = res_then (dec_bool j (an_Preconfigured n)) (\<lambda>x. Ok (n\<lparr>an_Preconfigured := x\<rparr>))"
  "set_AgentNetwork ''cloud_properties'' j n = Ok n"
  by (simp_all add: set_AgentNetwork_def field_is_def ToLower_def lower_char_def is_upper_def)

lemma dec_members_append:
  "dec_members f (xs @ ys) r = res_then (dec_members f xs r) (\<lambda>r'. dec_members f ys r')"
  by (induction xs arbitrary: r) (auto simp: res_then_def split: res.splits)

lemma dec_AgentNetwork_enc [codec_simps]: "dec_AgentNetwork (enc_AgentNetwork n) = Ok n"
  by (cases n) (auto simp: dec_AgentNetwork_def enc_AgentNetwork_def zero_AgentNetwork_def omit_if_def codec_simps)

lemma set_Settings_names [simp]:
  "set_Settings ''agent_id'' j s = res_then (dec_string j (st_AgentID s)) (\<lambda>x. Ok (s\<lparr>st_AgentID := x\<rparr>))"
  "set_Settings ''disks'' j s = res_then (dec_struct set_Disks j (st_Disks s)) (\<lambda>x. Ok (s\<lparr>st_Disks := x\<rparr>))"
  "set_Settings ''networks'' j s = res_then (dec_map dec_AgentNetwork j (st_Networks s)) (\<lambda>x. Ok (s\<lparr>st_Networks := x\<rparr>))"
  "set_Settings ''mbus'' j s = res_then (dec_string j (st_MessageBus s)) (\<lambda>x. Ok (s\<lparr>st_MessageBus := x\<rparr>))"
  "set_Settings ''ntp'' j s = res_then (dec_strings j) (\<lambda>x. Ok (s\<lparr>st_NTPServers := go_slice x\<rparr>))"
  "set_Settings ''vm'' j s = res_then (dec_struct set_VM j (st_VM s)) (\<lambda>x. Ok (s\<lparr>st_VM := x\<rparr>))"
  "set_Settings ''blobstore'' j s = res_then (dec_any j) (\<lambda>x. Ok (s\<lparr>st_Blobstore := x\<rparr>))"
  "set_Settings ''env'' j s = res_then (dec_any j) (\<lambda>x. Ok (s\<lparr>st_Env := x\<rparr>))"
  by (simp_all add: set_Settings_def field_is_def ToLower_def lower_char_def is_upper_def)

text \<open>What a decode of encoded settings yields: maps sorted by key, empty maps and null untyped
  values gone.\<close>

definition norm_map :: "(string, 'v) gomap option \<Rightarrow> (string, 'v) gomap option" where
  "norm_map m = (if empty_map m then None else map_option (sort_key fst) m)"

definition norm_any :: "json option \<Rightarrow> json option" where
  "norm_any v = (if v = Some JNull then None else v)"

definition norm_Settings :: "Settings \<Rightarrow> Settings" where
  "norm_Settings s = s\<lparr>st_Disks := \<lparr>Persistent = norm_map (Persistent (st_Disks s))\<rparr>,
     st_Networks := norm_map (st_Networks s), st_Blobstore := norm_any (st_Blobstore s),
     st_Env := norm_any (st_Env s)\<rparr>"

definition map_ok :: "('k, 'v) gomap option \<Rightarrow> bool" where
  "map_ok m = (case m of None \<Rightarrow> True | Some m' \<Rightarrow> gomap_ok m')"

definition any_ok :: "json option \<Rightarrow> bool" where
  "any_ok v = (case v of None \<Rightarrow> True | Some j \<Rightarrow> canonical j)"

definition Settings_ok :: "Settings \<Rightarrow> bool" where
  "Settings_ok s = (map_ok (Persistent (st_Disks s)) \<and> map_ok (st_Networks s) \<and>
     any_ok (st_Blobstore s) \<and> any_ok (st_Env s))"

lemma wf_members_append [simp]: "wf_members (xs @ ys) = (wf_members xs \<and> wf_members ys)"
  by (induction xs) auto

lemma wf_members_iff: "wf_members ms = (\<forall>m \<in> set ms. wf_json (snd m))"
  by (induction ms) auto

lemma wf_elems_iff: "wf_elems js = (\<forall>j \<in> set js. wf_json j)"
  by (induction js) auto

lemma wf_enc_map: "(\<And>v. v \<in> snd ` set m \<Longrightarrow> wf_json (enc v)) \<Longrightarrow> wf_json (enc_map enc m)"
  by (force simp: enc_map_def wf_members_iff)

lemma wf_enc_strings [simp]: "wf_json (enc_strings ss)"
  by (auto simp: enc_strings_def wf_elems_iff)

lemma wf_enc_AgentNetwork [simp]: "wf_json (enc_AgentNetwork n)"
  by (simp add: enc_AgentNetwork_def omit_if_def)

lemma wf_enc_Settings: "Settings_ok s \<Longrightarrow> wf_json (enc_Settings s)"
  by (auto simp: enc_Settings_def enc_Disks_def omit_if_def enc_map_opt_def enc_any_def Settings_ok_def
      any_ok_def canonical_def intro!: wf_enc_map split: option.splits)

lemma dec_any_ok: "any_ok (Some j) \<Longrightarrow> dec_any j = Ok (norm_any (Some j))"
  by (simp add: any_ok_def norm_any_def dec_any_canonical)

lemma dec_map_opt_enc:
  assumes "map_ok m" and "\<not> empty_map m" and "\<And>v. dec (enc v) = Ok v"
  shows "dec_map dec (enc_map_opt enc m) None = Ok (norm_map m)"
  using assms
  by (auto simp: enc_map_opt_def norm_map_def map_ok_def empty_map_def intro!: dec_map_enc
      split: option.splits)

lemma dec_Disks_enc:
  "map_ok (Persistent d) \<Longrightarrow>
     dec_struct set_Disks (enc_Disks d) \<lparr>Persistent = None\<rparr> = Ok \<lparr>Persistent = norm_map (Persistent d)\<rparr>"
  using dec_map_opt_enc [of "Persistent d" "\<lambda>j. dec_string j []" JStr]
  by (auto simp: enc_Disks_def omit_if_def set_Disks_def dec_smap_def norm_map_def)

lemma dec_Settings_enc:
  assumes ok: "Settings_ok s"
  shows "dec_Settings (enc_Settings s) = Ok (norm_Settings s)"
proof -
  have disks: "dec_struct set_Disks (enc_Disks (st_Disks s)) \<lparr>Persistent = None\<rparr>
      = Ok \<lparr>Persistent = norm_map (Persistent (st_Disks s))\<rparr>"
    using ok by (intro dec_Disks_enc) (simp add: Settings_ok_def)
  have nets: "\<not> empty_map (st_Networks s) \<Longrightarrow>
      dec_map dec_AgentNetwork (enc_map_opt enc_AgentNetwork (st_Networks s)) None = Ok (norm_map (st_Networks s))"
    using ok by (intro dec_map_opt_enc) (auto simp: Settings_ok_def codec_simps)
  have any: "any_ok (st_Blobstore s)" "any_ok (st_Env s)"
    using ok by (simp_all add: Settings_ok_def)
  have empty: "empty_map (st_Networks s) \<Longrightarrow> norm_map (st_Networks s) = None"
    by (simp add: norm_map_def)
  show ?thesis
    unfolding dec_Settings_def enc_Settings_def zero_Settings_def norm_Settings_def
    by (cases "st_Blobstore s"; cases "st_Env s")
       (use any dec_any_ok in \<open>auto simp: dec_members_append disks nets empty omit_if_def enc_any_def
          codec_simps set_VM_def norm_any_def\<close>)
qed

theorem unmarshal_marshal_Settings:
  "Settings_ok s \<Longrightarrow> unmarshal_Settings (marshal_Settings s) = Ok (norm_Settings s)"
  by (simp add: unmarshal_Settings_def marshal_Settings_def json_Unmarshal_def
      parse_print_json wf_enc_Settings dec_Settings_enc)

lemma norm_map_lookup: "map_ok m \<Longrightarrow> gget k (case norm_map m of None \<Rightarrow> [] | Some n \<Rightarrow> n) = gget k (case m of None \<Rightarrow> [] | Some n \<Rightarrow> n)"
  by (auto simp: norm_map_def empty_map_def map_ok_def gget_sort split: option.splits)

section \<open>What decoding yields can be encoded\<close>

text \<open>The parser accepts only well-formed numbers, and decoding keeps the maps' keys distinct and the
  untyped values in canonical form: decoded settings satisfy the premise of the round trip.\<close>

lemma pvalue_wf:
  "pvalue n s = Some (j, r) \<Longrightarrow> wf_json j"
  "pelems n s = Some (js, r) \<Longrightarrow> wf_elems js"
  "pmembers n s = Some (ms, r) \<Longrightarrow> wf_members ms"
proof (induction n s and n s and n s arbitrary: j r and js r and ms r rule: pvalue_pelems_pmembers.induct)
  case (2 n s)
  then show ?case
    by (auto simp: Let_def split: list.splits if_splits)
next
  case (4 n s)
  then show ?case
    by (fastforce split: option.splits list.splits if_splits)
next
  case (6 n s)
  then show ?case
    by (fastforce split: option.splits list.splits if_splits)
qed auto

lemma parse_json_wf: "parse_json s = Some j \<Longrightarrow> wf_json j"
  using pvalue_wf(1) by (auto simp: parse_json_def simp del: pvalue.simps split: option.splits if_splits)

definition canon_map :: "(string \<times> json) list \<Rightarrow> bool" where
  "canon_map m = (gomap_ok m \<and> (\<forall>e \<in> set m. canonical (snd e)))"

lemma set_gput: "e \<in> set (gput k v m) \<Longrightarrow> e = (k, v) \<or> e \<in> set m"
  unfolding gput_def by (induction m) (auto split: if_splits)

lemma canon_members_distinct:
  "gomap_ok (acc @ m) \<Longrightarrow> \<forall>e \<in> set m. canonical (snd e) \<Longrightarrow> canon_members m acc = acc @ m"
proof (induction m arbitrary: acc)
  case (Cons e m)
  obtain k j where e: "e = (k, j)" by fastforce
  have "gput k (canon j) acc = acc @ [e]"
    using Cons.prems e by (subst gput_new) (auto simp: gomap_ok_def canonical_def)
  then show ?case
    using Cons.IH [of "acc @ [e]"] Cons.prems e by (simp add: gomap_ok_def canonical_def)
qed simp

lemma finite_members_iff: "finite_members ms = (\<forall>e \<in> set ms. finite_json (snd e))"
  by (induction ms) auto

lemma canonical_atoms [simp]:
  "canonical JNull" "canonical (JBool b)" "canonical (JStr t)" "canonical (JObj [])"
  by (simp_all add: canonical_def)

lemma canonical_JArr [simp]: "canonical (JArr js) = list_all canonical js"
  unfolding canonical_def by (induction js) auto

lemma canonical_sorted_map: "canon_map m \<Longrightarrow> canonical (JObj (sort_key fst m))"
  using canon_members_distinct [of "[]" "sort_key fst m"]
  by (simp add: canon_map_def canonical_def sort_key_id_if_sorted wf_members_iff finite_members_iff)

lemma canon_map_gput: "canon_map m \<Longrightarrow> canonical j \<Longrightarrow> canon_map (gput k j m)"
  by (auto simp: canon_map_def dest: set_gput)

lemma canon_ok:
  "wf_json j \<Longrightarrow> finite_json j \<Longrightarrow> canonical (canon j)"
  "wf_elems js \<Longrightarrow> finite_elems js \<Longrightarrow> list_all canonical (canon_elems js)"
  "wf_members ms \<Longrightarrow> finite_members ms \<Longrightarrow> canon_map acc \<Longrightarrow> canon_map (canon_members ms acc)"
proof (induction j and js and ms acc rule: canon_canon_elems_canon_members.induct)
  case (2 ms)
  then show ?case by (simp add: canonical_sorted_map canon_map_def)
next
  case (3 l)
  then show ?case by (simp add: canonical_def is_number_reformat)
qed (simp_all add: canon_map_gput)

lemma dec_untyped_ok: "wf_json j \<Longrightarrow> dec_untyped j = Ok x \<Longrightarrow> canonical x"
  using canon_ok(1) by (auto simp: dec_untyped_def type_error_def split: if_splits)

lemma any_ok_dec: "wf_json j \<Longrightarrow> dec_any j = Ok v \<Longrightarrow> any_ok v"
  by (cases j) (auto simp: any_ok_def res_then_Ok dest!: dec_untyped_ok [rotated])

lemma dec_members_inv:
  assumes "\<And>k j r r'. (k, j) \<in> set ms \<Longrightarrow> I r \<Longrightarrow> f k j r = Ok r' \<Longrightarrow> I r'"
    and "I r" and "dec_members f ms r = Ok r'"
  shows "I r'"
  using assms
proof (induction ms arbitrary: r)
  case (Cons e ms)
  obtain k j where e: "e = (k, j)" by fastforce
  with Cons.prems(3) obtain r1 where r1: "f k j r = Ok r1" "dec_members f ms r1 = Ok r'"
    by (auto simp: res_then_Ok)
  have "I r1" using Cons.prems(1) [OF _ Cons.prems(2) r1(1)] e by simp
  show ?case
    by (rule Cons.IH [OF _ \<open>I r1\<close> r1(2)]) (use Cons.prems(1) in auto)
qed simp

lemma dec_map_ok: "dec_map dec j old = Ok m \<Longrightarrow> map_ok old \<Longrightarrow> map_ok m"
proof (induction dec j old rule: dec_map.induct)
  case (2 dec ms old)
  let ?f = "\<lambda>k j m. res_then (dec j) (\<lambda>v. Ok (gput k v m))"
  from 2 obtain m' where m': "dec_members ?f ms (case old of None \<Rightarrow> [] | Some m \<Rightarrow> m) = Ok m'" "m = Some m'"
    by (auto simp: res_then_Ok)
  have "gomap_ok m'"
    by (rule dec_members_inv [OF _ _ m'(1)]) (use 2 in \<open>auto simp: res_then_Ok map_ok_def split: option.splits\<close>)
  with m' show ?case by (simp add: map_ok_def)
qed (simp_all add: map_ok_def type_error_def)

lemma set_Disks_ok: "map_ok (Persistent d) \<Longrightarrow> set_Disks k j d = Ok d' \<Longrightarrow> map_ok (Persistent d')"
  by (auto simp: set_Disks_def dec_smap_def res_then_Ok dest: dec_map_ok split: if_splits)

lemma dec_Disks_ok:
  assumes "map_ok (Persistent d)" and "dec_struct set_Disks j d = Ok d'"
  shows "map_ok (Persistent d')"
proof (cases j)
  case (JObj ms)
  with assms(2) have m: "dec_members set_Disks ms d = Ok d'" by simp
  show ?thesis
    by (rule dec_members_inv [where I = "\<lambda>d. map_ok (Persistent d)", OF _ assms(1) m]) (rule set_Disks_ok)
qed (use assms in \<open>auto simp: type_error_def\<close>)

lemma set_Settings_ok: "wf_json j \<Longrightarrow> Settings_ok s \<Longrightarrow> set_Settings k j s = Ok s' \<Longrightarrow> Settings_ok s'"
  by (auto simp: set_Settings_def Settings_ok_def res_then_Ok
      dest: any_ok_dec dec_map_ok dec_Disks_ok split: if_splits)

lemma unmarshal_Settings_ok: "unmarshal_Settings text = Ok s \<Longrightarrow> Settings_ok s"
proof -
  assume u: "unmarshal_Settings text = Ok s"
  then obtain j where j: "parse_json text = Some j" "dec_struct set_Settings j zero_Settings = Ok s"
    by (auto simp: unmarshal_Settings_def json_Unmarshal_def dec_Settings_def syntax_error_def split: option.splits)
  have z: "Settings_ok zero_Settings"
    by (simp add: zero_Settings_def Settings_ok_def map_ok_def any_ok_def)
  show ?thesis
  proof (cases j)
    case (JObj ms)
    then have wf: "\<forall>e \<in> set ms. wf_json (snd e)" and m: "dec_members set_Settings ms zero_Settings = Ok s"
      using parse_json_wf [OF j(1)] j(2) by (simp_all add: wf_members_iff)
    show ?thesis
    proof (rule dec_members_inv [where I = Settings_ok, OF _ z m])
      fix k j' r r' assume "(k, j') \<in> set ms" and "Settings_ok r" and "set_Settings k j' r = Ok r'"
      moreover have "wf_json j'" using wf \<open>(k, j') \<in> set ms\<close> by force
      ultimately show "Settings_ok r'" by (blast intro: set_Settings_ok)
    qed
  qed (use j z in \<open>auto simp: type_error_def\<close>)
qed

text \<open>Decoding never panics.\<close>

lemma dec_string_no_panic [simp]: "dec_string j old \<noteq> Panic p"
  by (cases j) (simp_all add: type_error_def)

lemma res_then_Panic: "res_then r f = Panic p \<longleftrightarrow> r = Panic p \<or> (\<exists>x. r = Ok x \<and> f x = Panic p)"
  by (cases r) auto

lemma dec_any_no_panic [simp]: "dec_any j \<noteq> Panic p"
  by (cases j) (auto simp: res_then_Panic dec_untyped_def type_error_def)

lemma dec_members_no_panic: "(\<And>k j r p. f k j r \<noteq> Panic p) \<Longrightarrow> dec_members f ms r \<noteq> Panic p"
  by (induction ms arbitrary: r) (auto simp: res_then_Panic)

lemma dec_struct_no_panic: "(\<And>k j r p. f k j r \<noteq> Panic p) \<Longrightarrow> dec_struct f j r \<noteq> Panic p"
  using dec_members_no_panic [of f] by (cases j) (auto simp: type_error_def)

lemma dec_map_no_panic: "(\<And>j p. dec j \<noteq> Panic p) \<Longrightarrow> dec_map dec j old \<noteq> Panic p"
  by (cases j) (auto simp: type_error_def res_then_Panic intro!: dec_members_no_panic)

lemma dec_strings_no_panic: "dec_strings j \<noteq> Panic p"
proof -
  have "dec_string_elems js \<noteq> Panic p" for js
    by (induction js) (auto simp: res_then_Panic)
  then show ?thesis by (cases j) (auto simp: type_error_def res_then_Panic)
qed

lemma dec_bool_no_panic: "dec_bool j old \<noteq> Panic p"
  by (cases j) (simp_all add: type_error_def)

lemma dec_AgentNetwork_no_panic: "dec_AgentNetwork j \<noteq> Panic p"
  unfolding dec_AgentNetwork_def
  by (rule dec_struct_no_panic) (auto simp: set_AgentNetwork_def res_then_Panic dec_strings_no_panic dec_bool_no_panic)

lemma unmarshal_Settings_no_panic: "unmarshal_Settings text \<noteq> Panic p"
proof -
  have "set_Disks k j d \<noteq> Panic p" for k j d p
    by (auto simp: set_Disks_def dec_smap_def res_then_Panic dec_map_no_panic)
  then have disks: "dec_struct set_Disks j d \<noteq> Panic p" for j d p
    by (intro dec_struct_no_panic)
  have vm: "dec_struct set_VM j d \<noteq> Panic p" for j d p
    by (intro dec_struct_no_panic) (simp add: set_VM_def)
  have "set_Settings k j s \<noteq> Panic p" for k j s p
    by (auto simp: set_Settings_def res_then_Panic disks vm dec_strings_no_panic
        dec_map_no_panic [OF dec_AgentNetwork_no_panic])
  then have "dec_struct set_Settings j d \<noteq> Panic p" for j d p
    by (intro dec_struct_no_panic)
  then show ?thesis
    by (auto simp: unmarshal_Settings_def json_Unmarshal_def dec_Settings_def syntax_error_def split: option.splits)
qed

end
