(* ===== verification/Validation.thy ===== *)
theory Validation
  imports Errors
begin

text \<open>
  Name and label validation: \<^verbatim>\<open>IsQualifiedName\<close>, \<^verbatim>\<open>IsValidLabelValue\<close> and
  \<^verbatim>\<open>IsDNS1123Subdomain\<close> of the vendored \<^verbatim>\<open>k8s.io/client-go/pkg/util/validation\<close>, which
  set_vm_metadata and set_disk_metadata use to filter or refuse label keys and values and
  the selector parser uses on every requirement. A function returns its list of complaints,
  empty for a valid value. Each anchored regular expression is the predicate it denotes.
\<close>

section \<open>Character classes\<close>

definition is_alnum :: "char \<Rightarrow> bool" where
  "is_alnum c = (is_upper c \<or> is_lower c \<or> is_digit c)"

definition is_qname_ext :: "char \<Rightarrow> bool" where
  "is_qname_ext c = (is_alnum c \<or> c = CHR ''-'' \<or> c = CHR ''_'' \<or> c = CHR ''.'')"

definition is_dns_char :: "char \<Rightarrow> bool" where
  "is_dns_char c = (is_lower c \<or> is_digit c)"

definition is_dns_ext :: "char \<Rightarrow> bool" where
  "is_dns_ext c = (is_dns_char c \<or> c = CHR ''-'')"

section \<open>The regular expressions\<close>

definition qualifiedNameFmt :: string where
  "qualifiedNameFmt = ''([A-Za-z0-9][-A-Za-z0-9_.]*)?[A-Za-z0-9]''"

definition labelValueFmt :: string where
  "labelValueFmt = ''('' @ qualifiedNameFmt @ '')?''"

definition dns1123LabelFmt :: string where
  "dns1123LabelFmt = ''[a-z0-9]([-a-z0-9]*[a-z0-9])?''"

definition dns1123SubdomainFmt :: string where
  "dns1123SubdomainFmt = dns1123LabelFmt @ ''('' @ [CHR 0x5C] @ ''.'' @ dns1123LabelFmt @ '')*''"

definition qualifiedNameRegexp :: "string \<Rightarrow> bool" where
  "qualifiedNameRegexp s = (s \<noteq> [] \<and> is_alnum (hd s) \<and> is_alnum (last s) \<and> list_all is_qname_ext s)"

definition labelValueRegexp :: "string \<Rightarrow> bool" where
  "labelValueRegexp s = (s = [] \<or> qualifiedNameRegexp s)"

definition dns1123LabelRegexp :: "string \<Rightarrow> bool" where
  "dns1123LabelRegexp s = (s \<noteq> [] \<and> is_dns_char (hd s) \<and> is_dns_char (last s) \<and> list_all is_dns_ext s)"

definition dns1123SubdomainRegexp :: "string \<Rightarrow> bool" where
  "dns1123SubdomainRegexp s = list_all dns1123LabelRegexp (Split s CHR ''.'')"

definition qualifiedNameMaxLength :: nat where "qualifiedNameMaxLength = 63"
definition LabelValueMaxLength :: nat where "LabelValueMaxLength = 63"
definition DNS1123SubdomainMaxLength :: nat where "DNS1123SubdomainMaxLength = 253"

section \<open>Messages\<close>

definition MaxLenError :: "nat \<Rightarrow> string" where
  "MaxLenError n = ''must be no more than '' @ show_nat n @ '' characters''"

definition EmptyError :: string where
  "EmptyError = ''must be non-empty''"

definition quoted :: "string \<Rightarrow> string" where
  "quoted s = [CHR 0x27] @ s @ [CHR 0x27]"

definition RegexError :: "string \<Rightarrow> string list \<Rightarrow> string" where
  "RegexError fmt examples =
     (let s = ''must match the regex '' @ fmt
      in if examples = [] then s
         else s @ '' (e.g. '' @ Join (map quoted examples) '' or '' @ '')'')"

definition prefixEach :: "string list \<Rightarrow> string \<Rightarrow> string list" where
  "prefixEach msgs prefix = map (\<lambda>m. prefix @ m) msgs"

section \<open>The validators\<close>

definition IsDNS1123Subdomain :: "string \<Rightarrow> string list" where
  "IsDNS1123Subdomain value =
     (if length value > DNS1123SubdomainMaxLength then [MaxLenError DNS1123SubdomainMaxLength] else [])
     @ (if \<not> dns1123SubdomainRegexp value then [RegexError dns1123SubdomainFmt [''example.com'']] else [])"

definition qname_errors :: "string \<Rightarrow> string list" where
  "qname_errors name =
     (if length name = 0 then [''name part '' @ EmptyError]
      else if length name > qualifiedNameMaxLength then [''name part '' @ MaxLenError qualifiedNameMaxLength]
      else [])
     @ (if \<not> qualifiedNameRegexp name
        then [''name part '' @ RegexError qualifiedNameFmt [''MyName'', ''my.name'', ''123-abc'']] else [])"

definition IsQualifiedName :: "string \<Rightarrow> string list" where
  "IsQualifiedName value =
     (case Split value CHR ''/'' of
        [name] \<Rightarrow> qname_errors name
      | [prefix, name] \<Rightarrow>
          (if length prefix = 0 then [''prefix part '' @ EmptyError]
           else prefixEach (IsDNS1123Subdomain prefix) ''prefix part '')
          @ qname_errors name
      | _ \<Rightarrow> [RegexError qualifiedNameFmt [''MyName'', ''my.name'', ''123-abc'']
              @ '' with an optional DNS subdomain prefix and '' @ quoted ''/''
              @ '' (e.g. '' @ quoted ''example.com/MyName''])"

definition IsValidLabelValue :: "string \<Rightarrow> string list" where
  "IsValidLabelValue value =
     (if length value > LabelValueMaxLength then [MaxLenError LabelValueMaxLength] else [])
     @ (if \<not> labelValueRegexp value
        then [RegexError labelValueFmt [''MyValue'', ''my_value'', ''12345'']] else [])"

section \<open>What the validators accept\<close>

lemma IsValidLabelValue_iff:
  "IsValidLabelValue v = [] \<longleftrightarrow> length v \<le> 63 \<and> labelValueRegexp v"
  by (auto simp: IsValidLabelValue_def LabelValueMaxLength_def)

lemma qname_errors_iff: "qname_errors n = [] \<longleftrightarrow> length n \<le> 63 \<and> qualifiedNameRegexp n"
  by (auto simp: qname_errors_def qualifiedNameMaxLength_def qualifiedNameRegexp_def)

lemma label_value_chars: "labelValueRegexp v \<Longrightarrow> list_all is_qname_ext v"
  by (auto simp: labelValueRegexp_def qualifiedNameRegexp_def)

text \<open>The prefix every key of this program carries.\<close>

definition bosh_prefix :: string where
  "bosh_prefix = ''bosh.cloudfoundry.org''"

lemma bosh_prefix_valid: "IsDNS1123Subdomain bosh_prefix = []"
  by code_simp

lemma bosh_prefix_no_slash: "CHR ''/'' \<notin> set bosh_prefix"
  by code_simp

text \<open>A prefixed key is qualified exactly when the part after the slash is a valid name.\<close>

lemma qname_no_slash: "qualifiedNameRegexp n \<Longrightarrow> CHR ''/'' \<notin> set n"
proof
  assume "qualifiedNameRegexp n" and "CHR ''/'' \<in> set n"
  then have "is_qname_ext CHR ''/''"
    by (simp add: qualifiedNameRegexp_def list_all_iff)
  then show False
    by (simp add: is_qname_ext_def is_alnum_def is_upper_def is_lower_def is_digit_def)
qed

lemma IsQualifiedName_bosh:
  "IsQualifiedName (bosh_prefix @ CHR ''/'' # k) = [] \<longleftrightarrow> length k \<le> 63 \<and> qualifiedNameRegexp k"
proof (cases "CHR ''/'' \<in> set k")
  case True
  then obtain a b where ab: "k = a @ CHR ''/'' # b" "CHR ''/'' \<notin> set a"
    by (metis split_list_first)
  then have "Split k CHR ''/'' = a # Split b CHR ''/''"
    by (simp add: Split_append)
  moreover obtain p ps where "Split b CHR ''/'' = p # ps"
    by (cases "Split b CHR ''/''") auto
  ultimately have "IsQualifiedName (bosh_prefix @ CHR ''/'' # k) \<noteq> []"
    by (simp add: IsQualifiedName_def Split_append bosh_prefix_no_slash RegexError_def Let_def)
  with True show ?thesis
    using qname_no_slash by blast
next
  case False
  then have "Split (bosh_prefix @ CHR ''/'' # k) CHR ''/'' = [bosh_prefix, k]"
    by (simp add: Split_append Split_absent bosh_prefix_no_slash)
  moreover have "bosh_prefix \<noteq> []"
    by (simp add: bosh_prefix_def)
  ultimately show ?thesis
    by (simp add: IsQualifiedName_def prefixEach_def bosh_prefix_valid qname_errors_iff)
qed

end
