(* ===== verification/Labels.thy ===== *)
theory Labels
  imports Validation
begin

text \<open>
  Label selectors: the lexer, the parser and the matching of the vendored
  \<^verbatim>\<open>k8s.io/client-go/pkg/labels/selector.go\<close>. Every find, list and watch of the program builds
  a selector with \<^verbatim>\<open>labels.Parse("key=" + id)\<close>, prints it back with \<^verbatim>\<open>String()\<close> and hands the
  text to the API. The lexer works on the text that is left, the parser on the tokens that are
  left: the source's positions are suffixes here.
\<close>

section \<open>Tokens\<close>

datatype token =
    ErrorToken | EndOfStringToken | ClosedParToken | CommaToken | DoesNotExistToken
  | DoubleEqualsToken | EqualsToken | GreaterThanToken | IdentifierToken | InToken
  | LessThanToken | NotEqualsToken | NotInToken | OpenParToken

definition string2token :: "(string, token) gomap" where
  "string2token =
     [('')'', ClosedParToken), ('','', CommaToken), (''!'', DoesNotExistToken),
      (''=='', DoubleEqualsToken), (''='', EqualsToken), (''>'', GreaterThanToken),
      (''in'', InToken), (''<'', LessThanToken), (''!='', NotEqualsToken),
      (''notin'', NotInToken), (''('', OpenParToken)]"

type_synonym item = "token \<times> string"

definition isWhitespace :: "char \<Rightarrow> bool" where
  "isWhitespace ch = (ch = CHR '' '' \<or> ch = CHR 0x09 \<or> ch = CHR 0x0D \<or> ch = CHR 0x0A)"

definition isSpecialSymbol :: "char \<Rightarrow> bool" where
  "isSpecialSymbol ch = (ch \<in> {CHR ''='', CHR ''!'', CHR ''('', CHR '')'', CHR '','', CHR ''>'', CHR ''<''})"

definition is_nul :: "char \<Rightarrow> bool" where
  "is_nul ch = (ch = CHR 0x00)"

definition id_char :: "char \<Rightarrow> bool" where
  "id_char ch = (\<not> is_nul ch \<and> \<not> isSpecialSymbol ch \<and> \<not> isWhitespace ch)"

section \<open>Lexer\<close>

text \<open>A NUL byte reads like the end of the text, and is consumed.\<close>

definition skip_nul :: "string \<Rightarrow> string" where
  "skip_nul s = (case s of [] \<Rightarrow> [] | c # cs \<Rightarrow> if is_nul c then cs else s)"

definition scanIdOrKeyword :: "string \<Rightarrow> item \<times> string" where
  "scanIdOrKeyword s =
     (let buffer = takeWhile id_char s; rest = skip_nul (dropWhile id_char s)
      in (((case gget buffer string2token of Some tok \<Rightarrow> tok | None \<Rightarrow> IdentifierToken), buffer), rest))"

fun special_loop :: "string \<Rightarrow> item \<Rightarrow> string \<Rightarrow> string \<times> item \<times> string" where
  "special_loop buffer lst [] = (buffer, lst, [])"
| "special_loop buffer lst (ch # cs) =
     (if is_nul ch then (buffer, lst, cs)
      else if isSpecialSymbol ch then
        (case gget (buffer @ [ch]) string2token of
           Some tok \<Rightarrow> special_loop (buffer @ [ch]) (tok, buffer @ [ch]) cs
         | None \<Rightarrow> if fst lst \<noteq> ErrorToken then (buffer @ [ch], lst, ch # cs)
                   else special_loop (buffer @ [ch]) lst cs)
      else (buffer, lst, ch # cs))"

definition scanSpecialSymbol :: "string \<Rightarrow> item \<times> string" where
  "scanSpecialSymbol s =
     (case special_loop [] (ErrorToken, []) s of (buffer, lst, rest) \<Rightarrow>
        if fst lst = ErrorToken
        then ((ErrorToken, ''error expected: keyword found '' @ quoted buffer), rest)
        else (lst, rest))"

definition Lex :: "string \<Rightarrow> item \<times> string" where
  "Lex s =
     (case dropWhile isWhitespace s of
        [] \<Rightarrow> ((EndOfStringToken, []), [])
      | ch # cs \<Rightarrow>
          if is_nul ch then ((EndOfStringToken, []), cs)
          else if isSpecialSymbol ch then scanSpecialSymbol (ch # cs)
          else scanIdOrKeyword (ch # cs))"

text \<open>Every token but the last consumes input, so the scan of the whole text ends.\<close>

lemma length_skip_nul: "length (skip_nul s) \<le> length s"
  by (cases s) (auto simp: skip_nul_def)

lemma special_loop_length: "length (snd (snd (special_loop b l s))) \<le> length s"
  by (induction b l s rule: special_loop.induct) (auto split: option.splits)

lemma special_loop_first:
  "isSpecialSymbol ch \<Longrightarrow> \<not> is_nul ch \<Longrightarrow>
     special_loop [] (ErrorToken, []) (ch # cs) =
       special_loop [ch] (the (gget [ch] string2token), [ch]) cs"
  by (auto simp: isSpecialSymbol_def string2token_def)

lemma scanSpecialSymbol_shorter:
  assumes "isSpecialSymbol ch" and "\<not> is_nul ch"
  shows "length (snd (scanSpecialSymbol (ch # cs))) < length (ch # cs)"
  using special_loop_length [of "[ch]" "(the (gget [ch] string2token), [ch])" cs]
  unfolding scanSpecialSymbol_def special_loop_first [OF assms]
  by (auto split: prod.splits)

lemma scanIdOrKeyword_shorter:
  assumes "id_char ch"
  shows "length (snd (scanIdOrKeyword (ch # cs))) < length (ch # cs)"
proof -
  have "length (skip_nul (dropWhile id_char cs)) \<le> length (dropWhile id_char cs)"
    by (rule length_skip_nul)
  also have "\<dots> \<le> length cs"
    by (rule length_dropWhile_le)
  finally show ?thesis
    using assms by (simp add: scanIdOrKeyword_def Let_def)
qed

lemma Lex_shorter:
  assumes "fst (fst (Lex s)) \<noteq> EndOfStringToken"
  shows "length (snd (Lex s)) < length s"
proof (cases "dropWhile isWhitespace s")
  case Nil
  with assms show ?thesis by (simp add: Lex_def)
next
  case (Cons ch cs)
  have le: "length (ch # cs) \<le> length s"
    using Cons length_dropWhile_le [of isWhitespace s] by simp
  have nws: "\<not> isWhitespace ch"
    using Cons by (metis hd_dropWhile list.sel(1) list.distinct(1))
  have nn: "\<not> is_nul ch"
    using assms Cons by (auto simp: Lex_def)
  show ?thesis
  proof (cases "isSpecialSymbol ch")
    case True
    then have "length (snd (Lex s)) < length (ch # cs)"
      using Cons nn scanSpecialSymbol_shorter by (simp add: Lex_def)
    with le show ?thesis by linarith
  next
    case False
    with nn nws have "id_char ch" by (simp add: id_char_def)
    then have "length (snd (Lex s)) < length (ch # cs)"
      using Cons nn False scanIdOrKeyword_shorter by (simp add: Lex_def)
    with le show ?thesis by linarith
  qed
qed

function scan :: "string \<Rightarrow> item list" where
  "scan s =
     (if fst (fst (Lex s)) = EndOfStringToken then [fst (Lex s)]
      else fst (Lex s) # scan (snd (Lex s)))"
  by pat_completeness auto
termination
  by (relation "measure length") (auto intro: Lex_shorter)

declare scan.simps [simp del]

section \<open>Requirements\<close>

datatype operator =
    OpDoesNotExist | OpEquals | OpDoubleEquals | OpIn | OpNotEquals | OpNotIn | OpExists
  | OpGreaterThan | OpLessThan

record requirement =
  req_key :: string
  req_operator :: operator
  req_values :: "string list"

definition validateLabelKey :: "string \<Rightarrow> unit res" where
  "validateLabelKey k =
     (let errs = IsQualifiedName k
      in if errs \<noteq> [] then Err (PlainError (''invalid label key '' @ GoQuote k @ '': '' @ Join errs ''; ''))
         else Ok ())"

definition validateLabelValue :: "string \<Rightarrow> unit res" where
  "validateLabelValue v =
     (let errs = IsValidLabelValue v
      in if errs \<noteq> [] then Err (PlainError (''invalid label value: '' @ GoQuote v @ '': '' @ Join errs ''; ''))
         else Ok ())"

text \<open>\<^verbatim>\<open>strconv.ParseInt(s, 10, 64)\<close>: an optional sign, digits, and the range of 64 bits.\<close>

definition digits_value :: "string \<Rightarrow> int" where
  "digits_value ds = foldl (\<lambda>n c. 10 * n + (of_char c - 48)) 0 ds"

definition ParseInt64 :: "string \<Rightarrow> int option" where
  "ParseInt64 s =
     (let neg = (s \<noteq> [] \<and> hd s = CHR ''-'');
          ds = (if s \<noteq> [] \<and> (hd s = CHR ''-'' \<or> hd s = CHR ''+'') then tl s else s);
          n = (if neg then - digits_value ds else digits_value ds)
      in if ds \<noteq> [] \<and> list_all is_digit ds \<and> - (2 ^ 63) \<le> n \<and> n < 2 ^ 63 then Some n else None)"

fun check_values :: "string list \<Rightarrow> unit res" where
  "check_values [] = Ok ()"
| "check_values (v # vs) = res_then (validateLabelValue v) (\<lambda>_. check_values vs)"

definition in_values_msg :: string where
  "in_values_msg = ''for '' @ quoted ''in'' @ '', '' @ quoted ''notin'' @
     '' operators, values set can'' @ [CHR 0x27] @ ''t be empty''"

definition gt_lt_msg :: string where
  "gt_lt_msg = ''for '' @ quoted ''Gt'' @ '', '' @ quoted ''Lt'' @ '' operators, ''"

definition NewRequirement :: "string \<Rightarrow> operator \<Rightarrow> string list \<Rightarrow> requirement res" where
  "NewRequirement key oper vals =
     res_then (validateLabelKey key) (\<lambda>_.
     res_then
       (case oper of
          OpIn \<Rightarrow> if vals = [] then Err (PlainError in_values_msg) else Ok ()
        | OpNotIn \<Rightarrow> if vals = [] then Err (PlainError in_values_msg) else Ok ()
        | OpExists \<Rightarrow> if vals \<noteq> [] then Err (PlainError ''values set must be empty for exists and does not exist'') else Ok ()
        | OpDoesNotExist \<Rightarrow> if vals \<noteq> [] then Err (PlainError ''values set must be empty for exists and does not exist'') else Ok ()
        | OpGreaterThan \<Rightarrow> if length vals \<noteq> 1 then Err (PlainError (gt_lt_msg @ ''exactly one value is required''))
                        else if ParseInt64 (hd vals) = None then Err (PlainError (gt_lt_msg @ ''the value must be an integer'')) else Ok ()
        | OpLessThan \<Rightarrow> if length vals \<noteq> 1 then Err (PlainError (gt_lt_msg @ ''exactly one value is required''))
                     else if ParseInt64 (hd vals) = None then Err (PlainError (gt_lt_msg @ ''the value must be an integer'')) else Ok ()
        | _ \<Rightarrow> if length vals \<noteq> 1 then Err (PlainError ''exact-match compatibility requires one single value'') else Ok ()) (\<lambda>_.
     res_then (check_values vals) (\<lambda>_.
     Ok \<lparr>req_key = key, req_operator = oper, req_values = sort vals\<rparr>)))"

section \<open>Parser\<close>

text \<open>In the \<^verbatim>\<open>Values\<close> context the keywords read as identifiers. The token list ends with
  \<open>EndOfStringToken\<close>, which also stands for reading past it.\<close>

fun as_value :: "token \<Rightarrow> token" where
  "as_value InToken = IdentifierToken"
| "as_value NotInToken = IdentifierToken"
| "as_value t = t"

definition look_op :: "item list \<Rightarrow> item" where
  "look_op ts = (case ts of [] \<Rightarrow> (EndOfStringToken, []) | t # _ \<Rightarrow> t)"

definition look :: "item list \<Rightarrow> item" where
  "look ts = (as_value (fst (look_op ts)), snd (look_op ts))"

definition found :: "string \<Rightarrow> string \<Rightarrow> 'a res" where
  "found lit expected = Err (PlainError (''found '' @ quoted lit @ '', expected: '' @ expected))"

fun parseIdentifiersList :: "string list \<Rightarrow> item list \<Rightarrow> (string list \<times> item list) res" where
  "parseIdentifiersList s [] = found [] (quoted '','' @ '', or identifier'')"
| "parseIdentifiersList s (t # ts) =
     (case as_value (fst t) of
        IdentifierToken \<Rightarrow>
          (let s' = List.insert (snd t) s
           in if fst (look ts) = CommaToken then parseIdentifiersList s' ts
              else if fst (look ts) = ClosedParToken then Ok (s', ts)
              else found (snd (look ts)) (quoted '','' @ '' or '' @ quoted '')''))
      | CommaToken \<Rightarrow>
          (let s' = (if s = [] then [[]] else s)
           in if fst (look ts) = ClosedParToken then Ok (List.insert [] s', ts)
              else if fst (look ts) = CommaToken then parseIdentifiersList (List.insert [] s') (drop 1 ts)
              else parseIdentifiersList s' ts)
      | _ \<Rightarrow> found (snd t) (quoted '','' @ '', or identifier''))"

definition parseValues :: "item list \<Rightarrow> (string list \<times> item list) res" where
  "parseValues ts =
     (if fst (look ts) \<noteq> OpenParToken then Err (PlainError (''found '' @ quoted (snd (look ts)) @ '' expected: '' @ quoted ''(''))
      else (let ts1 = drop 1 ts in
        case fst (look ts1) of
          IdentifierToken \<Rightarrow>
            res_then (parseIdentifiersList [] ts1) (\<lambda>(s, ts2).
              if fst (look ts2) \<noteq> ClosedParToken then found (snd (look ts1)) (quoted '')'') else Ok (s, drop 1 ts2))
        | CommaToken \<Rightarrow>
            res_then (parseIdentifiersList [] ts1) (\<lambda>(s, ts2).
              if fst (look ts2) \<noteq> ClosedParToken then found (snd (look ts1)) (quoted '')'') else Ok (s, drop 1 ts2))
        | ClosedParToken \<Rightarrow> Ok ([[]], drop 1 ts1)
        | _ \<Rightarrow> found (snd (look ts1)) (quoted '','' @ '', '' @ quoted '')'' @ '' or identifier'')))"

definition parseExactValue :: "item list \<Rightarrow> (string list \<times> item list) res" where
  "parseExactValue ts =
     (if fst (look ts) = EndOfStringToken \<or> fst (look ts) = CommaToken then Ok ([[]], ts)
      else if fst (look ts) = IdentifierToken then Ok ([snd (look ts)], drop 1 ts)
      else found (snd (look ts)) ''identifier'')"

definition parseOperator :: "item list \<Rightarrow> (operator \<times> item list) res" where
  "parseOperator ts =
     (case fst (look_op ts) of
        InToken \<Rightarrow> Ok (OpIn, drop 1 ts)
      | EqualsToken \<Rightarrow> Ok (OpEquals, drop 1 ts)
      | DoubleEqualsToken \<Rightarrow> Ok (OpDoubleEquals, drop 1 ts)
      | GreaterThanToken \<Rightarrow> Ok (OpGreaterThan, drop 1 ts)
      | LessThanToken \<Rightarrow> Ok (OpLessThan, drop 1 ts)
      | NotInToken \<Rightarrow> Ok (OpNotIn, drop 1 ts)
      | NotEqualsToken \<Rightarrow> Ok (OpNotEquals, drop 1 ts)
      | _ \<Rightarrow> found (snd (look_op ts)) (quoted ''='' @ '', '' @ quoted ''!='' @ '', '' @ quoted ''=='' @ '', '' @ quoted ''in'' @ '', notin'' @ [CHR 0x27]))"

definition parseKeyAndInferOperator :: "item list \<Rightarrow> (string \<times> operator option \<times> item list) res" where
  "parseKeyAndInferOperator ts =
     (let neg = (fst (look ts) = DoesNotExistToken);
          ts1 = (if neg then drop 1 ts else ts);
          tok = fst (look ts1); literal = snd (look ts1); ts2 = drop 1 ts1
      in if tok \<noteq> IdentifierToken then found literal ''identifier''
         else res_then (validateLabelKey literal) (\<lambda>_.
           Ok (literal,
               (if neg then Some OpDoesNotExist
                else if fst (look ts2) = EndOfStringToken \<or> fst (look ts2) = CommaToken then Some OpExists
                else None),
               ts2)))"

definition parseRequirement :: "item list \<Rightarrow> (requirement \<times> item list) res" where
  "parseRequirement ts =
     res_then (parseKeyAndInferOperator ts) (\<lambda>(key, oper, ts1).
       case oper of
         Some op1 \<Rightarrow> res_then (NewRequirement key op1 []) (\<lambda>r. Ok (r, ts1))
       | None \<Rightarrow>
           res_then (parseOperator ts1) (\<lambda>(op2, ts2).
           res_then (if op2 = OpIn \<or> op2 = OpNotIn then parseValues ts2 else parseExactValue ts2) (\<lambda>(vals, ts3).
           res_then (NewRequirement key op2 (sort vals)) (\<lambda>r. Ok (r, ts3)))))"

text \<open>The parser's loop: each round takes a requirement and a comma. \<open>parse_loop\<close> spends one unit
  of fuel a round; as every round consumes tokens, the number of tokens is enough fuel.\<close>

fun parse_loop :: "nat \<Rightarrow> item list \<Rightarrow> requirement list res" where
  "parse_loop 0 ts = Err (PlainError ''out of fuel'')"
| "parse_loop (Suc n) ts =
     (let tok = fst (look ts); lit = snd (look ts)
      in if tok = IdentifierToken \<or> tok = DoesNotExistToken then
           (case parseRequirement ts of
              Err e \<Rightarrow> Err (PlainError (''unable to parse requirement: '' @ Error e))
            | Panic p \<Rightarrow> Panic p
            | Ok (r, ts1) \<Rightarrow>
                (let t = fst (look ts1); l = snd (look ts1); ts2 = drop 1 ts1
                 in if t = EndOfStringToken then Ok [r]
                    else if t = CommaToken then
                      (if fst (look ts2) \<noteq> IdentifierToken \<and> fst (look ts2) \<noteq> DoesNotExistToken
                       then found (snd (look ts2)) (''identifier after '' @ quoted '','')
                       else res_then (parse_loop n ts2) (\<lambda>rs. Ok (r # rs)))
                    else found l (quoted '','' @ '' or '' @ quoted ''end of string'')))
         else if tok = EndOfStringToken then Ok []
         else found lit (''!, identifier, or '' @ quoted ''end of string''))"

definition Parse :: "string \<Rightarrow> requirement list res" where
  "Parse selector =
     (let ts = scan selector
      in res_then (parse_loop (Suc (length ts)) ts) (\<lambda>rs. Ok (sort_key req_key rs)))"

section \<open>Matching and printing\<close>

definition Has :: "smap option \<Rightarrow> string \<Rightarrow> bool" where
  "Has ls k = (case ls of None \<Rightarrow> False | Some m \<Rightarrow> gget k m \<noteq> None)"

definition hasValue :: "requirement \<Rightarrow> string \<Rightarrow> bool" where
  "hasValue r v = (v \<in> set (req_values r))"

definition req_Matches :: "requirement \<Rightarrow> smap option \<Rightarrow> bool" where
  "req_Matches r ls =
     (let k = req_key r in
      case req_operator r of
        OpIn \<Rightarrow> Has ls k \<and> hasValue r (gget_str k ls)
      | OpEquals \<Rightarrow> Has ls k \<and> hasValue r (gget_str k ls)
      | OpDoubleEquals \<Rightarrow> Has ls k \<and> hasValue r (gget_str k ls)
      | OpNotIn \<Rightarrow> \<not> Has ls k \<or> \<not> hasValue r (gget_str k ls)
      | OpNotEquals \<Rightarrow> \<not> Has ls k \<or> \<not> hasValue r (gget_str k ls)
      | OpExists \<Rightarrow> Has ls k
      | OpDoesNotExist \<Rightarrow> \<not> Has ls k
      | OpGreaterThan \<Rightarrow> Has ls k \<and>
          (case (ParseInt64 (gget_str k ls), req_values r) of
             (Some l, [v]) \<Rightarrow> (case ParseInt64 v of Some n \<Rightarrow> l > n | None \<Rightarrow> False)
           | _ \<Rightarrow> False)
      | OpLessThan \<Rightarrow> Has ls k \<and>
          (case (ParseInt64 (gget_str k ls), req_values r) of
             (Some l, [v]) \<Rightarrow> (case ParseInt64 v of Some n \<Rightarrow> l < n | None \<Rightarrow> False)
           | _ \<Rightarrow> False))"

definition Matches :: "requirement list \<Rightarrow> smap option \<Rightarrow> bool" where
  "Matches rs ls = list_all (\<lambda>r. req_Matches r ls) rs"

fun op_text :: "operator \<Rightarrow> string" where
  "op_text OpEquals = ''=''"
| "op_text OpDoubleEquals = ''==''"
| "op_text OpNotEquals = ''!=''"
| "op_text OpIn = '' in ''"
| "op_text OpNotIn = '' notin ''"
| "op_text OpGreaterThan = ''>''"
| "op_text OpLessThan = ''<''"
| "op_text _ = []"

definition req_String :: "requirement \<Rightarrow> string" where
  "req_String r =
     (let oper = req_operator r; vals = Join (req_values r) '',''
      in (if oper = OpDoesNotExist then ''!'' else []) @ req_key r @ op_text oper @
         (if oper = OpExists \<or> oper = OpDoesNotExist then []
          else if oper = OpIn \<or> oper = OpNotIn then ''('' @ vals @ '')'' else vals))"

definition sel_String :: "requirement list \<Rightarrow> string" where
  "sel_String rs = Join (map req_String rs) '',''"

section \<open>The selectors this program builds\<close>

definition agent_id_key :: string where
  "agent_id_key = ''bosh.cloudfoundry.org/agent-id''"

definition disk_id_key :: string where
  "disk_id_key = ''bosh.cloudfoundry.org/disk-id''"

definition equals_req :: "string \<Rightarrow> string \<Rightarrow> requirement" where
  "equals_req k v = \<lparr>req_key = k, req_operator = OpEquals, req_values = [v]\<rparr>"

text \<open>A key as the lexer and the validator want it.\<close>

definition good_key :: "string \<Rightarrow> bool" where
  "good_key k = (k \<noteq> [] \<and> list_all id_char k \<and> gget k string2token = None \<and> IsQualifiedName k = [])"

lemma good_keys [simp]: "good_key agent_id_key" "good_key disk_id_key"
  by code_simp+

definition word_token :: "string \<Rightarrow> token" where
  "word_token s = (case gget s string2token of Some tok \<Rightarrow> tok | None \<Rightarrow> IdentifierToken)"

lemma id_char_not_special: "isSpecialSymbol c \<Longrightarrow> \<not> id_char c"
  by (simp add: id_char_def)

lemma as_value_word_token:
  assumes "list_all id_char s"
  shows "as_value (word_token s) = IdentifierToken"
proof (cases "gget s string2token")
  case None
  then show ?thesis by (simp add: word_token_def)
next
  case (Some tok)
  then have "(s, tok) \<in> set string2token"
    by (simp add: gget_def map_of_SomeD)
  moreover have "\<not> list_all id_char p" if "p \<in> {'')'', '','', ''!'', ''=='', ''='', ''>'', ''<'', ''!='', ''(''}" for p
    using that by (auto simp: id_char_def isSpecialSymbol_def)
  ultimately have "tok = InToken \<or> tok = NotInToken"
    using assms unfolding string2token_def by auto
  with Some show ?thesis by (auto simp: word_token_def)
qed

lemma takeWhile_prefix:
  "list_all P s \<Longrightarrow> rest = [] \<or> \<not> P (hd rest) \<Longrightarrow>
     takeWhile P (s @ rest) = s \<and> dropWhile P (s @ rest) = rest"
  by (induction s) (cases rest, auto)

lemma Lex_word:
  assumes "list_all id_char s" and "s \<noteq> []"
    and "rest = [] \<or> isSpecialSymbol (hd rest)"
  shows "Lex (s @ rest) = ((word_token s, s), rest)"
proof -
  obtain c cs where s: "s = c # cs"
    using assms(2) by (cases s) auto
  have c: "id_char c"
    using assms(1) s by simp
  have skip: "skip_nul rest = rest"
    using assms(3) by (cases rest) (auto simp: skip_nul_def is_nul_def isSpecialSymbol_def)
  have "dropWhile isWhitespace (s @ rest) = s @ rest"
    using c s by (simp add: id_char_def)
  moreover have "takeWhile id_char (s @ rest) = s \<and> dropWhile id_char (s @ rest) = rest"
    using assms(1,3) id_char_not_special by (intro takeWhile_prefix) auto
  ultimately show ?thesis
    using c s skip by (simp add: Lex_def scanIdOrKeyword_def word_token_def id_char_def Let_def)
qed

lemma Lex_equals:
  assumes "list_all id_char v"
  shows "Lex (CHR ''='' # v) = ((EqualsToken, ''=''), v)"
proof (cases v)
  case Nil
  then show ?thesis
    by (simp add: Lex_def scanSpecialSymbol_def isWhitespace_def is_nul_def isSpecialSymbol_def string2token_def)
next
  case (Cons c cs)
  with assms have "id_char c" by simp
  with Cons show ?thesis
    by (simp add: Lex_def scanSpecialSymbol_def isWhitespace_def is_nul_def isSpecialSymbol_def
        string2token_def id_char_def)
qed

lemma scan_equals:
  assumes k: "list_all id_char k" "k \<noteq> []" and v: "list_all id_char v"
  shows "scan (k @ CHR ''='' # v) =
     (word_token k, k) # (EqualsToken, ''='') #
       (if v = [] then [(EndOfStringToken, [])] else [(word_token v, v), (EndOfStringToken, [])])"
proof -
  have tok: "word_token s \<noteq> EndOfStringToken" if "list_all id_char s" for s
    using as_value_word_token [OF that] by auto
  have fin: "scan [] = [(EndOfStringToken, [])]"
    by (subst scan.simps) (simp add: Lex_def)
  have "scan v = (if v = [] then [(EndOfStringToken, [])] else [(word_token v, v), (EndOfStringToken, [])])"
    using Lex_word [OF v, of "[]"] tok [OF v] fin by (cases "v = []") (auto simp: scan.simps [of v])
  moreover have "scan (CHR ''='' # v) = (EqualsToken, ''='') # scan v"
    using Lex_equals [OF v] by (subst scan.simps) simp
  moreover have "scan (k @ CHR ''='' # v) = (word_token k, k) # scan (CHR ''='' # v)"
    using Lex_word [OF k, of "CHR ''='' # v"] tok [OF k(1)]
    by (subst scan.simps) (simp add: isSpecialSymbol_def)
  ultimately show ?thesis by simp
qed

lemma NewRequirement_equals:
  "IsQualifiedName k = [] \<Longrightarrow>
     NewRequirement k OpEquals [v] =
       (case validateLabelValue v of Ok _ \<Rightarrow> Ok (equals_req k v) | Err e \<Rightarrow> Err e | Panic p \<Rightarrow> Panic p)"
  by (simp add: NewRequirement_def validateLabelKey_def equals_req_def res_then_def split: res.splits)

lemma word_token_good: "good_key k \<Longrightarrow> word_token k = IdentifierToken"
  by (simp add: good_key_def word_token_def)

lemma Parse_equals:
  assumes "good_key k" and v: "list_all id_char v"
  shows "Parse (k @ CHR ''='' # v) =
     (if IsValidLabelValue v = [] then Ok [equals_req k v]
      else Err (PlainError (''unable to parse requirement: invalid label value: '' @ GoQuote v @ '': ''
             @ Join (IsValidLabelValue v) ''; '')))"
proof -
  have k: "list_all id_char k" "k \<noteq> []" "IsQualifiedName k = []" and wk: "word_token k = IdentifierToken"
    using assms(1) word_token_good by (auto simp: good_key_def)
  have wv: "as_value (word_token v) = IdentifierToken"
    by (rule as_value_word_token [OF v])
  show ?thesis
    using k wk wv
    by (auto simp: Parse_def scan_equals [OF k(1,2) v] look_def look_op_def parseRequirement_def
        parseKeyAndInferOperator_def validateLabelKey_def parseOperator_def parseExactValue_def
        NewRequirement_equals validateLabelValue_def)
qed

text \<open>A valid label value has no byte the lexer treats specially, so it is read back whole.\<close>

lemma valid_value_id_chars: "IsValidLabelValue v = [] \<Longrightarrow> list_all id_char v"
proof -
  assume "IsValidLabelValue v = []"
  then have "list_all is_qname_ext v"
    by (simp add: IsValidLabelValue_iff label_value_chars)
  moreover have "id_char c" if "is_qname_ext c" for c
    using that by (auto simp: is_qname_ext_def is_alnum_def is_upper_def is_lower_def is_digit_def
        id_char_def is_nul_def isSpecialSymbol_def isWhitespace_def)
  ultimately show ?thesis
    by (auto simp: list_all_iff)
qed

lemma Parse_equals_valid:
  "good_key k \<Longrightarrow> IsValidLabelValue v = [] \<Longrightarrow> Parse (k @ CHR ''='' # v) = Ok [equals_req k v]"
  by (simp add: Parse_equals valid_value_id_chars)

lemma Matches_equals [simp]:
  "Matches [equals_req k v] ls \<longleftrightarrow> (\<exists>m. ls = Some m \<and> gget k m = Some v)"
  by (auto simp: Matches_def req_Matches_def equals_req_def Has_def hasValue_def gget_str_def
      split: option.splits)

lemma sel_String_equals: "sel_String [equals_req k v] = k @ CHR ''='' # v"
  by (simp add: sel_String_def req_String_def equals_req_def)

text \<open>
  The selector for an id, as the actions build it: parse \<^verbatim>\<open>key=id\<close>, print the result.
\<close>

definition selector_for :: "string \<Rightarrow> string \<Rightarrow> string res" where
  "selector_for key ident =
     res_then (Parse (key @ ''='' @ ident)) (\<lambda>rs. Ok (sel_String rs))"

lemma selector_for_valid:
  "good_key k \<Longrightarrow> IsValidLabelValue v = [] \<Longrightarrow> selector_for k v = Ok (k @ CHR ''='' # v)"
  by (simp add: selector_for_def Parse_equals_valid sel_String_equals)

lemma selector_for_invalid:
  "good_key k \<Longrightarrow> list_all id_char v \<Longrightarrow> IsValidLabelValue v \<noteq> [] \<Longrightarrow> \<exists>e. selector_for k v = Err e"
  by (simp add: selector_for_def Parse_equals)

section \<open>Enough fuel\<close>

text \<open>Every round of the parser's loop consumes tokens, so its result does not depend on the fuel once
  there is more than the number of tokens.\<close>

lemma look_Nil [simp]: "look [] = (EndOfStringToken, [])"
  by (simp add: look_def look_op_def)

lemma parseIdentifiersList_shorter: "parseIdentifiersList s ts = Ok (vals, ts') \<Longrightarrow> length ts' \<le> length ts"
proof (induction s ts rule: parseIdentifiersList.induct)
  case (2 s t ts)
  then show ?case
    by (auto simp: Let_def found_def split: token.splits if_splits)
qed (simp add: found_def)

lemma parse_steps_shorter:
  "parseValues ts = Ok (vals, ts') \<Longrightarrow> length ts' \<le> length ts"
  "parseExactValue ts = Ok (vals, ts') \<Longrightarrow> length ts' \<le> length ts"
  "parseOperator ts = Ok (oper, ts') \<Longrightarrow> length ts' \<le> length ts"
  "parseKeyAndInferOperator ts = Ok (key, op', ts') \<Longrightarrow> length ts' \<le> length ts"
  by (auto simp: parseValues_def parseExactValue_def parseOperator_def parseKeyAndInferOperator_def found_def Let_def
      res_then_Ok dest!: parseIdentifiersList_shorter split: if_splits token.splits)

lemma parseRequirement_shorter: "parseRequirement ts = Ok (r, ts') \<Longrightarrow> length ts' \<le> length ts"
  by (auto simp: parseRequirement_def res_then_Ok dest!: parse_steps_shorter split: option.splits if_splits)

lemma parse_loop_fuel: "length ts < n \<Longrightarrow> parse_loop (Suc n) ts = parse_loop n ts"
proof (induction n ts rule: parse_loop.induct)
  case (2 n ts)
  have next_round: "parse_loop (Suc n) (drop 1 ts1) = parse_loop n (drop 1 ts1)"
    if "fst (look ts) = IdentifierToken \<or> fst (look ts) = DoesNotExistToken"
      and req: "parseRequirement ts = Ok (r, ts1)" and comma: "fst (look ts1) = CommaToken"
      and "fst (look (drop 1 ts1)) = IdentifierToken \<or> fst (look (drop 1 ts1)) = DoesNotExistToken" for r ts1
  proof -
    have "ts1 \<noteq> []" using comma by auto
    then have "length (drop 1 ts1) < n"
      using parseRequirement_shorter [OF req] 2(2) by (cases ts1) auto
    then show ?thesis
      using 2(1) [OF refl refl that(1) req refl refl refl refl] comma that(4) by auto
  qed
  show ?case
    unfolding parse_loop.simps(2) [of "Suc n" ts] parse_loop.simps(2) [of n ts]
    using next_round by (auto simp: Let_def split: res.split simp del: parse_loop.simps)
qed simp

lemma parse_loop_enough: "length ts < n \<Longrightarrow> n \<le> m \<Longrightarrow> parse_loop m ts = parse_loop n ts"
  by (induction m) (auto simp: parse_loop_fuel le_Suc_eq simp del: parse_loop.simps)

lemma Parse_fuel:
  "length (scan selector) < n \<Longrightarrow>
     Parse selector = res_then (parse_loop n (scan selector)) (\<lambda>rs. Ok (sort_key req_key rs))"
  using parse_loop_enough [of "scan selector" "Suc (length (scan selector))" n]
  by (simp add: Parse_def Let_def del: parse_loop.simps)

end
