(* ===== verification/KubeTypes.thy ===== *)
theory KubeTypes
  imports Settings Labels "HOL-Library.Word"
begin

text \<open>
  The API objects of the vendored client-go the program builds, reads and changes, with the
  fields it uses. A pointer or a map that may be nil is an option. A pod's remaining fields that
  the API server fills in stand in \<open>meta_UID\<close>, \<open>pod_Status\<close> and \<open>meta_ResourceVersion\<close>: the
  source copies or clears them as a whole. \<^verbatim>\<open>int32\<close> and \<^verbatim>\<open>int64\<close> are words read with
  \<^const>\<open>sint\<close>. Values of types the source only passes on (ingress backends and rules, resource
  quantities) are opaque.
\<close>

type_synonym int32 = "32 word"
type_synonym int64 = "64 word"
type_synonym Duration = int64 \<comment> \<open>nanoseconds\<close>

record ObjectMeta =
  meta_Name :: string
  meta_Namespace :: string
  meta_UID :: string
  meta_ResourceVersion :: string
  meta_Generation :: int64
  meta_Labels :: "smap option"
  meta_Annotations :: "smap option"

definition zero_ObjectMeta :: ObjectMeta where
  "zero_ObjectMeta = \<lparr>meta_Name = [], meta_Namespace = [], meta_UID = [], meta_ResourceVersion = [],
     meta_Generation = 0, meta_Labels = None, meta_Annotations = None\<rparr>"

section \<open>Quantities and resources\<close>

text \<open>A parsed resource quantity, opaque: what \<^verbatim>\<open>resource.ParseQuantity\<close> made of a text.\<close>

datatype quantity = Quantity string

record ResourceRequirements =
  rr_Limits :: "(string, quantity) gomap option"
  rr_Requests :: "(string, quantity) gomap option"

definition zero_ResourceRequirements :: ResourceRequirements where
  "zero_ResourceRequirements = \<lparr>rr_Limits = None, rr_Requests = None\<rparr>"

section \<open>Pods\<close>

record VolumeMount =
  vm_Name :: string
  vm_MountPath :: string
  vm_SubPath :: string

datatype VolumeSource =
    PersistentVolumeClaimSource string \<comment> \<open>the claim's name\<close>
  | ConfigMapSource string "(string \<times> string) list" \<comment> \<open>name, items (key, path)\<close>
  | EmptyDirSource
  | OtherSource string

record Volume =
  vol_Name :: string
  vol_Source :: VolumeSource

record Container =
  ct_Name :: string
  ct_Image :: string
  ct_ImagePullPolicy :: string
  ct_Command :: "string list"
  ct_Args :: "string list"
  ct_Resources :: ResourceRequirements
  ct_Privileged :: "bool option"
  ct_RunAsUser :: "int64 option"
  ct_VolumeMounts :: "VolumeMount list"

record PodSpec =
  ps_Hostname :: string
  ps_Containers :: "Container list"
  ps_Volumes :: "Volume list"

record ContainerStatus =
  cs_Name :: string
  cs_Ready :: bool
  cs_Running :: bool \<comment> \<open>\<^verbatim>\<open>State.Running != nil\<close>\<close>

record PodStatus =
  pst_Phase :: string
  pst_PodIP :: string
  pst_ContainerStatuses :: "ContainerStatus list"

definition zero_PodStatus :: PodStatus where
  "zero_PodStatus = \<lparr>pst_Phase = [], pst_PodIP = [], pst_ContainerStatuses = []\<rparr>"

record Pod =
  pod_Meta :: ObjectMeta
  pod_Spec :: PodSpec
  pod_Status :: PodStatus

definition PodRunning :: string where "PodRunning = ''Running''"

section \<open>Config maps, secrets, namespaces, claims\<close>

record ConfigMap =
  cm_Meta :: ObjectMeta
  cm_Data :: smap

record KubeSecret =
  sec_Meta :: ObjectMeta
  sec_Data :: "(string, string) gomap"
  sec_StringData :: "smap option"
  sec_Type :: string

record KubeNamespace =
  ns_Meta :: ObjectMeta

record PersistentVolumeClaim =
  pvc_Meta :: ObjectMeta
  pvc_AccessModes :: "string list"
  pvc_Requests :: "(string, quantity) gomap"
  pvc_Phase :: string

definition ClaimBound :: string where "ClaimBound = ''Bound''"

section \<open>Services and ingresses\<close>

datatype IntOrString = IntVal int32 | StrVal string

text \<open>\<^verbatim>\<open>intstr.FromInt\<close> converts an \<^verbatim>\<open>int\<close> to \<^verbatim>\<open>int32\<close>, dropping the high bits.\<close>

definition FromInt :: "int64 \<Rightarrow> IntOrString" where
  "FromInt v = IntVal (ucast v)"

record ServicePort =
  sp_Name :: string
  sp_Protocol :: string
  sp_Port :: int32
  sp_NodePort :: int32
  sp_TargetPort :: IntOrString

record KubeService =
  svc_Meta :: ObjectMeta
  svc_Type :: string
  svc_ClusterIP :: string
  svc_Ports :: "ServicePort list"
  svc_ExternalIPs :: "string list option"
  svc_LoadBalancerIP :: string
  svc_Selector :: "smap option"

record Ingress =
  ing_Meta :: ObjectMeta
  ing_Backend :: "json option"
  ing_TLS :: "json list"
  ing_Rules :: "json list"

section \<open>Deployments\<close>

record Deployment =
  dep_Meta :: ObjectMeta
  dep_Replicas :: "int32 option"
  dep_TemplateLabels :: "smap option"
  dep_Template :: PodSpec
  dep_ProgressDeadlineSeconds :: "int32 option"
  dep_ObservedGeneration :: int64
  dep_AvailableReplicas :: int32

section \<open>Requests and watch events\<close>

record ListOptions =
  lo_LabelSelector :: string
  lo_ResourceVersion :: string
  lo_Watch :: bool

definition by_selector :: "string \<Rightarrow> ListOptions" where
  "by_selector sel = \<lparr>lo_LabelSelector = sel, lo_ResourceVersion = [], lo_Watch = False\<rparr>"

record DeleteOptions =
  do_GracePeriodSeconds :: "int64 option"

text \<open>An event's object is of the watched type or of another one (a status, say).\<close>

datatype 'o event_object = Obj 'o | OtherObject string

record 'o event =
  ev_Type :: string
  ev_Object :: "'o event_object"

definition Modified :: string where "Modified = ''MODIFIED''"

text \<open>The two-way merge patch of \<^verbatim>\<open>set_vm_metadata\<close>: only labels differ, so the patch is the label
  entries to set (\<open>Some\<close>) or to remove (\<open>None\<close>).\<close>

type_synonym label_patch = "(string \<times> string option) list"

text \<open>A target port is kept exactly when it fits 32 bits.\<close>

lemma FromInt_exact: "(\<exists>w. FromInt i = IntVal w \<and> sint w = sint i) \<longleftrightarrow> - (2 ^ 31) \<le> sint i \<and> sint i < 2 ^ 31"
proof -
  have "sint (ucast i :: int32) = signed_take_bit 31 (sint i)"
    by (simp add: sint_uint signed_take_bit_take_bit take_bit_word_eq_self unsigned_ucast_eq)
  then show ?thesis
    by (simp add: FromInt_def signed_take_bit_int_eq_self_iff)
qed

end
