(* ===== verification/Client.thy ===== *)
theory Client
  imports KubeTypes
begin

text \<open>
  The cluster as the actions see it: \<^verbatim>\<open>kubecluster/client.go\<close> over the typed interfaces of
  client-go. What an API call does is not code of this repository, so an interface is a record
  of operations, a parameter of every action; \<open>'s\<close> is whatever the operations act on. The
  locale \<open>resource\<close> states the documented behaviour the proofs use, for one kind of object in
  one namespace; \<open>kube_api\<close> collects it for a client.
\<close>

section \<open>Interfaces\<close>

record ('s, 'o) iface =
  if_Create :: "'o \<Rightarrow> ('s, 'o) act"
  if_Update :: "'o \<Rightarrow> ('s, 'o) act"
  if_Delete :: "string \<Rightarrow> DeleteOptions \<Rightarrow> ('s, unit) act"
  if_Get :: "string \<Rightarrow> ('s, 'o) act"
  if_List :: "ListOptions \<Rightarrow> ('s, 'o list) act"
  if_Watch :: "ListOptions \<Rightarrow> ('s, (int \<times> 'o event) list) act"
  if_Patch :: "string \<Rightarrow> label_patch \<Rightarrow> ('s, 'o) act"

text \<open>
  \<open>if_Watch\<close> yields what the channel delivers from then on: each event with the nanoseconds that have
  passed on the caller's timer when it arrives, in the order of arrival.
\<close>

record 's clientset =
  core_ConfigMaps :: "string \<Rightarrow> ('s, ConfigMap) iface"
  core_PersistentVolumeClaims :: "string \<Rightarrow> ('s, PersistentVolumeClaim) iface"
  core_Pods :: "string \<Rightarrow> ('s, Pod) iface"
  core_Services :: "string \<Rightarrow> ('s, KubeService) iface"
  core_Secrets :: "string \<Rightarrow> ('s, KubeSecret) iface"
  core_Namespaces :: "('s, KubeNamespace) iface"
  ext_Deployments :: "string \<Rightarrow> ('s, Deployment) iface"
  ext_Ingresses :: "string \<Rightarrow> ('s, Ingress) iface"

record 's client =
  cl_context :: string
  cl_namespace :: string
  cl_Clientset :: "'s clientset"

definition Context :: "'s client \<Rightarrow> string" where
  "Context c = cl_context c"

definition Namespace :: "'s client \<Rightarrow> string" where
  "Namespace c = cl_namespace c"

definition ConfigMaps :: "'s client \<Rightarrow> ('s, ConfigMap) iface" where
  "ConfigMaps c = core_ConfigMaps (cl_Clientset c) (cl_namespace c)"

definition PersistentVolumeClaims :: "'s client \<Rightarrow> ('s, PersistentVolumeClaim) iface" where
  "PersistentVolumeClaims c = core_PersistentVolumeClaims (cl_Clientset c) (cl_namespace c)"

definition Pods :: "'s client \<Rightarrow> ('s, Pod) iface" where
  "Pods c = core_Pods (cl_Clientset c) (cl_namespace c)"

definition Deployments :: "'s client \<Rightarrow> ('s, Deployment) iface" where
  "Deployments c = ext_Deployments (cl_Clientset c) (cl_namespace c)"

definition Services :: "'s client \<Rightarrow> ('s, KubeService) iface" where
  "Services c = core_Services (cl_Clientset c) (cl_namespace c)"

definition IngressService :: "'s client \<Rightarrow> ('s, Ingress) iface" where
  "IngressService c = ext_Ingresses (cl_Clientset c) (cl_namespace c)"

text \<open>\<^verbatim>\<open>Core().Secrets(ns)\<close> and \<^verbatim>\<open>Core().Namespaces()\<close>, reached through \<^verbatim>\<open>Core()\<close>.\<close>

definition Secrets :: "'s client \<Rightarrow> string \<Rightarrow> ('s, KubeSecret) iface" where
  "Secrets c = core_Secrets (cl_Clientset c)"

definition Namespaces :: "'s client \<Rightarrow> ('s, KubeNamespace) iface" where
  "Namespaces c = core_Namespaces (cl_Clientset c)"

text \<open>A \<^verbatim>\<open>kubecluster.ClientProvider\<close>.\<close>

type_synonym 's provider = "string \<Rightarrow> 's client res"

definition int64Ptr :: "int64 \<Rightarrow> int64 option" where
  "int64Ptr i = Some i"

definition now :: DeleteOptions where
  "now = \<lparr>do_GracePeriodSeconds = int64Ptr 0\<rparr>"

section \<open>The contract of one resource\<close>

text \<open>
  \<open>view s\<close> is what is stored of the resource in the namespace \<open>nsp\<close>, by name; \<open>rest s\<close> is
  everything else. A call that returns an error has changed nothing; one that returns a value has
  done what the API documents, and only to its own resource. Objects are created and updated
  under a non-empty name and in the client's own namespace, and what is stored has the requested
  \<open>content\<close>: its labels, a config map's data and a pod's claims (the server fills in or defaults other fields, a
  deployment's labels among them). \<open>inv\<close> is the well-formedness of the
  store, which every call keeps.
\<close>

locale resource =
  fixes ifc :: "('s, 'o) iface"
    and meta :: "'o \<Rightarrow> ObjectMeta"
    and nsp :: string
    and inv :: "'s \<Rightarrow> bool"
    and view :: "'s \<Rightarrow> string \<Rightarrow> 'o option"
    and rest :: "'s \<Rightarrow> 'r"
    and content :: "'o \<Rightarrow> 'd"
  assumes view_key: "inv s \<Longrightarrow> view s n = Some ob \<Longrightarrow> meta_Name (meta ob) = n \<and> meta_Namespace (meta ob) = nsp"
    and inv_Create: "inv s \<Longrightarrow> if_Create ifc ob s = (r, s') \<Longrightarrow> inv s'"
    and inv_Update: "inv s \<Longrightarrow> if_Update ifc ob s = (r, s') \<Longrightarrow> inv s'"
    and inv_Delete: "inv s \<Longrightarrow> if_Delete ifc n d s = (r', s') \<Longrightarrow> inv s'"
    and inv_Patch: "inv s \<Longrightarrow> if_Patch ifc n p s = (r, s') \<Longrightarrow> inv s'"
    and Get_state: "if_Get ifc n s = (r, s') \<Longrightarrow> s' = s"
    and List_state: "if_List ifc lo s = (rl, s') \<Longrightarrow> s' = s"
    and Watch_state: "if_Watch ifc lo s = (rw, s') \<Longrightarrow> s' = s"
    and Get_Ok: "inv s \<Longrightarrow> n \<noteq> [] \<Longrightarrow> if_Get ifc n s = (Ok ob, s') \<Longrightarrow> view s n = Some ob"
    and Get_not_found: "inv s \<Longrightarrow> n \<noteq> [] \<Longrightarrow> if_Get ifc n s = (Err e, s') \<Longrightarrow> has_code 404 e \<Longrightarrow>
      view s n = None"
    and Create_Ok: "inv s \<Longrightarrow> meta_Name (meta ob) \<noteq> [] \<Longrightarrow> meta_Namespace (meta ob) = nsp \<Longrightarrow>
      if_Create ifc ob s = (Ok ob', s') \<Longrightarrow>
      view s (meta_Name (meta ob)) = None \<and> view s' = (view s)(meta_Name (meta ob) \<mapsto> ob') \<and> rest s' = rest s \<and>
      content ob' = content ob"
    and Update_Ok: "inv s \<Longrightarrow> meta_Name (meta ob) \<noteq> [] \<Longrightarrow> meta_Namespace (meta ob) = nsp \<Longrightarrow>
      if_Update ifc ob s = (Ok ob', s') \<Longrightarrow>
      view s (meta_Name (meta ob)) \<noteq> None \<and> view s' = (view s)(meta_Name (meta ob) \<mapsto> ob') \<and> rest s' = rest s \<and>
      content ob' = content ob"
    and Delete_Ok: "inv s \<Longrightarrow> if_Delete ifc n d s = (Ok u, s') \<Longrightarrow>
      view s n \<noteq> None \<and> view s' = (view s)(n := None) \<and> rest s' = rest s"
    and Delete_not_found: "inv s \<Longrightarrow> if_Delete ifc n d s = (Err e, s') \<Longrightarrow>
      has_reason StatusReasonNotFound e \<Longrightarrow> view s n = None"
    and List_Ok: "inv s \<Longrightarrow> if_List ifc lo s = (Ok obs, s') \<Longrightarrow> Parse (lo_LabelSelector lo) = Ok rs \<Longrightarrow>
      set obs = {ob. view s (meta_Name (meta ob)) = Some ob \<and> Matches rs (meta_Labels (meta ob))}"
    and Create_Err: "inv s \<Longrightarrow> meta_Name (meta ob) \<noteq> [] \<Longrightarrow> meta_Namespace (meta ob) = nsp \<Longrightarrow>
      if_Create ifc ob s = (Err e, s') \<Longrightarrow> view s' = view s \<and> rest s' = rest s"
    and Update_Err: "inv s \<Longrightarrow> meta_Name (meta ob) \<noteq> [] \<Longrightarrow> meta_Namespace (meta ob) = nsp \<Longrightarrow>
      if_Update ifc ob s = (Err e, s') \<Longrightarrow> view s' = view s \<and> rest s' = rest s"
    and Delete_Err: "inv s \<Longrightarrow> if_Delete ifc n d s = (Err e, s') \<Longrightarrow> view s' = view s \<and> rest s' = rest s"
    and no_panic: "if_Create ifc ob s \<noteq> (Panic q, s')" "if_Update ifc ob s \<noteq> (Panic q, s')"
      "if_Delete ifc n d s \<noteq> (Panic q, s')" "if_Get ifc n s \<noteq> (Panic q, s')"
      "if_Watch ifc lo s \<noteq> (Panic q, s')" "if_Patch ifc n p s \<noteq> (Panic q, s')"
begin

lemma rest_Create:
  "inv s \<Longrightarrow> meta_Name (meta ob) \<noteq> [] \<Longrightarrow> meta_Namespace (meta ob) = nsp \<Longrightarrow>
     if_Create ifc ob s = (r, s') \<Longrightarrow> rest s' = rest s"
  using Create_Ok [of s ob] Create_Err [of s ob] no_panic(1) by (cases r) blast+

lemma rest_Update:
  "inv s \<Longrightarrow> meta_Name (meta ob) \<noteq> [] \<Longrightarrow> meta_Namespace (meta ob) = nsp \<Longrightarrow>
     if_Update ifc ob s = (r, s') \<Longrightarrow> rest s' = rest s"
  using Update_Ok [of s ob] Update_Err [of s ob] no_panic(2) by (cases r) blast+

lemma rest_Delete: "inv s \<Longrightarrow> if_Delete ifc n d s = (r, s') \<Longrightarrow> rest s' = rest s"
  using Delete_Ok Delete_Err no_panic(3) by (cases r) blast+

text \<open>A call keeps every observation of what lies outside its resource.\<close>

lemma keeps_Delete:
  "(\<And>s s'. rest s' = rest s \<Longrightarrow> F s' = F s) \<Longrightarrow> keeps (\<lambda>s. inv s \<and> F s = w) (if_Delete ifc n d)"
  by (rule keepsI) (metis inv_Delete rest_Delete)

lemma keeps_Create:
  "(\<And>s s'. rest s' = rest s \<Longrightarrow> F s' = F s) \<Longrightarrow> meta_Name (meta ob) \<noteq> [] \<Longrightarrow> meta_Namespace (meta ob) = nsp \<Longrightarrow>
     keeps (\<lambda>s. inv s \<and> F s = w) (if_Create ifc ob)"
  by (rule keepsI) (metis inv_Create rest_Create)

lemma keeps_Update:
  "(\<And>s s'. rest s' = rest s \<Longrightarrow> F s' = F s) \<Longrightarrow> meta_Name (meta ob) \<noteq> [] \<Longrightarrow> meta_Namespace (meta ob) = nsp \<Longrightarrow>
     keeps (\<lambda>s. inv s \<and> F s = w) (if_Update ifc ob)"
  by (rule keepsI) (metis inv_Update rest_Update)

text \<open>Creating only adds.\<close>

lemma keeps_Create_grow:
  assumes G: "\<And>s s'. rest s' = rest s \<Longrightarrow> view s \<subseteq>\<^sub>m view s' \<Longrightarrow> G s \<Longrightarrow> G s'"
    and key: "meta_Name (meta ob) \<noteq> []" "meta_Namespace (meta ob) = nsp"
  shows "keeps (\<lambda>s. inv s \<and> G s) (if_Create ifc ob)"
proof (rule keepsI, elim conjE, intro conjI)
  fix s r s' assume i: "inv s" and g: "G s" and cr: "if_Create ifc ob s = (r, s')"
  show "inv s'" using i cr by (rule inv_Create)
  show "G s'"
  proof (cases r)
    case (Ok ob')
    then show ?thesis
      using Create_Ok [OF i key, of ob' s'] cr g by (intro G [of s' s]) (auto simp: map_le_def)
  next
    case (Err e)
    then show ?thesis
      using Create_Err [OF i key, of e s'] cr g by (intro G [of s' s]) auto
  next
    case (Panic p)
    with cr no_panic(1) show ?thesis by simp
  qed
qed

lemma keeps_read:
  "keeps Q (if_Get ifc n)" "keeps Q (if_List ifc lo)" "keeps Q (if_Watch ifc lo)"
  using Get_state List_state Watch_state by (blast intro: keepsI)+

text \<open>A lookup after a successful write sees what was written.\<close>

lemma Get_after_Create:
  assumes "inv s" and "meta_Name (meta ob) \<noteq> []" and "meta_Namespace (meta ob) = nsp"
    and "if_Create ifc ob s = (Ok ob', s')" and "if_Get ifc (meta_Name (meta ob)) s' = (Ok got, s'')"
  shows "got = ob'"
  using Create_Ok [OF assms(1-4)] Get_Ok [OF inv_Create [OF assms(1,4)] assms(2,5)] by simp

text \<open>Deleting with "not found" taken as success leaves the name unused.\<close>

lemma delete_absent:
  assumes "inv s" and "if_Delete ifc n d s = (r, s')"
    and "r = Ok u \<or> (\<exists>e. r = Err e \<and> has_reason StatusReasonNotFound e)"
  shows "view s' = (view s)(n := None)"
  using assms Delete_Ok [OF assms(1)] Delete_not_found [OF assms(1)] Delete_Err [OF assms(1)]
  by (auto simp: fun_upd_idem)

end

section \<open>The contract of a client\<close>

record cluster =
  vw_ConfigMaps :: "string \<Rightarrow> ConfigMap option"
  vw_PVCs :: "string \<Rightarrow> PersistentVolumeClaim option"
  vw_Pods :: "string \<Rightarrow> Pod option"
  vw_Services :: "string \<Rightarrow> KubeService option"
  vw_Secrets :: "string \<Rightarrow> KubeSecret option"
  vw_Deployments :: "string \<Rightarrow> Deployment option"
  vw_Ingresses :: "string \<Rightarrow> Ingress option"
  vw_Namespaces :: "string \<Rightarrow> KubeNamespace option"

text \<open>The volumes of a pod that are claims: the server keeps them, in their order, whatever other volumes
  it adds.\<close>

fun is_claim_source :: "VolumeSource \<Rightarrow> bool" where
  "is_claim_source (PersistentVolumeClaimSource n) = True"
| "is_claim_source _ = False"

definition claim_volumes :: "PodSpec \<Rightarrow> Volume list" where
  "claim_volumes spec = filter (\<lambda>vol. is_claim_source (vol_Source vol)) (ps_Volumes spec)"

text \<open>A client of a lawful API: every resource keeps its contract, and the view of the cluster is
  the record of the resources' views, so a call on one resource leaves the others as they were.\<close>

locale kube_api =
  cms: resource "ConfigMaps c" cm_Meta "cl_namespace c" inv "\<lambda>s. vw_ConfigMaps (v s)"
    "\<lambda>s. (v s)\<lparr>vw_ConfigMaps := Map.empty\<rparr>" "\<lambda>ob. (meta_Labels (cm_Meta ob), cm_Data ob)" +
  pvcs: resource "PersistentVolumeClaims c" pvc_Meta "cl_namespace c" inv "\<lambda>s. vw_PVCs (v s)"
    "\<lambda>s. (v s)\<lparr>vw_PVCs := Map.empty\<rparr>" "\<lambda>ob. meta_Labels (pvc_Meta ob)" +
  pods: resource "Pods c" pod_Meta "cl_namespace c" inv "\<lambda>s. vw_Pods (v s)"
    "\<lambda>s. (v s)\<lparr>vw_Pods := Map.empty\<rparr>" "\<lambda>ob. (meta_Labels (pod_Meta ob), claim_volumes (pod_Spec ob))" +
  svcs: resource "Services c" svc_Meta "cl_namespace c" inv "\<lambda>s. vw_Services (v s)"
    "\<lambda>s. (v s)\<lparr>vw_Services := Map.empty\<rparr>" "\<lambda>ob. meta_Labels (svc_Meta ob)" +
  secs: resource "Secrets c (cl_namespace c)" sec_Meta "cl_namespace c" inv "\<lambda>s. vw_Secrets (v s)"
    "\<lambda>s. (v s)\<lparr>vw_Secrets := Map.empty\<rparr>" "\<lambda>ob. meta_Labels (sec_Meta ob)" +
  deps: resource "Deployments c" dep_Meta "cl_namespace c" inv "\<lambda>s. vw_Deployments (v s)"
    "\<lambda>s. (v s)\<lparr>vw_Deployments := Map.empty\<rparr>" "\<lambda>_. ()" +
  ings: resource "IngressService c" ing_Meta "cl_namespace c" inv "\<lambda>s. vw_Ingresses (v s)"
    "\<lambda>s. (v s)\<lparr>vw_Ingresses := Map.empty\<rparr>" "\<lambda>ob. meta_Labels (ing_Meta ob)" +
  nss: resource "Namespaces c" ns_Meta "[]" inv "\<lambda>s. vw_Namespaces (v s)"
    "\<lambda>s. (v s)\<lparr>vw_Namespaces := Map.empty\<rparr>" "\<lambda>ob. meta_Labels (ns_Meta ob)"
  for c :: "'s client" and inv :: "'s \<Rightarrow> bool" and v :: "'s \<Rightarrow> cluster"

lemma cluster_rest_eq:
  "(a::cluster)\<lparr>vw_ConfigMaps := Map.empty\<rparr> = b\<lparr>vw_ConfigMaps := Map.empty\<rparr> \<longleftrightarrow>
     a = b\<lparr>vw_ConfigMaps := vw_ConfigMaps a\<rparr>"
  "a\<lparr>vw_PVCs := Map.empty\<rparr> = b\<lparr>vw_PVCs := Map.empty\<rparr> \<longleftrightarrow> a = b\<lparr>vw_PVCs := vw_PVCs a\<rparr>"
  "a\<lparr>vw_Pods := Map.empty\<rparr> = b\<lparr>vw_Pods := Map.empty\<rparr> \<longleftrightarrow> a = b\<lparr>vw_Pods := vw_Pods a\<rparr>"
  "a\<lparr>vw_Services := Map.empty\<rparr> = b\<lparr>vw_Services := Map.empty\<rparr> \<longleftrightarrow> a = b\<lparr>vw_Services := vw_Services a\<rparr>"
  "a\<lparr>vw_Secrets := Map.empty\<rparr> = b\<lparr>vw_Secrets := Map.empty\<rparr> \<longleftrightarrow> a = b\<lparr>vw_Secrets := vw_Secrets a\<rparr>"
  "a\<lparr>vw_Deployments := Map.empty\<rparr> = b\<lparr>vw_Deployments := Map.empty\<rparr> \<longleftrightarrow>
     a = b\<lparr>vw_Deployments := vw_Deployments a\<rparr>"
  "a\<lparr>vw_Ingresses := Map.empty\<rparr> = b\<lparr>vw_Ingresses := Map.empty\<rparr> \<longleftrightarrow> a = b\<lparr>vw_Ingresses := vw_Ingresses a\<rparr>"
  "a\<lparr>vw_Namespaces := Map.empty\<rparr> = b\<lparr>vw_Namespaces := Map.empty\<rparr> \<longleftrightarrow>
     a = b\<lparr>vw_Namespaces := vw_Namespaces a\<rparr>"
  by (cases a; cases b; auto)+

section \<open>A provider with a lawful client\<close>

text \<open>What an action relies on: the provider makes the client \<open>c\<close> for the context \<open>ctx\<close>, whose name
  has no colon, and the client's API is lawful in a namespace with a name.\<close>

locale provided_api = kube_api c inv v
  for c :: "'s client" and inv :: "'s \<Rightarrow> bool" and v :: "'s \<Rightarrow> cluster" +
  fixes P :: "'s provider" and ctx :: string
  assumes New: "P ctx = Ok c"
    and Context_eq: "Context c = ctx"
    and namespace_named: "cl_namespace c \<noteq> []"
    and ctx_no_colon: "CHR '':'' \<notin> set ctx"

section \<open>Growth\<close>

text \<open>Every object of the one cluster is in the other.\<close>

definition cluster_le :: "cluster \<Rightarrow> cluster \<Rightarrow> bool" where
  "cluster_le w w' \<longleftrightarrow>
     vw_ConfigMaps w \<subseteq>\<^sub>m vw_ConfigMaps w' \<and> vw_PVCs w = vw_PVCs w' \<and> vw_Pods w \<subseteq>\<^sub>m vw_Pods w' \<and>
     vw_Services w \<subseteq>\<^sub>m vw_Services w' \<and> vw_Secrets w \<subseteq>\<^sub>m vw_Secrets w' \<and>
     vw_Deployments w \<subseteq>\<^sub>m vw_Deployments w' \<and> vw_Ingresses w \<subseteq>\<^sub>m vw_Ingresses w' \<and>
     vw_Namespaces w \<subseteq>\<^sub>m vw_Namespaces w'"

lemma cluster_le_refl [simp]: "cluster_le w w"
  by (simp add: cluster_le_def)

lemma cluster_le_step:
  assumes "cluster_le w a"
  shows "b\<lparr>vw_ConfigMaps := Map.empty\<rparr> = a\<lparr>vw_ConfigMaps := Map.empty\<rparr> \<Longrightarrow> vw_ConfigMaps a \<subseteq>\<^sub>m vw_ConfigMaps b \<Longrightarrow> cluster_le w b"
    and "b\<lparr>vw_Pods := Map.empty\<rparr> = a\<lparr>vw_Pods := Map.empty\<rparr> \<Longrightarrow> vw_Pods a \<subseteq>\<^sub>m vw_Pods b \<Longrightarrow> cluster_le w b"
    and "b\<lparr>vw_Services := Map.empty\<rparr> = a\<lparr>vw_Services := Map.empty\<rparr> \<Longrightarrow> vw_Services a \<subseteq>\<^sub>m vw_Services b \<Longrightarrow> cluster_le w b"
    and "b\<lparr>vw_Secrets := Map.empty\<rparr> = a\<lparr>vw_Secrets := Map.empty\<rparr> \<Longrightarrow> vw_Secrets a \<subseteq>\<^sub>m vw_Secrets b \<Longrightarrow> cluster_le w b"
    and "b\<lparr>vw_Deployments := Map.empty\<rparr> = a\<lparr>vw_Deployments := Map.empty\<rparr> \<Longrightarrow> vw_Deployments a \<subseteq>\<^sub>m vw_Deployments b \<Longrightarrow> cluster_le w b"
    and "b\<lparr>vw_Ingresses := Map.empty\<rparr> = a\<lparr>vw_Ingresses := Map.empty\<rparr> \<Longrightarrow> vw_Ingresses a \<subseteq>\<^sub>m vw_Ingresses b \<Longrightarrow> cluster_le w b"
    and "b\<lparr>vw_Namespaces := Map.empty\<rparr> = a\<lparr>vw_Namespaces := Map.empty\<rparr> \<Longrightarrow> vw_Namespaces a \<subseteq>\<^sub>m vw_Namespaces b \<Longrightarrow> cluster_le w b"
  using assms by (cases a; cases b; auto simp: cluster_le_def intro: map_le_trans)+

section \<open>What an agent reads\<close>

text \<open>The settings in the config map of an agent. \<open>None\<close> when there is no config map or it holds no
  settings.\<close>

definition vm_settings :: "cluster \<Rightarrow> string \<Rightarrow> Settings option" where
  "vm_settings w agentID =
     (case vw_ConfigMaps w (''agent-'' @ agentID) of
        None \<Rightarrow> None
      | Some cm \<Rightarrow>
          (case unmarshal_Settings (gget_str ''instance_settings'' (Some (cm_Data cm))) of
             Ok st \<Rightarrow> Some st | _ \<Rightarrow> None))"

end
