(* ===== verification/CID.thy ===== *)
theory CID
  imports Client
begin

text \<open>
  The identifiers the director sees (\<^verbatim>\<open>actions/util.go\<close>): a VM or disk CID is the cluster context
  and the object's id joined by a colon. Parsing splits at the first colon; a CID without one makes
  the index \<^verbatim>\<open>parts[1]\<close> panic.
\<close>

type_synonym VMCID = string

type_synonym DiskCID = string

definition NewVMCID :: "string \<Rightarrow> string \<Rightarrow> VMCID" where
  "NewVMCID context agentID = context @ '':'' @ agentID"

definition NewDiskCID :: "string \<Rightarrow> string \<Rightarrow> DiskCID" where
  "NewDiskCID context diskID = context @ '':'' @ diskID"

definition index_panic :: string where
  "index_panic = ''runtime error: index out of range''"

definition ParseVMCID :: "VMCID \<Rightarrow> (string \<times> string) res" where
  "ParseVMCID vmcid =
     (case SplitN2 vmcid CHR '':'' of
        context # agentID # _ \<Rightarrow> Ok (context, agentID)
      | _ \<Rightarrow> Panic index_panic)"

definition ParseDiskCID :: "DiskCID \<Rightarrow> (string \<times> string) res" where
  "ParseDiskCID diskCID =
     (case SplitN2 diskCID CHR '':'' of
        context # diskID # _ \<Rightarrow> Ok (context, diskID)
      | _ \<Rightarrow> Panic index_panic)"

text \<open>\<^verbatim>\<open>CreateGUID\<close> over the random source \<^verbatim>\<open>uuid.NewV4\<close>: an error of the source is dropped and
  the empty string returned.\<close>

definition CreateGUID :: "('s, string) act \<Rightarrow> ('s, string) act" where
  "CreateGUID NewV4 = catch NewV4 (\<lambda>guid. ret guid) (\<lambda>e. ret [])"

lemma SplitN2_cases:
  "SplitN2 s c = (if c \<in> set s then [takeWhile (\<lambda>x. x \<noteq> c) s, tl (dropWhile (\<lambda>x. x \<noteq> c) s)] else [s])"
proof (cases "c \<in> set s")
  case True
  then have "s = takeWhile (\<lambda>x. x \<noteq> c) s @ c # tl (dropWhile (\<lambda>x. x \<noteq> c) s)"
    by (induction s) auto
  moreover have "c \<notin> set (takeWhile (\<lambda>x. x \<noteq> c) s)"
    using set_takeWhileD by fastforce
  ultimately show ?thesis
    using True SplitN2_sep by metis
qed (simp add: SplitN2_absent)

lemma Parse_New_VMCID: "CHR '':'' \<notin> set context \<Longrightarrow> ParseVMCID (NewVMCID context agentID) = Ok (context, agentID)"
  by (simp add: ParseVMCID_def NewVMCID_def SplitN2_sep)

lemma Parse_New_DiskCID: "CHR '':'' \<notin> set context \<Longrightarrow> ParseDiskCID (NewDiskCID context diskID) = Ok (context, diskID)"
  by (simp add: ParseDiskCID_def NewDiskCID_def SplitN2_sep)

text \<open>A parse that returns can be put together again, and its context has no colon.\<close>

lemma ParseVMCID_Ok_iff:
  "ParseVMCID cid = Ok (context, agentID) \<longleftrightarrow> cid = NewVMCID context agentID \<and> CHR '':'' \<notin> set context"
proof
  assume p: "ParseVMCID cid = Ok (context, agentID)"
  show "cid = NewVMCID context agentID \<and> CHR '':'' \<notin> set context"
  proof (cases "split_at CHR '':'' cid")
    case None
    with p show ?thesis by (simp add: ParseVMCID_def SplitN2_def)
  next
    case (Some ab)
    with p show ?thesis
      using split_at_SomeD by (cases ab) (auto simp: ParseVMCID_def SplitN2_def NewVMCID_def)
  qed
next
  assume "cid = NewVMCID context agentID \<and> CHR '':'' \<notin> set context"
  then show "ParseVMCID cid = Ok (context, agentID)" by (simp add: Parse_New_VMCID)
qed

lemma ParseDiskCID_eq: "ParseDiskCID = ParseVMCID"
  by (rule ext) (simp add: ParseDiskCID_def ParseVMCID_def)

lemma ParseDiskCID_Ok_iff:
  "ParseDiskCID cid = Ok (context, diskID) \<longleftrightarrow> cid = NewDiskCID context diskID \<and> CHR '':'' \<notin> set context"
  unfolding ParseDiskCID_eq ParseVMCID_Ok_iff NewVMCID_def NewDiskCID_def ..

lemma ParseVMCID_Panic_iff: "(\<exists>p. ParseVMCID cid = Panic p) \<longleftrightarrow> CHR '':'' \<notin> set cid"
  by (simp add: ParseVMCID_def SplitN2_cases)

lemma ParseVMCID_not_Err: "ParseVMCID cid \<noteq> Err e"
  by (simp add: ParseVMCID_def split: list.splits)

text \<open>A context with a colon does not survive: the id comes back longer.\<close>

lemma Parse_New_VMCID_colon:
  "CHR '':'' \<notin> set a \<Longrightarrow> ParseVMCID (NewVMCID (a @ '':'' @ b) agentID) = Ok (a, b @ '':'' @ agentID)"
  by (simp add: ParseVMCID_def NewVMCID_def SplitN2_sep)

end
