(* ===== verification/Tracker.thy ===== *)
theory Tracker
  imports Client
begin

text \<open>
  The fake cluster the unit tests run against: \<^verbatim>\<open>kubecluster/fakes/client.go\<close> over client-go's
  \<^verbatim>\<open>fake.Clientset\<close>, whose calls end in the object tracker of \<^verbatim>\<open>testing/fixture.go\<close>. The tracker
  keeps a list of objects per kind, over all namespaces; create, update and delete scan it for the
  namespace and the name. Its \<open>Patch\<close> is not handled by any reaction and returns the default
  object, its \<open>Watch\<close> hands out the events a test put on the channel. Here it is the instance of the
  API contract: \<open>fake_resource\<close> shows that every kind keeps it.
\<close>

section \<open>The object tracker\<close>

record ('t, 'o) kind =
  k_meta :: "'o \<Rightarrow> ObjectMeta"
  k_root :: bool \<comment> \<open>not namespaced\<close>
  k_get :: "'t \<Rightarrow> 'o list"
  k_put :: "'o list \<Rightarrow> 't \<Rightarrow> 't"
  k_events :: "'t \<Rightarrow> (int \<times> 'o event) list"
  k_zero :: 'o

definition checkNamespace :: "bool \<Rightarrow> string \<Rightarrow> unit res" where
  "checkNamespace is_root ns =
     (if is_root then (if ns \<noteq> [] then Err (PlainError ''namespace specified for a non-namespaced kind'') else Ok ())
      else (if ns = [] then Err (PlainError ''no namespace specified for a namespaced kind'') else Ok ()))"

definition filterByNamespaceAndName :: "('o \<Rightarrow> ObjectMeta) \<Rightarrow> 'o list \<Rightarrow> string \<Rightarrow> string \<Rightarrow> 'o list" where
  "filterByNamespaceAndName meta objs ns name =
     filter (\<lambda>ob. (ns = [] \<or> meta_Namespace (meta ob) = ns) \<and> (name = [] \<or> meta_Name (meta ob) = name)) objs"

definition same_key :: "('o \<Rightarrow> ObjectMeta) \<Rightarrow> string \<Rightarrow> string \<Rightarrow> 'o \<Rightarrow> bool" where
  "same_key meta ns name ob = (meta_Namespace (meta ob) = ns \<and> meta_Name (meta ob) = name)"

definition tracker_Get :: "('t, 'o) kind \<Rightarrow> string \<Rightarrow> string \<Rightarrow> 't \<Rightarrow> 'o res" where
  "tracker_Get K ns name t =
     res_then (checkNamespace (k_root K) ns) (\<lambda>_.
       case filterByNamespaceAndName (k_meta K) (k_get K t) ns name of
         [] \<Rightarrow> Err (not_found name)
       | [ob] \<Rightarrow> Ok ob
       | _ \<Rightarrow> Err (PlainError ''more than one object matched''))"

definition tracker_add :: "('t, 'o) kind \<Rightarrow> 'o \<Rightarrow> bool \<Rightarrow> 't \<Rightarrow> 't res" where
  "tracker_add K ob replaceExisting t =
     (let meta = k_meta K; ns = meta_Namespace (meta ob); name = meta_Name (meta ob)
      in res_then (checkNamespace (k_root K) ns) (\<lambda>_.
           if \<exists>o' \<in> set (k_get K t). same_key meta ns name o' then
             (if replaceExisting then Ok (k_put K (update_first (same_key meta ns name) (\<lambda>_. ob) (k_get K t)) t)
              else Err (already_exists name))
           else if replaceExisting then Err (not_found name)
           else Ok (k_put K (k_get K t @ [ob]) t)))"

definition tracker_Delete :: "('t, 'o) kind \<Rightarrow> string \<Rightarrow> string \<Rightarrow> 't \<Rightarrow> 't res" where
  "tracker_Delete K ns name t =
     res_then (checkNamespace (k_root K) ns) (\<lambda>_.
       if \<exists>o' \<in> set (k_get K t). same_key (k_meta K) ns name o'
       then Ok (k_put K (remove_first (same_key (k_meta K) ns name) (k_get K t)) t)
       else Err (not_found name))"

definition tracker_List :: "('t, 'o) kind \<Rightarrow> string \<Rightarrow> 't \<Rightarrow> 'o list" where
  "tracker_List K ns t = filterByNamespaceAndName (k_meta K) (k_get K t) ns []"

section \<open>The fake interfaces\<close>

text \<open>A write reaction: on success the tracker's new contents, and the object read back.\<close>

definition react :: "('t, 'o) kind \<Rightarrow> string \<Rightarrow> string \<Rightarrow> 't res \<Rightarrow> ('t, 'o) act" where
  "react K ns name r t =
     (case r of Ok t' \<Rightarrow> (tracker_Get K ns name t', t') | Err e \<Rightarrow> (Err e, t) | Panic p \<Rightarrow> (Panic p, t))"

definition fake_List :: "('t, 'o) kind \<Rightarrow> string \<Rightarrow> ListOptions \<Rightarrow> ('t, 'o list) act" where
  "fake_List K ns opts t =
     (case Parse (lo_LabelSelector opts) of
        Ok rs \<Rightarrow> (Ok (filter (\<lambda>ob. Matches rs (meta_Labels (k_meta K ob))) (tracker_List K ns t)), t)
      | Err e \<Rightarrow> (Panic (Error e), t)
      | Panic p \<Rightarrow> (Panic p, t))"

definition fake_iface :: "('t, 'o) kind \<Rightarrow> string \<Rightarrow> ('t, 'o) iface" where
  "fake_iface K ns =
     \<lparr>if_Create = (\<lambda>ob t. react K ns (meta_Name (k_meta K ob)) (tracker_add K ob False t) t),
      if_Update = (\<lambda>ob t. react K ns (meta_Name (k_meta K ob)) (tracker_add K ob True t) t),
      if_Delete = (\<lambda>n d t. case tracker_Delete K ns n t of
                      Ok t' \<Rightarrow> (Ok (), t') | Err e \<Rightarrow> (Err e, t) | Panic p \<Rightarrow> (Panic p, t)),
      if_Get = (\<lambda>n t. (tracker_Get K ns n t, t)),
      if_List = fake_List K ns,
      if_Watch = (\<lambda>opts t. (Ok (k_events K t), t)),
      if_Patch = (\<lambda>n p t. (Ok (k_zero K), t))\<rparr>"

section \<open>The tracker keeps the contract\<close>

definition keys_distinct :: "('o \<Rightarrow> ObjectMeta) \<Rightarrow> 'o list \<Rightarrow> bool" where
  "keys_distinct meta obs = distinct (map (\<lambda>ob. (meta_Namespace (meta ob), meta_Name (meta ob))) obs)"

definition scope_ok :: "('o \<Rightarrow> ObjectMeta) \<Rightarrow> bool \<Rightarrow> 'o list \<Rightarrow> bool" where
  "scope_ok meta is_root obs = (\<forall>ob \<in> set obs. is_root \<longrightarrow> meta_Namespace (meta ob) = [])"

definition store_ok :: "('o \<Rightarrow> ObjectMeta) \<Rightarrow> bool \<Rightarrow> 'o list \<Rightarrow> bool" where
  "store_ok meta is_root obs = (keys_distinct meta obs \<and> scope_ok meta is_root obs)"

definition stored :: "('o \<Rightarrow> ObjectMeta) \<Rightarrow> 'o list \<Rightarrow> string \<Rightarrow> string \<Rightarrow> 'o option" where
  "stored meta obs ns name = List.find (same_key meta ns name) obs"

lemma checkNamespace_Ok: "checkNamespace is_root ns = Ok u \<longleftrightarrow> is_root = (ns = [])"
  by (auto simp: checkNamespace_def)

lemma checkNamespace_cases: "checkNamespace is_root ns = Ok () \<or> (\<exists>m. checkNamespace is_root ns = Err (PlainError m))"
  by (auto simp: checkNamespace_def)

lemma keys_distinct_same:
  "keys_distinct meta obs \<Longrightarrow> a \<in> set obs \<Longrightarrow> b \<in> set obs \<Longrightarrow>
     same_key meta ns n a \<Longrightarrow> same_key meta ns n b \<Longrightarrow> a = b"
  unfolding keys_distinct_def same_key_def by (auto simp: distinct_map inj_on_def)

lemma stored_Some_iff:
  "keys_distinct meta obs \<Longrightarrow> stored meta obs ns n = Some ob \<longleftrightarrow> ob \<in> set obs \<and> same_key meta ns n ob"
proof (induction obs)
  case Nil
  then show ?case by (simp add: stored_def)
next
  case (Cons x obs)
  then have kd: "keys_distinct meta obs" by (simp add: keys_distinct_def)
  show ?case
  proof (cases "same_key meta ns n x")
    case True
    then have "\<And>ob. ob \<in> set obs \<Longrightarrow> same_key meta ns n ob \<Longrightarrow> ob = x"
      using keys_distinct_same [OF Cons.prems, of _ x] by simp
    with True show ?thesis by (auto simp: stored_def)
  next
    case False
    with Cons.IH [OF kd] show ?thesis by (auto simp: stored_def)
  qed
qed

lemma stored_None_iff: "stored meta obs ns n = None \<longleftrightarrow> (\<forall>ob \<in> set obs. \<not> same_key meta ns n ob)"
  by (auto simp: stored_def find_None_iff)

lemma stored_append_new:
  "\<forall>o' \<in> set obs. \<not> same_key meta ns (meta_Name (meta ob)) o' \<Longrightarrow> meta_Namespace (meta ob) = ns \<Longrightarrow>
     stored meta (obs @ [ob]) ns = (stored meta obs ns)(meta_Name (meta ob) \<mapsto> ob)"
proof (rule ext, goal_cases)
  case (1 n)
  then show ?case
    by (induction obs) (auto simp: stored_def same_key_def)
qed

lemma stored_update:
  assumes "\<exists>o' \<in> set obs. same_key meta ns n o'" and ob: "same_key meta ns n ob"
  shows "stored meta (update_first (same_key meta ns n) (\<lambda>_. ob) obs) ns = (stored meta obs ns)(n \<mapsto> ob)"
proof
  fix m
  have other: "m \<noteq> n \<Longrightarrow> same_key meta ns n x \<Longrightarrow> \<not> same_key meta ns m x" for x
    by (simp add: same_key_def)
  show "stored meta (update_first (same_key meta ns n) (\<lambda>_. ob) obs) ns m = ((stored meta obs ns)(n \<mapsto> ob)) m"
    using assms(1)
  proof (induction obs)
    case Nil
    then show ?case by simp
  next
    case (Cons x obs)
    show ?case
    proof (cases "same_key meta ns n x")
      case True
      then show ?thesis
        using ob other [of x] other [of ob] by (cases "m = n") (simp_all add: stored_def)
    next
      case False
      with Cons show ?thesis by (auto simp: stored_def)
    qed
  qed
qed

lemma stored_remove:
  "keys_distinct meta obs \<Longrightarrow>
     stored meta (remove_first (same_key meta ns n) obs) ns = (stored meta obs ns)(n := None)"
proof (rule ext, goal_cases)
  case (1 m)
  then show ?case
  proof (induction obs)
    case Nil
    then show ?case by (simp add: stored_def)
  next
    case (Cons x obs)
    have kd: "keys_distinct meta obs" using Cons.prems by (simp add: keys_distinct_def)
    show ?case
    proof (cases "same_key meta ns n x")
      case True
      then have "\<forall>ob \<in> set obs. \<not> same_key meta ns n ob"
        using Cons.prems by (force simp: keys_distinct_def same_key_def image_iff)
      then have "stored meta obs ns n = None" by (simp add: stored_None_iff)
      with True show ?thesis by (auto simp: stored_def same_key_def)
    next
      case False
      with Cons.IH [OF kd] show ?thesis by (auto simp: stored_def)
    qed
  qed
qed

lemma store_ok_append:
  "store_ok meta is_root obs \<Longrightarrow> \<forall>o' \<in> set obs. \<not> same_key meta (meta_Namespace (meta ob)) (meta_Name (meta ob)) o' \<Longrightarrow>
     checkNamespace is_root (meta_Namespace (meta ob)) = Ok u \<Longrightarrow> store_ok meta is_root (obs @ [ob])"
  by (auto simp: store_ok_def keys_distinct_def scope_ok_def same_key_def checkNamespace_Ok)

lemma store_ok_update:
  "store_ok meta is_root obs \<Longrightarrow> same_key meta ns n ob \<Longrightarrow> checkNamespace is_root ns = Ok u \<Longrightarrow>
     store_ok meta is_root (update_first (same_key meta ns n) (\<lambda>_. ob) obs)"
proof -
  assume ok: "store_ok meta is_root obs" and ob: "same_key meta ns n ob" and c: "checkNamespace is_root ns = Ok u"
  let ?key = "\<lambda>ob. (meta_Namespace (meta ob), meta_Name (meta ob))"
  have "map ?key (update_first (same_key meta ns n) (\<lambda>_. ob) obs) = map ?key obs"
    using ob by (induction obs) (auto simp: same_key_def)
  moreover have "set (update_first (same_key meta ns n) (\<lambda>_. ob) obs) \<subseteq> insert ob (set obs)"
    by (induction obs) auto
  ultimately show ?thesis
    using ok ob c unfolding store_ok_def keys_distinct_def scope_ok_def
    by (auto simp: same_key_def checkNamespace_Ok)
qed

lemma store_ok_remove: "store_ok meta is_root obs \<Longrightarrow> store_ok meta is_root (remove_first p obs)"
proof -
  assume "store_ok meta is_root obs"
  moreover have "distinct (map f obs) \<Longrightarrow> distinct (map f (remove_first p obs))" for f :: "'a \<Rightarrow> string \<times> string"
    by (induction obs) (auto dest: set_remove_first_subset [THEN subsetD])
  ultimately show ?thesis
    using set_remove_first_subset [of p obs] by (auto simp: store_ok_def keys_distinct_def scope_ok_def)
qed

lemma filter_same_key:
  assumes "keys_distinct meta obs"
  shows "filter (same_key meta ns n) obs = (case stored meta obs ns n of None \<Rightarrow> [] | Some ob \<Rightarrow> [ob])"
  using assms
proof (induction obs)
  case Nil
  then show ?case by (simp add: stored_def)
next
  case (Cons x obs)
  have kd: "keys_distinct meta obs" using Cons.prems by (simp add: keys_distinct_def)
  show ?case
  proof (cases "same_key meta ns n x")
    case True
    then have "filter (same_key meta ns n) obs = []"
      using Cons.prems by (force simp: keys_distinct_def same_key_def image_iff filter_empty_conv)
    with True show ?thesis by (simp add: stored_def)
  next
    case False
    with Cons.IH [OF kd] show ?thesis by (simp add: stored_def)
  qed
qed

lemma filterBy_scoped:
  assumes "store_ok meta is_root obs" and "is_root = (ns = [])"
  shows "filterByNamespaceAndName meta obs ns name =
     filter (\<lambda>ob. meta_Namespace (meta ob) = ns \<and> (name = [] \<or> meta_Name (meta ob) = name)) obs"
  using assms unfolding filterByNamespaceAndName_def store_ok_def scope_ok_def
  by (intro filter_cong) auto

lemma tracker_Get_stored:
  assumes "store_ok (k_meta K) (k_root K) (k_get K t)" and "k_root K = (ns = [])" and "n \<noteq> []"
  shows "tracker_Get K ns n t =
     (case stored (k_meta K) (k_get K t) ns n of None \<Rightarrow> Err (not_found n) | Some ob \<Rightarrow> Ok ob)"
proof -
  have "filterByNamespaceAndName (k_meta K) (k_get K t) ns n = filter (same_key (k_meta K) ns n) (k_get K t)"
    using filterBy_scoped [OF assms(1,2)] assms(3) by (simp add: same_key_def cong: filter_cong)
  moreover have "keys_distinct (k_meta K) (k_get K t)"
    using assms(1) by (simp add: store_ok_def)
  moreover have "checkNamespace (k_root K) ns = Ok ()"
    using assms(2) by (simp add: checkNamespace_def)
  ultimately show ?thesis
    by (simp add: tracker_Get_def filter_same_key split: option.splits)
qed

text \<open>A kind that reads and writes its own part of a larger state keeps the contract.\<close>

locale tracked =
  fixes K :: "('t, 'o) kind" and ns :: string and inv :: "'t \<Rightarrow> bool" and rest :: "'t \<Rightarrow> 'r"
  assumes get_put: "k_get K (k_put K xs t) = xs"
    and rest_put: "rest (k_put K xs t) = rest t"
    and inv_store: "inv t \<Longrightarrow> store_ok (k_meta K) (k_root K) (k_get K t)"
    and inv_put: "inv t \<Longrightarrow> store_ok (k_meta K) (k_root K) xs \<Longrightarrow> inv (k_put K xs t)"
    and scope: "k_root K = (ns = [])"
begin

lemma check_ok [simp]: "checkNamespace (k_root K) ns = Ok ()"
  using scope by (simp add: checkNamespace_def)

lemma add_Ok:
  assumes "inv t" and "tracker_add K ob b t = Ok t'"
  shows "inv t'" and "rest t' = rest t"
    and "meta_Namespace (k_meta K ob) = ns \<Longrightarrow>
      (stored (k_meta K) (k_get K t) ns (meta_Name (k_meta K ob)) \<noteq> None) = b \<and>
      stored (k_meta K) (k_get K t') ns = (stored (k_meta K) (k_get K t) ns)(meta_Name (k_meta K ob) \<mapsto> ob)"
proof -
  let ?ns = "meta_Namespace (k_meta K ob)" and ?n = "meta_Name (k_meta K ob)"
  let ?k = "same_key (k_meta K) ?ns ?n"
  have ob: "same_key (k_meta K) ?ns ?n ob" by (simp add: same_key_def)
  obtain u where c: "checkNamespace (k_root K) ?ns = Ok u"
    using assms(2) by (auto simp: tracker_add_def Let_def res_then_Ok)
  have st: "store_ok (k_meta K) (k_root K) (k_get K t)" by (rule inv_store [OF assms(1)])
  consider (upd) "\<exists>o' \<in> set (k_get K t). ?k o'" "b" "t' = k_put K (update_first ?k (\<lambda>_. ob) (k_get K t)) t"
    | (app) "\<forall>o' \<in> set (k_get K t). \<not> ?k o'" "\<not> b" "t' = k_put K (k_get K t @ [ob]) t"
    using assms(2) c by (auto simp: tracker_add_def Let_def split: if_splits)
  then have "inv t' \<and> rest t' = rest t \<and> (?ns = ns \<longrightarrow>
      (stored (k_meta K) (k_get K t) ns ?n \<noteq> None) = b \<and>
      stored (k_meta K) (k_get K t') ns = (stored (k_meta K) (k_get K t) ns)(?n \<mapsto> ob))"
  proof cases
    case upd
    then show ?thesis
      using inv_put [OF assms(1) store_ok_update [OF st ob c]] stored_update [OF upd(1) ob]
      by (auto simp: rest_put get_put stored_None_iff)
  next
    case app
    then show ?thesis
      using inv_put [OF assms(1) store_ok_append [OF st app(1) c]] stored_append_new [OF app(1)]
      by (auto simp: rest_put get_put stored_None_iff)
  qed
  then show "inv t'" and "rest t' = rest t"
    and "?ns = ns \<Longrightarrow> (stored (k_meta K) (k_get K t) ns ?n \<noteq> None) = b \<and>
      stored (k_meta K) (k_get K t') ns = (stored (k_meta K) (k_get K t) ns)(?n \<mapsto> ob)"
    by auto
qed

lemma delete_Ok:
  assumes "inv t" and "tracker_Delete K ns n t = Ok t'"
  shows "inv t' \<and> rest t' = rest t \<and> stored (k_meta K) (k_get K t) ns n \<noteq> None \<and>
    stored (k_meta K) (k_get K t') ns = (stored (k_meta K) (k_get K t) ns)(n := None)"
  using assms inv_put [OF assms(1) store_ok_remove [OF inv_store [OF assms(1)]]] inv_store [OF assms(1)]
  by (auto simp: tracker_Delete_def rest_put get_put stored_None_iff stored_remove store_ok_def split: if_splits)

lemma Get_stored:
  "inv t \<Longrightarrow> n \<noteq> [] \<Longrightarrow> tracker_Get K ns n t =
     (case stored (k_meta K) (k_get K t) ns n of None \<Rightarrow> Err (not_found n) | Some ob \<Rightarrow> Ok ob)"
  by (rule tracker_Get_stored [OF inv_store scope])

lemma Get_no_panic: "tracker_Get K m n t \<noteq> Panic p"
  using checkNamespace_cases [of "k_root K" m]
  by (auto simp: tracker_Get_def split: list.splits)

lemma add_no_panic: "tracker_add K ob b t \<noteq> Panic p"
  using checkNamespace_cases [of "k_root K" "meta_Namespace (k_meta K ob)"]
  by (auto simp: tracker_add_def Let_def)

lemma create_apply:
  assumes "inv t" and "meta_Name (k_meta K ob) \<noteq> []" and "meta_Namespace (k_meta K ob) = ns"
  shows "react K ns (meta_Name (k_meta K ob)) (tracker_add K ob b t) t =
     (case tracker_add K ob b t of Ok t' \<Rightarrow> (Ok ob, t') | Err e \<Rightarrow> (Err e, t) | Panic p \<Rightarrow> (Panic p, t))"
proof (cases "tracker_add K ob b t")
  case (Ok t')
  with add_Ok [OF assms(1) Ok] assms show ?thesis
    by (simp add: react_def Get_stored)
qed (simp_all add: react_def)

lemma List_stored:
  "inv t \<Longrightarrow> set (tracker_List K ns t) =
     {ob. stored (k_meta K) (k_get K t) ns (meta_Name (k_meta K ob)) = Some ob}"
  using filterBy_scoped [OF inv_store scope, of t "[]"] inv_store [of t]
  by (auto simp: tracker_List_def stored_Some_iff store_ok_def same_key_def)

lemma react_inv:
  "inv t \<Longrightarrow> react K ns n (tracker_add K ob b t) t = (r, t') \<Longrightarrow> inv t'"
  by (auto simp: react_def add_Ok(1) split: res.splits)

lemma delete_no_panic: "tracker_Delete K ns n t \<noteq> Panic p"
  by (simp add: tracker_Delete_def)

lemma delete_Err: "tracker_Delete K ns n t = Err e \<Longrightarrow> stored (k_meta K) (k_get K t) ns n = None"
  by (auto simp: tracker_Delete_def stored_None_iff split: if_splits)

text \<open>The fake interface of the kind keeps the whole contract.\<close>

lemma fake_resource:
  "resource (fake_iface K ns) (k_meta K) ns inv (\<lambda>t. stored (k_meta K) (k_get K t) ns) rest content"
proof (unfold_locales, goal_cases)
  case (1 s n ob)
  then show ?case
    using inv_store [of s] by (simp add: stored_Some_iff store_ok_def same_key_def)
next
  case (2 s ob r s')
  then show ?case using react_inv by (simp add: fake_iface_def)
next
  case (3 s ob r s')
  then show ?case using react_inv by (simp add: fake_iface_def)
next
  case (4 s n d r s')
  then show ?case using delete_Ok by (auto simp: fake_iface_def split: res.splits)
next
  case (7 lo s r s')
  then show ?case by (auto simp: fake_iface_def fake_List_def split: res.splits)
next
  case (11 s ob ob' s')
  then show ?case
    using add_Ok(2,3) [OF 11(1), of ob False] by (auto simp: fake_iface_def create_apply split: res.splits)
next
  case (12 s ob ob' s')
  then show ?case
    using add_Ok(2,3) [OF 12(1), of ob True] by (auto simp: fake_iface_def create_apply split: res.splits)
next
  case (13 s n d u s')
  then show ?case using delete_Ok by (auto simp: fake_iface_def split: res.splits)
next
  case (14 s n d e s')
  then show ?case using delete_Err by (auto simp: fake_iface_def split: res.splits)
next
  case (15 s lo obs s' rs)
  then show ?case by (auto simp: fake_iface_def fake_List_def List_stored)
next
  case (16 s ob e s')
  then show ?case using create_apply [of s ob False] by (simp add: fake_iface_def split: res.splits)
next
  case (17 s ob e s')
  then show ?case using create_apply [of s ob True] by (simp add: fake_iface_def split: res.splits)
qed (auto simp: fake_iface_def create_apply Get_stored react_def Get_no_panic add_no_panic delete_no_panic
      split: res.splits option.splits)

sublocale fake: resource "fake_iface K ns" "k_meta K" ns inv "\<lambda>t. stored (k_meta K) (k_get K t) ns" rest "\<lambda>ob. ob"
  by (rule fake_resource)

end

section \<open>The fake client\<close>

record fake =
  fk_ConfigMaps :: "ConfigMap list"
  fk_PVCs :: "PersistentVolumeClaim list"
  fk_Pods :: "Pod list"
  fk_Services :: "KubeService list"
  fk_Secrets :: "KubeSecret list"
  fk_Deployments :: "Deployment list"
  fk_Ingresses :: "Ingress list"
  fk_Namespaces :: "KubeNamespace list"
  fk_PodEvents :: "(int \<times> Pod event) list"
  fk_PVCEvents :: "(int \<times> PersistentVolumeClaim event) list"
  fk_DeploymentEvents :: "(int \<times> Deployment event) list"

definition empty_fake :: fake where
  "empty_fake = \<lparr>fk_ConfigMaps = [], fk_PVCs = [], fk_Pods = [], fk_Services = [], fk_Secrets = [],
     fk_Deployments = [], fk_Ingresses = [], fk_Namespaces = [], fk_PodEvents = [], fk_PVCEvents = [],
     fk_DeploymentEvents = []\<rparr>"

definition zero_PodSpec :: PodSpec where
  "zero_PodSpec = \<lparr>ps_Hostname = [], ps_Containers = [], ps_Volumes = []\<rparr>"

definition k_ConfigMaps :: "(fake, ConfigMap) kind" where
  "k_ConfigMaps = \<lparr>k_meta = cm_Meta, k_root = False, k_get = fk_ConfigMaps,
     k_put = (\<lambda>xs t. t\<lparr>fk_ConfigMaps := xs\<rparr>), k_events = (\<lambda>_. []),
     k_zero = \<lparr>cm_Meta = zero_ObjectMeta, cm_Data = []\<rparr>\<rparr>"

definition k_PVCs :: "(fake, PersistentVolumeClaim) kind" where
  "k_PVCs = \<lparr>k_meta = pvc_Meta, k_root = False, k_get = fk_PVCs,
     k_put = (\<lambda>xs t. t\<lparr>fk_PVCs := xs\<rparr>), k_events = fk_PVCEvents,
     k_zero = \<lparr>pvc_Meta = zero_ObjectMeta, pvc_AccessModes = [], pvc_Requests = [], pvc_Phase = []\<rparr>\<rparr>"

definition k_Pods :: "(fake, Pod) kind" where
  "k_Pods = \<lparr>k_meta = pod_Meta, k_root = False, k_get = fk_Pods,
     k_put = (\<lambda>xs t. t\<lparr>fk_Pods := xs\<rparr>), k_events = fk_PodEvents,
     k_zero = \<lparr>pod_Meta = zero_ObjectMeta, pod_Spec = zero_PodSpec, pod_Status = zero_PodStatus\<rparr>\<rparr>"

definition k_Services :: "(fake, KubeService) kind" where
  "k_Services = \<lparr>k_meta = svc_Meta, k_root = False, k_get = fk_Services,
     k_put = (\<lambda>xs t. t\<lparr>fk_Services := xs\<rparr>), k_events = (\<lambda>_. []),
     k_zero = \<lparr>svc_Meta = zero_ObjectMeta, svc_Type = [], svc_ClusterIP = [], svc_Ports = [],
       svc_ExternalIPs = None, svc_LoadBalancerIP = [], svc_Selector = None\<rparr>\<rparr>"

definition k_Secrets :: "(fake, KubeSecret) kind" where
  "k_Secrets = \<lparr>k_meta = sec_Meta, k_root = False, k_get = fk_Secrets,
     k_put = (\<lambda>xs t. t\<lparr>fk_Secrets := xs\<rparr>), k_events = (\<lambda>_. []),
     k_zero = \<lparr>sec_Meta = zero_ObjectMeta, sec_Data = [], sec_StringData = None, sec_Type = []\<rparr>\<rparr>"

definition k_Deployments :: "(fake, Deployment) kind" where
  "k_Deployments = \<lparr>k_meta = dep_Meta, k_root = False, k_get = fk_Deployments,
     k_put = (\<lambda>xs t. t\<lparr>fk_Deployments := xs\<rparr>), k_events = fk_DeploymentEvents,
     k_zero = \<lparr>dep_Meta = zero_ObjectMeta, dep_Replicas = None, dep_TemplateLabels = None,
       dep_Template = zero_PodSpec, dep_ProgressDeadlineSeconds = None, dep_ObservedGeneration = 0,
       dep_AvailableReplicas = 0\<rparr>\<rparr>"

definition k_Ingresses :: "(fake, Ingress) kind" where
  "k_Ingresses = \<lparr>k_meta = ing_Meta, k_root = False, k_get = fk_Ingresses,
     k_put = (\<lambda>xs t. t\<lparr>fk_Ingresses := xs\<rparr>), k_events = (\<lambda>_. []),
     k_zero = \<lparr>ing_Meta = zero_ObjectMeta, ing_Backend = None, ing_TLS = [], ing_Rules = []\<rparr>\<rparr>"

definition k_Namespaces :: "(fake, KubeNamespace) kind" where
  "k_Namespaces = \<lparr>k_meta = ns_Meta, k_root = True, k_get = fk_Namespaces,
     k_put = (\<lambda>xs t. t\<lparr>fk_Namespaces := xs\<rparr>), k_events = (\<lambda>_. []),
     k_zero = \<lparr>ns_Meta = zero_ObjectMeta\<rparr>\<rparr>"

lemmas kind_defs = k_ConfigMaps_def k_PVCs_def k_Pods_def k_Services_def k_Secrets_def
  k_Deployments_def k_Ingresses_def k_Namespaces_def

definition fake_clientset :: "fake clientset" where
  "fake_clientset =
     \<lparr>core_ConfigMaps = fake_iface k_ConfigMaps,
      core_PersistentVolumeClaims = fake_iface k_PVCs,
      core_Pods = fake_iface k_Pods,
      core_Services = fake_iface k_Services,
      core_Secrets = fake_iface k_Secrets,
      core_Namespaces = fake_iface k_Namespaces [],
      ext_Deployments = fake_iface k_Deployments,
      ext_Ingresses = fake_iface k_Ingresses\<rparr>"

definition NewClient :: "string \<Rightarrow> string \<Rightarrow> fake client" where
  "NewClient context ns = \<lparr>cl_context = context, cl_namespace = ns, cl_Clientset = fake_clientset\<rparr>"

definition fake_ok :: "fake \<Rightarrow> bool" where
  "fake_ok t = (store_ok cm_Meta False (fk_ConfigMaps t) \<and> store_ok pvc_Meta False (fk_PVCs t) \<and>
     store_ok pod_Meta False (fk_Pods t) \<and> store_ok svc_Meta False (fk_Services t) \<and>
     store_ok sec_Meta False (fk_Secrets t) \<and> store_ok dep_Meta False (fk_Deployments t) \<and>
     store_ok ing_Meta False (fk_Ingresses t) \<and> store_ok ns_Meta True (fk_Namespaces t))"

definition fake_view :: "string \<Rightarrow> fake \<Rightarrow> cluster" where
  "fake_view ns t =
     \<lparr>vw_ConfigMaps = stored cm_Meta (fk_ConfigMaps t) ns, vw_PVCs = stored pvc_Meta (fk_PVCs t) ns,
      vw_Pods = stored pod_Meta (fk_Pods t) ns, vw_Services = stored svc_Meta (fk_Services t) ns,
      vw_Secrets = stored sec_Meta (fk_Secrets t) ns, vw_Deployments = stored dep_Meta (fk_Deployments t) ns,
      vw_Ingresses = stored ing_Meta (fk_Ingresses t) ns, vw_Namespaces = stored ns_Meta (fk_Namespaces t) []\<rparr>"

lemma fake_ok_empty [simp]: "fake_ok empty_fake"
  by (simp add: fake_ok_def empty_fake_def store_ok_def keys_distinct_def scope_ok_def)

lemma NewClient_simps [simp]:
  "cl_context (NewClient ctx ns) = ctx" "cl_namespace (NewClient ctx ns) = ns"
  "Context (NewClient ctx ns) = ctx" "Namespace (NewClient ctx ns) = ns"
  "ConfigMaps (NewClient ctx ns) = fake_iface k_ConfigMaps ns"
  "PersistentVolumeClaims (NewClient ctx ns) = fake_iface k_PVCs ns"
  "Pods (NewClient ctx ns) = fake_iface k_Pods ns"
  "Services (NewClient ctx ns) = fake_iface k_Services ns"
  "Secrets (NewClient ctx ns) = fake_iface k_Secrets"
  "Deployments (NewClient ctx ns) = fake_iface k_Deployments ns"
  "IngressService (NewClient ctx ns) = fake_iface k_Ingresses ns"
  "Namespaces (NewClient ctx ns) = fake_iface k_Namespaces []"
  by (simp_all add: NewClient_def fake_clientset_def Context_def Namespace_def ConfigMaps_def
      PersistentVolumeClaims_def Pods_def Services_def Secrets_def Deployments_def IngressService_def
      Namespaces_def)

theorem fake_kube_api:
  assumes ns: "ns \<noteq> []"
  shows "kube_api (NewClient ctx ns) fake_ok (fake_view ns)"
proof -
  have cms: "tracked k_ConfigMaps ns fake_ok (\<lambda>t. (fake_view ns t)\<lparr>vw_ConfigMaps := Map.empty\<rparr>)"
    and pvcs: "tracked k_PVCs ns fake_ok (\<lambda>t. (fake_view ns t)\<lparr>vw_PVCs := Map.empty\<rparr>)"
    and pods: "tracked k_Pods ns fake_ok (\<lambda>t. (fake_view ns t)\<lparr>vw_Pods := Map.empty\<rparr>)"
    and svcs: "tracked k_Services ns fake_ok (\<lambda>t. (fake_view ns t)\<lparr>vw_Services := Map.empty\<rparr>)"
    and secs: "tracked k_Secrets ns fake_ok (\<lambda>t. (fake_view ns t)\<lparr>vw_Secrets := Map.empty\<rparr>)"
    and deps: "tracked k_Deployments ns fake_ok (\<lambda>t. (fake_view ns t)\<lparr>vw_Deployments := Map.empty\<rparr>)"
    and ings: "tracked k_Ingresses ns fake_ok (\<lambda>t. (fake_view ns t)\<lparr>vw_Ingresses := Map.empty\<rparr>)"
    and nss: "tracked k_Namespaces [] fake_ok (\<lambda>t. (fake_view ns t)\<lparr>vw_Namespaces := Map.empty\<rparr>)"
    by (unfold_locales; use ns in \<open>simp add: kind_defs fake_ok_def fake_view_def\<close>)+
  note axioms = cms [THEN tracked.fake_resource, of "\<lambda>ob. (meta_Labels (cm_Meta ob), cm_Data ob)"]
    pvcs [THEN tracked.fake_resource, of "\<lambda>ob. meta_Labels (pvc_Meta ob)"]
    pods [THEN tracked.fake_resource, of "\<lambda>ob. (meta_Labels (pod_Meta ob), claim_volumes (pod_Spec ob))"]
    svcs [THEN tracked.fake_resource, of "\<lambda>ob. meta_Labels (svc_Meta ob)"]
    secs [THEN tracked.fake_resource, of "\<lambda>ob. meta_Labels (sec_Meta ob)"]
    deps [THEN tracked.fake_resource, of "\<lambda>_. ()"]
    ings [THEN tracked.fake_resource, of "\<lambda>ob. meta_Labels (ing_Meta ob)"]
    nss [THEN tracked.fake_resource, of "\<lambda>ob. meta_Labels (ns_Meta ob)"]
  show ?thesis
    using axioms
    unfolding kube_api_def
    by (simp add: kind_defs fake_view_def)
qed

text \<open>The calls a test looks for in the fake's log, in the order they were made.\<close>

record action =
  act_Verb :: string
  act_Resource :: string
  act_Namespace :: string

definition action_Matches :: "string \<Rightarrow> string \<Rightarrow> action \<Rightarrow> bool" where
  "action_Matches verb res a = (ToLower verb = ToLower (act_Verb a) \<and> ToLower res = ToLower (act_Resource a))"

fun MatchingActions :: "string \<Rightarrow> string \<Rightarrow> action list \<Rightarrow> action list" where
  "MatchingActions verb res [] = []"
| "MatchingActions verb res (a # acts) =
     (if action_Matches verb res a then a # MatchingActions verb res acts else MatchingActions verb res acts)"

lemma MatchingActions_filter: "MatchingActions verb res acts = filter (action_Matches verb res) acts"
  by (induction acts) simp_all

text \<open>The client of the unit tests: context \<^verbatim>\<open>bosh\<close>, namespace \<^verbatim>\<open>bosh-namespace\<close>.\<close>

definition test_client :: "fake client" where
  "test_client = NewClient ''bosh'' ''bosh-namespace''"

interpretation tracked_pods: tracked k_Pods "''bosh-namespace''" fake_ok "\<lambda>t. fk_Services t"
  by unfold_locales (simp_all add: kind_defs fake_ok_def)

interpretation test_api: kube_api test_client fake_ok "fake_view ''bosh-namespace''"
  unfolding test_client_def by (rule fake_kube_api) simp

definition test_provider :: "fake provider" where
  "test_provider ctx = (if ctx = ''bosh'' then Ok test_client else Err (PlainError ''no such context''))"

interpretation test_cpi: provided_api test_client fake_ok "fake_view ''bosh-namespace''" test_provider "''bosh''"
  by unfold_locales (simp_all add: test_provider_def test_client_def)

end
