(* ===== verification/FindActions.thy ===== *)
theory FindActions
  imports CID Tracker
begin

text \<open>
  The queries of the director: \<^verbatim>\<open>actions/has_vm.go\<close>, \<^verbatim>\<open>has_disk.go\<close> and \<^verbatim>\<open>get_disks.go\<close>. They
  look objects up by label or by name and change nothing.
\<close>

section \<open>Definitions\<close>

text \<open>\<^verbatim>\<open>FindVM\<close>: the context and the pod, if one is listed.\<close>

definition FindVM :: "'s provider \<Rightarrow> string \<Rightarrow> ('s, string \<times> Pod option) act" where
  "FindVM ClientProvider vmcid =
     and_then (lift_res (ParseVMCID vmcid)) (\<lambda>(context, agentID).
     and_then (wrap_err ''Parsing agent selector'' (lift_res (selector_for agent_id_key agentID))) (\<lambda>agentSelector.
     and_then (wrap_err ''Creating client'' (lift_res (ClientProvider context))) (\<lambda>client.
     and_then (wrap_err ''Listing pod'' (if_List (Pods client) (by_selector agentSelector))) (\<lambda>podList.
       case podList of
         pod # _ \<Rightarrow> ret (context, Some pod)
       | [] \<Rightarrow> ret ([], None)))))"

definition HasVM :: "'s provider \<Rightarrow> string \<Rightarrow> ('s, bool) act" where
  "HasVM ClientProvider vmcid =
     and_then (FindVM ClientProvider vmcid) (\<lambda>(_, pod). ret (pod \<noteq> None))"

definition HasDisk :: "'s provider \<Rightarrow> string \<Rightarrow> ('s, bool) act" where
  "HasDisk ClientProvider diskCID =
     and_then (lift_res (ParseDiskCID diskCID)) (\<lambda>(context, diskID).
     and_then (wrap_err ''Parsing disk selector'' (lift_res (selector_for disk_id_key diskID))) (\<lambda>diskSelector.
     and_then (wrap_err ''Creating client'' (lift_res (ClientProvider context))) (\<lambda>client.
     and_then (wrap_err ''Listing PVC options''
                (if_List (PersistentVolumeClaims client) (by_selector diskSelector))) (\<lambda>pvcList.
       ret (pvcList \<noteq> [])))))"

definition isNotFoundStatusError :: "error \<Rightarrow> bool" where
  "isNotFoundStatusError e = has_code 404 e"

definition getPVClaim ::
    "('s, PersistentVolumeClaim) iface \<Rightarrow> VolumeSource \<Rightarrow> ('s, PersistentVolumeClaim option) act" where
  "getPVClaim pvcClient volumeSource =
     (case volumeSource of
        PersistentVolumeClaimSource claimName \<Rightarrow> and_then (if_Get pvcClient claimName) (\<lambda>pvc. ret (Some pvc))
      | _ \<Rightarrow> ret None)"

definition disk_id_label :: "PersistentVolumeClaim \<Rightarrow> string option" where
  "disk_id_label pvc =
     (case meta_Labels (pvc_Meta pvc) of None \<Rightarrow> None | Some ls \<Rightarrow> gget disk_id_key ls)"

text \<open>The loop over the pod's volumes. A claim that is not found has no label to read, whether the
  client returns nil or an empty object beside the error.\<close>

fun volume_disks ::
    "'s client \<Rightarrow> string \<Rightarrow> Volume list \<Rightarrow> string list \<Rightarrow> ('s, string list) act" where
  "volume_disks client context [] diskIDs = ret diskIDs"
| "volume_disks client context (vol # vols) diskIDs =
     catch (getPVClaim (PersistentVolumeClaims client) (vol_Source vol))
       (\<lambda>pvc. case pvc of
          None \<Rightarrow> volume_disks client context vols diskIDs
        | Some pvc' \<Rightarrow>
            (case disk_id_label pvc' of
               None \<Rightarrow> volume_disks client context vols diskIDs
             | Some diskID \<Rightarrow> volume_disks client context vols (diskIDs @ [NewDiskCID context diskID])))
       (\<lambda>e. if isNotFoundStatusError e then volume_disks client context vols diskIDs
             else fail (WrapError e ''Getting PVC''))"

definition GetDisks :: "'s provider \<Rightarrow> string \<Rightarrow> ('s, string list) act" where
  "GetDisks ClientProvider vmcid =
     and_then (lift_res (ParseVMCID vmcid)) (\<lambda>(context, agentID).
     and_then (wrap_err ''Creating client'' (lift_res (ClientProvider context))) (\<lambda>client.
     catch (if_Get (Pods client) (''agent-'' @ agentID))
       (\<lambda>pod. volume_disks client context (ps_Volumes (pod_Spec pod)) [])
       (\<lambda>e. if has_code 404 e then ret [] else fail (WrapError e ''Getting pod''))))"

section \<open>What they promise\<close>

text \<open>An object carries an id when its label says so.\<close>

definition labelled :: "string \<Rightarrow> string \<Rightarrow> ObjectMeta \<Rightarrow> bool" where
  "labelled key ident m = (\<exists>ls. meta_Labels m = Some ls \<and> gget key ls = Some ident)"

definition pod_exists :: "cluster \<Rightarrow> string \<Rightarrow> bool" where
  "pod_exists w agentID = (\<exists>n pod. vw_Pods w n = Some pod \<and> labelled agent_id_key agentID (pod_Meta pod))"

definition claim_exists :: "cluster \<Rightarrow> string \<Rightarrow> bool" where
  "claim_exists w diskID = (\<exists>n pvc. vw_PVCs w n = Some pvc \<and> labelled disk_id_key diskID (pvc_Meta pvc))"

text \<open>The disk a volume stands for: the id on its claim.\<close>

definition volume_disk :: "cluster \<Rightarrow> Volume \<Rightarrow> string option" where
  "volume_disk w vol =
     (case vol_Source vol of
        PersistentVolumeClaimSource n \<Rightarrow> (case vw_PVCs w n of None \<Rightarrow> None | Some pvc \<Rightarrow> disk_id_label pvc)
      | _ \<Rightarrow> None)"

definition attached_disks :: "cluster \<Rightarrow> string \<Rightarrow> string list" where
  "attached_disks w agentID =
     (case vw_Pods w (''agent-'' @ agentID) of
        None \<Rightarrow> []
      | Some pod \<Rightarrow> List.map_filter (volume_disk w) (ps_Volumes (pod_Spec pod)))"

definition claims_named :: "cluster \<Rightarrow> bool" where
  "claims_named w =
     (\<forall>n pod vol. vw_Pods w n = Some pod \<longrightarrow> vol \<in> set (ps_Volumes (pod_Spec pod)) \<longrightarrow>
        vol_Source vol \<noteq> PersistentVolumeClaimSource [])"

section \<open>Lemmas over a lawful client\<close>

context provided_api
begin

lemma parse_vm [simp]: "ParseVMCID (NewVMCID ctx agentID) = Ok (ctx, agentID)"
  using ctx_no_colon by (rule Parse_New_VMCID)

lemma parse_disk [simp]: "ParseDiskCID (NewDiskCID ctx diskID) = Ok (ctx, diskID)"
  using ctx_no_colon by (rule Parse_New_DiskCID)

text \<open>Listing by an id: the objects that carry it.\<close>

lemma list_pods:
  assumes "inv s" and "IsValidLabelValue ident = []"
    and "if_List (Pods c) (by_selector (agent_id_key @ CHR ''='' # ident)) s = (Ok obs, s')"
  shows "set obs = {ob. vw_Pods (v s) (meta_Name (pod_Meta ob)) = Some ob \<and> labelled agent_id_key ident (pod_Meta ob)}"
  using pods.List_Ok [OF assms(1,3)] assms(2)
  by (simp add: by_selector_def Parse_equals_valid labelled_def)

lemma list_services:
  assumes "inv s" and "IsValidLabelValue ident = []"
    and "if_List (Services c) (by_selector (agent_id_key @ CHR ''='' # ident)) s = (Ok obs, s')"
  shows "set obs = {ob. vw_Services (v s) (meta_Name (svc_Meta ob)) = Some ob \<and> labelled agent_id_key ident (svc_Meta ob)}"
  using svcs.List_Ok [OF assms(1,3)] assms(2)
  by (simp add: by_selector_def Parse_equals_valid labelled_def)

lemma list_claims:
  assumes "inv s" and "IsValidLabelValue ident = []"
    and "if_List (PersistentVolumeClaims c) (by_selector (disk_id_key @ CHR ''='' # ident)) s = (Ok obs, s')"
  shows "set obs = {ob. vw_PVCs (v s) (meta_Name (pvc_Meta ob)) = Some ob \<and> labelled disk_id_key ident (pvc_Meta ob)}"
  using pvcs.List_Ok [OF assms(1,3)] assms(2)
  by (simp add: by_selector_def Parse_equals_valid labelled_def)

lemma FindVM_Ok:
  assumes "inv s" and "IsValidLabelValue agentID = []"
    and "FindVM P (NewVMCID ctx agentID) s = (Ok (context, pd), s')"
  shows "s' = s"
    and "pd = None \<Longrightarrow> \<not> pod_exists (v s) agentID"
    and "pd = Some pod \<Longrightarrow> context = ctx \<and> labelled agent_id_key agentID (pod_Meta pod) \<and>
      vw_Pods (v s) (meta_Name (pod_Meta pod)) = Some pod"
proof -
  obtain obs t where l: "if_List (Pods c) (by_selector (agent_id_key @ CHR ''='' # agentID)) s = (Ok obs, t)"
    and r: "(case obs of pod # _ \<Rightarrow> ret (ctx, Some pod) | [] \<Rightarrow> ret ([], None)) t = (Ok (context, pd), s')"
    using assms(3) selector_for_valid [OF good_keys(1) assms(2)] New
    by (auto simp: FindVM_def act_Ok)
  have "t = s" using l by (rule pods.List_state)
  with r show "s' = s" by (cases obs) auto
  note set = list_pods [OF assms(1,2) l]
  show "\<not> pod_exists (v s) agentID" if "pd = None"
  proof -
    have "obs = []" using r that by (cases obs) auto
    with set show ?thesis using pods.view_key [OF assms(1)] by (fastforce simp: pod_exists_def)
  qed
  show "context = ctx \<and> labelled agent_id_key agentID (pod_Meta pod) \<and>
      vw_Pods (v s) (meta_Name (pod_Meta pod)) = Some pod" if "pd = Some pod"
  proof -
    have "pod \<in> set obs" and "context = ctx" using r that by (cases obs; auto)+
    with set show ?thesis by simp
  qed
qed

lemma HasVM_iff:
  assumes "inv s" and "IsValidLabelValue agentID = []" and "HasVM P (NewVMCID ctx agentID) s = (Ok b, s')"
  shows "s' = s \<and> (b \<longleftrightarrow> pod_exists (v s) agentID)"
proof -
  obtain cx pd where f: "FindVM P (NewVMCID ctx agentID) s = (Ok (cx, pd), s')"
    and b: "b = (pd \<noteq> None)"
    using assms(3) by (auto simp: HasVM_def act_Ok)
  note facts = FindVM_Ok [OF assms(1,2) f]
  show ?thesis
    using facts(1,2) facts(3) b unfolding pod_exists_def by (cases pd) auto
qed

lemma HasVM_state: "HasVM P (NewVMCID ctx agentID) s = (r, s') \<Longrightarrow> s' = s"
proof -
  have "keeps (\<lambda>x. x = s) (HasVM P (NewVMCID ctx agentID))"
    using New by (simp add: HasVM_def FindVM_def)
      (auto intro!: act_intros pods.keeps_read split: list.split)
  then show "HasVM P (NewVMCID ctx agentID) s = (r, s') \<Longrightarrow> s' = s" by (rule keeps_same)
qed

lemma HasDisk_iff:
  assumes "inv s" and "IsValidLabelValue diskID = []" and "HasDisk P (NewDiskCID ctx diskID) s = (Ok b, s')"
  shows "s' = s \<and> (b \<longleftrightarrow> claim_exists (v s) diskID)"
proof -
  obtain obs where l: "if_List (PersistentVolumeClaims c) (by_selector (disk_id_key @ CHR ''='' # diskID)) s = (Ok obs, s')"
    and b: "b = (obs \<noteq> [])"
    using assms(3) selector_for_valid [OF good_keys(2) assms(2)] New
    by (auto simp: HasDisk_def act_Ok)
  have "b \<longleftrightarrow> set obs \<noteq> {}" using b by simp
  also have "\<dots> \<longleftrightarrow> claim_exists (v s) diskID"
    unfolding list_claims [OF assms(1,2) l] claim_exists_def
    using pvcs.view_key [OF assms(1)] by fastforce
  finally show ?thesis using pvcs.List_state [OF l] by simp
qed

lemma volume_disks_Ok:
  assumes "inv s" and "\<forall>vol \<in> set vols. vol_Source vol \<noteq> PersistentVolumeClaimSource []"
    and "volume_disks c context vols acc s = (Ok ds, s')"
  shows "s' = s \<and> ds = acc @ map (NewDiskCID context) (List.map_filter (volume_disk (v s)) vols)"
  using assms(2,3)
proof (induction vols arbitrary: acc)
  case Nil
  then show ?case by (simp add: List.map_filter_simps)
next
  case (Cons vol vols)
  show ?case
  proof (cases "\<exists>n. vol_Source vol = PersistentVolumeClaimSource n")
    case False
    then have "getPVClaim (PersistentVolumeClaims c) (vol_Source vol) = ret None" "volume_disk (v s) vol = None"
      by (auto simp: getPVClaim_def volume_disk_def split: VolumeSource.splits)
    with Cons show ?thesis by (simp add: catch_def List.map_filter_simps)
  next
    case True
    then obtain n where n: "vol_Source vol = PersistentVolumeClaimSource n" "n \<noteq> []"
      using Cons.prems by auto
    obtain r t where g: "if_Get (PersistentVolumeClaims c) n s = (r, t)" by fastforce
    have t: "t = s" using g by (rule pvcs.Get_state)
    show ?thesis
    proof (cases r)
      case (Ok pvc)
      then have "vw_PVCs (v s) n = Some pvc"
        using g pvcs.Get_Ok [OF assms(1) n(2)] by simp
      then have d: "volume_disk (v s) vol = disk_id_label pvc"
        using n by (simp add: volume_disk_def)
      have tl: "\<forall>vol \<in> set vols. vol_Source vol \<noteq> PersistentVolumeClaimSource []"
        using Cons.prems by simp
      show ?thesis
      proof (cases "disk_id_label pvc")
        case None
        with Cons.prems n g t Ok have "volume_disks c context vols acc s = (Ok ds, s')"
          by (simp add: getPVClaim_def catch_def and_then_def)
        from Cons.IH [OF tl this] None d show ?thesis by (simp add: List.map_filter_simps)
      next
        case (Some a)
        with Cons.prems n g t Ok
        have "volume_disks c context vols (acc @ [NewDiskCID context a]) s = (Ok ds, s')"
          by (simp add: getPVClaim_def catch_def and_then_def)
        from Cons.IH [OF tl this] Some d show ?thesis by (simp add: List.map_filter_simps)
      qed
    next
      case (Err e)
      show ?thesis
      proof (cases "has_code 404 e")
        case True
        then have "vw_PVCs (v s) n = None"
          using g Err pvcs.Get_not_found [OF assms(1) n(2)] by simp
        with Cons n g t Err True show ?thesis
          by (auto simp: getPVClaim_def catch_def and_then_def volume_disk_def isNotFoundStatusError_def
              List.map_filter_simps)
      next
        case False
        with Cons n g t Err show ?thesis
          by (simp add: getPVClaim_def catch_def and_then_def isNotFoundStatusError_def)
      qed
    next
      case (Panic p)
      with g pvcs.no_panic(4) show ?thesis by blast
    qed
  qed
qed

lemma GetDisks_Ok:
  assumes "inv s" and "claims_named (v s)" and "GetDisks P (NewVMCID ctx agentID) s = (Ok ds, s')"
  shows "s' = s \<and> ds = map (NewDiskCID ctx) (attached_disks (v s) agentID)"
proof -
  let ?n = "''agent-'' @ agentID"
  obtain r t where g: "if_Get (Pods c) ?n s = (r, t)" by fastforce
  have t: "t = s" using g by (rule pods.Get_state)
  show ?thesis
  proof (cases r)
    case (Ok pod)
    then have pod: "vw_Pods (v s) ?n = Some pod"
      using g pods.Get_Ok [OF assms(1)] by simp
    then have "\<forall>vol \<in> set (ps_Volumes (pod_Spec pod)). vol_Source vol \<noteq> PersistentVolumeClaimSource []"
      using assms(2) unfolding claims_named_def by blast
    moreover have "volume_disks c ctx (ps_Volumes (pod_Spec pod)) [] s = (Ok ds, s')"
      using assms(3) Ok g t New by (simp add: GetDisks_def and_then_def wrap_err_def catch_def)
    ultimately show ?thesis
      using volume_disks_Ok [OF assms(1), of "ps_Volumes (pod_Spec pod)" ctx "[]" ds s'] pod
      by (simp add: attached_disks_def)
  next
    case (Err e)
    then have "has_code 404 e \<and> s' = s \<and> ds = []"
      using assms(3) g t New by (simp add: GetDisks_def and_then_def wrap_err_def catch_def split: if_splits)
    then show ?thesis
      using g Err pods.Get_not_found [OF assms(1), of ?n] by (simp add: attached_disks_def)
  next
    case (Panic p)
    with g pods.no_panic(4) show ?thesis by blast
  qed
qed

end

end
