(* ===== verification/WaitLoop.thy ===== *)
theory WaitLoop
  imports Client
begin

text \<open>
  The \<^verbatim>\<open>for { select { ... } }\<close> loops of \<^verbatim>\<open>waitForPod\<close>, \<^verbatim>\<open>waitForDisk\<close> and
  \<^verbatim>\<open>waitForDeployment\<close>: receive watch events until one shows the object ready, an event is not a
  modification of the watched type, or the timer fires.

  \<open>wait_loop\<close> is the loop over the events received before the timer's branch is taken, \<open>timed_wait\<close> the
  loop over events that arrive at given times, with the timeout the caller chose. \<open>select_step\<close>
  is the same loop as a step relation in which events and the expiry arrive at any time and
  \<^verbatim>\<open>select\<close> picks any branch that is enabled; the two are shown to agree. A closed channel delivers
  the zero event, whose type is the empty string.
\<close>

record 'o wait_spec =
  ws_ready :: "'o \<Rightarrow> bool res" \<comment> \<open>the readiness test\<close>
  ws_unexpected :: string \<comment> \<open>prefix of the message for another event type\<close>
  ws_timeout :: string \<comment> \<open>message of the timer branch\<close>

text \<open>What one event decides: an outcome, or nothing yet.\<close>

definition on_event :: "'o wait_spec \<Rightarrow> 'o event \<Rightarrow> unit res option" where
  "on_event W ev =
     (if ev_Type ev = Modified then
        (case ev_Object ev of
           OtherObject t \<Rightarrow> Some (Err (PlainError (''Unexpected object type: '' @ t)))
         | Obj ob \<Rightarrow>
             (case ws_ready W ob of
                Ok b \<Rightarrow> if b then Some (Ok ()) else None
              | Err e \<Rightarrow> Some (Err e)
              | Panic p \<Rightarrow> Some (Panic p)))
      else Some (Err (PlainError (ws_unexpected W @ ev_Type ev))))"

definition on_timeout :: "'o wait_spec \<Rightarrow> unit res" where
  "on_timeout W = Err (PlainError (ws_timeout W))"

fun wait_loop :: "'o wait_spec \<Rightarrow> 'o event list \<Rightarrow> unit res" where
  "wait_loop W [] = on_timeout W"
| "wait_loop W (ev # evs) = (case on_event W ev of Some r \<Rightarrow> r | None \<Rightarrow> wait_loop W evs)"

text \<open>The timer is started before the watch; it fires once \<open>timeout\<close> nanoseconds have passed, at once when
  the duration is not positive. The events that arrive earlier are received.\<close>

definition before_timer :: "Duration \<Rightarrow> (int \<times> 'o event) list \<Rightarrow> 'o event list" where
  "before_timer timeout evs = map snd (takeWhile (\<lambda>(arrival, _). arrival < sint timeout) evs)"

definition timed_wait :: "'o wait_spec \<Rightarrow> Duration \<Rightarrow> (int \<times> 'o event) list \<Rightarrow> unit res" where
  "timed_wait W timeout evs = wait_loop W (before_timer timeout evs)"

section \<open>The loop as a step relation\<close>

record 'o waiting =
  w_channel :: "'o event list" \<comment> \<open>delivered, not yet received\<close>
  w_expired :: bool \<comment> \<open>the timer's channel is ready\<close>
  w_taken :: "'o event list" \<comment> \<open>received so far\<close>
  w_result :: "unit res option" \<comment> \<open>what the function returned\<close>

definition wait_start :: "'o waiting" where
  "wait_start = \<lparr>w_channel = [], w_expired = False, w_taken = [], w_result = None\<rparr>"

inductive select_step :: "'o wait_spec \<Rightarrow> 'o waiting \<Rightarrow> 'o waiting \<Rightarrow> bool" for W where
  deliver: "select_step W s (s\<lparr>w_channel := w_channel s @ [ev]\<rparr>)"
| expire: "select_step W s (s\<lparr>w_expired := True\<rparr>)"
| receive: "w_result s = None \<Longrightarrow> w_channel s = ev # evs \<Longrightarrow>
    select_step W s (s\<lparr>w_channel := evs, w_taken := w_taken s @ [ev], w_result := on_event W ev\<rparr>)"
| time_out: "w_result s = None \<Longrightarrow> w_expired s \<Longrightarrow> select_step W s (s\<lparr>w_result := Some (on_timeout W)\<rparr>)"

inductive_cases select_stepE: "select_step W s t"

inductive wait_reachable :: "'o wait_spec \<Rightarrow> 'o waiting \<Rightarrow> bool" for W where
  start: "wait_reachable W wait_start"
| step: "wait_reachable W s \<Longrightarrow> select_step W s t \<Longrightarrow> wait_reachable W t"

text \<open>While the loop runs every received event was undecided; once it has returned, its result is
  that of \<open>wait_loop\<close> on the received events.\<close>

definition wait_inv :: "'o wait_spec \<Rightarrow> 'o waiting \<Rightarrow> bool" where
  "wait_inv W s =
     (case w_result s of
        None \<Rightarrow> list_all (\<lambda>ev. on_event W ev = None) (w_taken s)
      | Some r \<Rightarrow> r = wait_loop W (w_taken s))"

lemma wait_loop_undecided:
  "list_all (\<lambda>ev. on_event W ev = None) evs \<Longrightarrow> wait_loop W (evs @ rest) = wait_loop W rest"
  by (induction evs) auto

lemma wait_loop_timeout: "list_all (\<lambda>ev. on_event W ev = None) evs \<Longrightarrow> wait_loop W evs = on_timeout W"
  using wait_loop_undecided [of W evs "[]"] by simp

lemma select_step_inv: "select_step W s t \<Longrightarrow> wait_inv W s \<Longrightarrow> wait_inv W t"
proof (induction rule: select_step.induct)
  case (receive s ev evs)
  then show ?case
    by (auto simp: wait_inv_def wait_loop_undecided split: option.splits)
next
  case (time_out s)
  then show ?case
    by (auto simp: wait_inv_def wait_loop_timeout split: option.splits)
qed (auto simp: wait_inv_def split: option.splits)

lemma wait_reachable_inv: "wait_reachable W s \<Longrightarrow> wait_inv W s"
proof (induction rule: wait_reachable.induct)
  case start
  show ?case by (simp add: wait_inv_def wait_start_def)
next
  case (step s t)
  then show ?case by (blast intro: select_step_inv)
qed

lemma wait_result_correct: "wait_reachable W s \<Longrightarrow> w_result s = Some r \<Longrightarrow> r = wait_loop W (w_taken s)"
  using wait_reachable_inv [of W s] by (simp add: wait_inv_def)

text \<open>No run is stuck: once the timer has expired, or an event is waiting, the loop can move.\<close>

lemma wait_progress:
  "w_result s = None \<Longrightarrow> w_expired s \<or> w_channel s \<noteq> [] \<Longrightarrow>
     \<exists>t. select_step W s t \<and> (w_result t \<noteq> None \<or> length (w_channel t) < length (w_channel s))"
proof (cases "w_channel s")
  case (Cons ev evs)
  assume "w_result s = None"
  then have "select_step W s (s\<lparr>w_channel := evs, w_taken := w_taken s @ [ev], w_result := on_event W ev\<rparr>)"
    using Cons by (rule select_step.receive)
  with Cons show ?thesis by fastforce
next
  case Nil
  assume "w_result s = None" and "w_expired s \<or> w_channel s \<noteq> []"
  with Nil have "select_step W s (s\<lparr>w_result := Some (on_timeout W)\<rparr>)"
    by (intro select_step.time_out) auto
  then show ?thesis by fastforce
qed

text \<open>Every result of \<open>wait_loop\<close> is the result of a run of the step relation.\<close>

lemma wait_run_prefix:
  "list_all (\<lambda>ev. on_event W ev = None) evs \<Longrightarrow>
     wait_reachable W \<lparr>w_channel = [], w_expired = False, w_taken = evs, w_result = None\<rparr>"
proof (induction evs rule: rev_induct)
  case Nil
  show ?case using wait_reachable.start by (simp add: wait_start_def)
next
  case (snoc ev evs)
  let ?s = "\<lparr>w_channel = [], w_expired = False, w_taken = evs, w_result = None\<rparr>"
  have "wait_reachable W (?s\<lparr>w_channel := [] @ [ev]\<rparr>)"
    using snoc wait_reachable.step [OF _ select_step.deliver [of W ?s ev]] by simp
  from wait_reachable.step [OF this select_step.receive [of _ ev "[]"]] snoc show ?case
    by simp
qed

lemma wait_loop_realised: "\<exists>s. wait_reachable W s \<and> w_result s = Some (wait_loop W evs)"
proof -
  let ?p = "takeWhile (\<lambda>ev. on_event W ev = None) evs"
  let ?s = "\<lparr>w_channel = [], w_expired = False, w_taken = ?p, w_result = None\<rparr>"
  have und: "list_all (\<lambda>ev. on_event W ev = None) ?p"
    by (auto simp: list_all_iff dest: set_takeWhileD)
  have s: "wait_reachable W ?s" by (rule wait_run_prefix [OF und])
  show ?thesis
  proof (cases "dropWhile (\<lambda>ev. on_event W ev = None) evs")
    case Nil
    then have "?p = evs"
      using takeWhile_dropWhile_id [of "\<lambda>ev. on_event W ev = None" evs] by simp
    with und have "wait_loop W evs = on_timeout W"
      by (simp add: wait_loop_timeout)
    moreover have "wait_reachable W (?s\<lparr>w_expired := True\<rparr>)"
      by (rule wait_reachable.step [OF s select_step.expire])
    from wait_reachable.step [OF this select_step.time_out]
    have "wait_reachable W (?s\<lparr>w_expired := True, w_result := Some (on_timeout W)\<rparr>)" by simp
    ultimately show ?thesis by (intro exI) auto
  next
    case (Cons ev rest)
    then have "on_event W ev \<noteq> None"
      using hd_dropWhile [of "\<lambda>ev. on_event W ev = None" evs] by simp
    then obtain r where r: "on_event W ev = Some r" by blast
    have "wait_loop W evs = wait_loop W (?p @ ev # rest)"
      using Cons takeWhile_dropWhile_id [of "\<lambda>ev. on_event W ev = None" evs] by simp
    then have "wait_loop W evs = r"
      using und r by (simp add: wait_loop_undecided)
    moreover have "wait_reachable W (?s\<lparr>w_channel := [] @ [ev]\<rparr>)"
      using wait_reachable.step [OF s select_step.deliver [of W ?s ev]] by simp
    from wait_reachable.step [OF this select_step.receive [of _ ev "[]"]]
    have "wait_reachable W (?s\<lparr>w_taken := ?p @ [ev], w_result := on_event W ev\<rparr>)" by simp
    ultimately show ?thesis using r by (intro exI) auto
  qed
qed

section \<open>What the loop returns\<close>

lemma wait_loop_Ok_iff:
  "wait_loop W evs = Ok () \<longleftrightarrow>
     (\<exists>pre ev post. evs = pre @ ev # post \<and> list_all (\<lambda>e. on_event W e = None) pre \<and> on_event W ev = Some (Ok ()))"
proof (induction evs)
  case Nil
  then show ?case by (simp add: on_timeout_def)
next
  case (Cons e evs)
  show ?case
  proof (cases "on_event W e")
    case None
    have "(\<exists>pre ev post. e # evs = pre @ ev # post \<and> list_all (\<lambda>e. on_event W e = None) pre \<and> on_event W ev = Some (Ok ()))
      \<longleftrightarrow> (\<exists>pre ev post. evs = pre @ ev # post \<and> list_all (\<lambda>e. on_event W e = None) pre \<and> on_event W ev = Some (Ok ()))"
      (is "?l = ?r")
    proof
      assume ?l
      then obtain pre ev post where "e # evs = pre @ ev # post"
        "list_all (\<lambda>e. on_event W e = None) pre" "on_event W ev = Some (Ok ())" by blast
      with None show ?r by (cases pre) auto
    next
      assume ?r
      then obtain pre ev post where "evs = pre @ ev # post"
        "list_all (\<lambda>e. on_event W e = None) pre" "on_event W ev = Some (Ok ())" by blast
      with None show ?l by (intro exI [of _ "e # pre"]) auto
    qed
    with None Cons show ?thesis by simp
  next
    case (Some r)
    have "\<not> list_all (\<lambda>e. on_event W e = None) pre" if "e # evs = pre @ ev # post" "pre \<noteq> []" for pre ev post
      using that Some by (cases pre) auto
    with Some show ?thesis
      by (auto intro: exI [of _ "[]"]) (metis append_Nil list.inject option.inject)
  qed
qed

lemma on_event_Ok:
  "on_event W ev = Some (Ok ()) \<longleftrightarrow>
     ev_Type ev = Modified \<and> (\<exists>ob. ev_Object ev = Obj ob \<and> ws_ready W ob = Ok True)"
  by (auto simp: on_event_def split: event_object.splits res.splits)

text \<open>The first event that decides anything decides the outcome.\<close>

lemma wait_loop_find:
  "wait_loop W evs = (case find (\<lambda>e. on_event W e \<noteq> None) evs of None \<Rightarrow> on_timeout W | Some e \<Rightarrow> the (on_event W e))"
  by (induction evs) (auto split: option.splits)

section \<open>The deadline\<close>

text \<open>In a schedule ordered by arrival, the events received are those that arrive in time.\<close>

lemma before_timer_sorted:
  "sorted (map fst evs) \<Longrightarrow> before_timer timeout evs = map snd (filter (\<lambda>(arrival, _). arrival < sint timeout) evs)"
proof (induction evs)
  case (Cons e evs)
  obtain arrival ev where e: "e = (arrival, ev)" by fastforce
  show ?case
  proof (cases "arrival < sint timeout")
    case True
    with Cons e show ?thesis by (simp add: before_timer_def)
  next
    case False
    have "arrival \<le> fst x" if "x \<in> set evs" for x
      using Cons.prems e that by simp
    with False have "filter (\<lambda>(arrival, _). arrival < sint timeout) evs = []"
      by (fastforce simp: filter_empty_conv)
    with False e show ?thesis by (simp add: before_timer_def)
  qed
qed (simp add: before_timer_def)

text \<open>A timer that is not set for the future fires before any event.\<close>

lemma timed_wait_expired:
  "sint timeout \<le> 0 \<Longrightarrow> list_all (\<lambda>(arrival, _). 0 \<le> arrival) evs \<Longrightarrow> timed_wait W timeout evs = on_timeout W"
  by (cases evs) (auto simp: timed_wait_def before_timer_def)

text \<open>In a schedule ordered by arrival, success is a deciding event in time with only undecided ones
  before it.\<close>

lemma before_timer_prefix:
  assumes "sorted (map fst evs)" and "before_timer timeout evs = pre @ ev # post"
  shows "\<exists>epre arrival epost. evs = epre @ (arrival, ev) # epost \<and> map snd epre = pre \<and> arrival < sint timeout"
proof -
  let ?tk = "takeWhile (\<lambda>(arrival, _). arrival < sint timeout) evs"
  have "map snd ?tk = pre @ ev # post" using assms(2) by (simp add: before_timer_def)
  then obtain epre x where tk: "?tk = epre @ x" "map snd epre = pre" "map snd x = ev # post"
    by (auto simp: map_eq_append_conv)
  then obtain arrival epost where x: "x = (arrival, ev) # epost" by (cases x) auto
  have "(arrival, ev) \<in> set ?tk" using tk(1) x by simp
  then have "arrival < sint timeout" by (auto dest: set_takeWhileD)
  moreover have "evs = epre @ (arrival, ev) # (epost @ dropWhile (\<lambda>(arrival, _). arrival < sint timeout) evs)"
    using takeWhile_dropWhile_id [of "\<lambda>(arrival, _). arrival < sint timeout" evs] tk(1) x by simp
  ultimately show ?thesis using tk(2) by blast
qed

lemma before_timer_in_time:
  assumes "sorted (map fst (epre @ (arrival, ev) # epost))" and "arrival < sint timeout"
  shows "\<exists>post. before_timer timeout (epre @ (arrival, ev) # epost) = map snd epre @ ev # post"
proof -
  have "\<forall>x \<in> set epre. fst x < sint timeout"
    using assms by (fastforce simp: sorted_append)
  then have "takeWhile (\<lambda>(arrival, _). arrival < sint timeout) (epre @ (arrival, ev) # epost) =
      epre @ (arrival, ev) # takeWhile (\<lambda>(arrival, _). arrival < sint timeout) epost"
    using assms(2) by (subst takeWhile_append2) auto
  then show ?thesis by (simp add: before_timer_def)
qed

lemma timed_wait_Ok_iff:
  assumes "sorted (map fst evs)"
  shows "timed_wait W timeout evs = Ok () \<longleftrightarrow>
     (\<exists>pre arrival ev post. evs = pre @ (arrival, ev) # post \<and> arrival < sint timeout \<and>
        list_all (\<lambda>(_, e). on_event W e = None) pre \<and> on_event W ev = Some (Ok ()))"
    (is "?l = ?r")
proof
  assume ?l
  then obtain pre ev post where "before_timer timeout evs = pre @ ev # post"
    "list_all (\<lambda>e. on_event W e = None) pre" "on_event W ev = Some (Ok ())"
    unfolding timed_wait_def wait_loop_Ok_iff by blast
  moreover from before_timer_prefix [OF assms this(1)] obtain epre arrival epost
    where "evs = epre @ (arrival, ev) # epost" "map snd epre = pre" "arrival < sint timeout" by blast
  moreover from calculation have "list_all (\<lambda>(_, e). on_event W e = None) epre"
    by (fastforce simp: list_all_iff)
  ultimately show ?r by blast
next
  assume ?r
  then obtain pre arrival ev post where *: "evs = pre @ (arrival, ev) # post" "arrival < sint timeout"
    "list_all (\<lambda>(_, e). on_event W e = None) pre" "on_event W ev = Some (Ok ())" by blast
  then obtain rest where "before_timer timeout evs = map snd pre @ ev # rest"
    using before_timer_in_time [of pre arrival ev post timeout] assms by blast
  with * show ?l
    unfolding timed_wait_def wait_loop_Ok_iff
    by (intro exI [of _ "map snd pre"]) (auto simp: list_all_iff case_prod_beta)
qed

end
