(* ===== verification/CreateVM.thy ===== *)
theory CreateVM
  imports FindActions WaitLoop
begin

text \<open>
  \<^verbatim>\<open>actions/create_vm.go\<close>: a VM is a config map with the agent's settings, the services and secrets
  of its cloud properties, and a pod, or a deployment when a number of replicas is given. The steps
  run one after the other and the first error ends the call; what was created before stays.

  \<^verbatim>\<open>resource.ParseQuantity\<close> and \<^verbatim>\<open>ioutil.ReadFile\<close> are parameters. The mutex of \<^verbatim>\<open>createServices\<close>
  is made anew for every service, so it excludes nobody and has no counterpart here.
\<close>

section \<open>Requests\<close>

record Port =
  pt_Name :: string
  pt_NodePort :: int32
  pt_Port :: int32
  pt_Protocol :: string
  pt_TargetPort :: int64

record Service =
  sv_Name :: string
  sv_Type :: string
  sv_ClusterIP :: string
  sv_Ports :: "Port list"
  sv_Selector :: "smap option"
  sv_LoadBalancerIP :: string
  sv_ExternalIPs :: "string list option"
  sv_Backend :: "json option"
  sv_TLS :: "json list"
  sv_Rules :: "json list"

record Secret =
  sr_Name :: string
  sr_Type :: string
  sr_Annotations :: "smap option"
  sr_Data :: smap
  sr_StringData :: "smap option"

type_synonym ResourceList = "smap option"

record Resources =
  rs_Limits :: ResourceList
  rs_Requests :: ResourceList

record VMCloudProperties =
  cp_Context :: string
  cp_Services :: "Service list"
  cp_Secrets :: "Secret list"
  cp_Resources :: Resources
  cp_Replicas :: "int32 option"

type_synonym Environment = "(string, json) gomap option"

record 's VMCreator =
  vmc_AgentConfig :: AgentConfig
  vmc_ClientProvider :: "'s provider"
  vmc_DeploymentReadyTimeout :: Duration

section \<open>Settings\<close>

definition getNetwork :: "Networks \<Rightarrow> Network res" where
  "getNetwork networks =
     (case networks of
        [] \<Rightarrow> Err (PlainError ''a network is required'')
      | [(_, nw)] \<Rightarrow> Ok nw
      | _ \<Rightarrow> Err (PlainError ''multiple networks not supported''))"

fun agent_networks :: "Networks \<Rightarrow> (string, AgentNetwork) gomap \<Rightarrow> (string, AgentNetwork) gomap res" where
  "agent_networks [] agentNetworks = Ok agentNetworks"
| "agent_networks ((name, cpiNetwork) # networks) agentNetworks =
     res_then (res_wrap ''Remarshalling network'' (Remarshal (enc_Network cpiNetwork) dec_AgentNetwork)) (\<lambda>agentNetwork.
       agent_networks networks (gput name (agentNetwork\<lparr>an_Preconfigured := True\<rparr>) agentNetworks))"

text \<open>An \<^verbatim>\<open>Environment\<close> in an \<^verbatim>\<open>interface{}\<close> field is never left out: a nil map is encoded as null.\<close>

definition enc_Environment :: "Environment \<Rightarrow> json" where
  "enc_Environment env = enc_map_opt (\<lambda>j. j) env"

definition InstanceSettings :: "'s VMCreator \<Rightarrow> string \<Rightarrow> Networks \<Rightarrow> Environment \<Rightarrow> Settings res" where
  "InstanceSettings vmc agentID networks env =
     res_then (agent_networks networks []) (\<lambda>agentNetworks.
       Ok \<lparr>st_AgentID = agentID, st_Disks = \<lparr>Persistent = None\<rparr>, st_Networks = Some agentNetworks,
           st_MessageBus = ac_MessageBus (vmc_AgentConfig vmc),
           st_NTPServers = ac_NTPServers (vmc_AgentConfig vmc), st_VM = agentID,
           st_Blobstore = ac_Blobstore (vmc_AgentConfig vmc),
           st_Env = Some (enc_Environment env)\<rparr>)"

section \<open>Namespace and config map\<close>

definition createNamespace :: "'s client \<Rightarrow> string \<Rightarrow> ('s, unit) act" where
  "createNamespace client ns =
     catch (if_Get (Namespaces client) ns) (\<lambda>_. ret ())
       (\<lambda>_. catch (if_Create (Namespaces client) \<lparr>ns_Meta = zero_ObjectMeta\<lparr>meta_Name := ns\<rparr>\<rparr>) (\<lambda>_. ret ())
              (\<lambda>e. if has_reason StatusReasonAlreadyExists e then ret () else fail e))"

text \<open>The metadata of the objects made for an agent.\<close>

definition agent_labels :: "string \<Rightarrow> smap" where
  "agent_labels agentID = [(agent_id_key, agentID)]"

definition agent_meta :: "string \<Rightarrow> string \<Rightarrow> string \<Rightarrow> ObjectMeta" where
  "agent_meta name ns agentID =
     zero_ObjectMeta\<lparr>meta_Name := name, meta_Namespace := ns, meta_Labels := Some (agent_labels agentID)\<rparr>"

definition createConfigMap ::
    "('s, ConfigMap) iface \<Rightarrow> string \<Rightarrow> string \<Rightarrow> Settings \<Rightarrow> ('s, ConfigMap) act" where
  "createConfigMap configMapService ns agentID instanceSettings =
     if_Create configMapService
       \<lparr>cm_Meta = agent_meta (''agent-'' @ agentID) ns agentID,
        cm_Data = [(''instance_settings'', marshal_Settings instanceSettings)]\<rparr>"

section \<open>Services\<close>

definition service_type :: "string \<Rightarrow> string" where
  "service_type ty =
     (if ty = ''NodePort'' then ''NodePort''
      else if ty = ''LoadBalancer'' then ''LoadBalancer''
      else ''ClusterIP'')"

definition service_port :: "Port \<Rightarrow> ServicePort" where
  "service_port port =
     \<lparr>sp_Name = pt_Name port, sp_Protocol = pt_Protocol port, sp_Port = pt_Port port,
      sp_NodePort = pt_NodePort port, sp_TargetPort = FromInt (pt_TargetPort port)\<rparr>"

definition service_object :: "string \<Rightarrow> string \<Rightarrow> Service \<Rightarrow> KubeService" where
  "service_object ns agentID svc =
     \<lparr>svc_Meta = agent_meta (sv_Name svc) ns agentID,
      svc_Type = service_type (sv_Type svc),
      svc_ClusterIP = sv_ClusterIP svc,
      svc_Ports = map service_port (sv_Ports svc),
      svc_ExternalIPs = sv_ExternalIPs svc,
      svc_LoadBalancerIP =
        (if service_type (sv_Type svc) = ''LoadBalancer'' \<and> sv_LoadBalancerIP svc \<noteq> []
         then sv_LoadBalancerIP svc else []),
      svc_Selector =
        (case sv_Selector svc of
           Some (e # es) \<Rightarrow> Some (e # es)
         | _ \<Rightarrow> Some (agent_labels agentID))\<rparr>"

definition ingress_object :: "string \<Rightarrow> string \<Rightarrow> Service \<Rightarrow> Ingress" where
  "ingress_object ns agentID svc =
     \<lparr>ing_Meta = agent_meta (sv_Name svc) ns agentID, ing_Backend = sv_Backend svc,
      ing_TLS = sv_TLS svc, ing_Rules = sv_Rules svc\<rparr>"

text \<open>One round of the loop: an ingress is created, a service only when it cannot be read.\<close>

definition createService :: "'s client \<Rightarrow> string \<Rightarrow> string \<Rightarrow> Service \<Rightarrow> ('s, unit) act" where
  "createService client ns agentID svc =
     (if sv_Type svc = ''Ingress''
      then and_then (if_Create (IngressService client) (ingress_object ns agentID svc)) (\<lambda>_. ret ())
      else catch (if_Get (Services client) (sv_Name svc)) (\<lambda>_. ret ())
             (\<lambda>_. and_then (wrap_err ''Creating service''
                             (if_Create (Services client) (service_object ns agentID svc))) (\<lambda>_. ret ())))"

definition createServices :: "'s client \<Rightarrow> string \<Rightarrow> string \<Rightarrow> Service list \<Rightarrow> ('s, unit) act" where
  "createServices client ns agentID services = for_each (createService client ns agentID) services"

section \<open>Secrets\<close>

definition secret_type :: "string \<Rightarrow> string" where
  "secret_type ty =
     (if ty = ''DockerCfg'' then ''kubernetes.io/dockercfg''
      else if ty = ''ServiceAccountToken'' then ''kubernetes.io/service-account-token''
      else if ty = ''TLS'' then ''kubernetes.io/tls''
      else ''Opaque'')"

fun secret_data :: "(string \<Rightarrow> ('s, string) act) \<Rightarrow> smap \<Rightarrow> smap \<Rightarrow> ('s, smap) act" where
  "secret_data ReadFile [] dat = ret dat"
| "secret_data ReadFile ((k, w) # entries) dat =
     (if k = ''.dockercfg''
      then and_then (wrap_err (''Reading dockerfile '' @ w) (ReadFile w)) (\<lambda>bytes.
             secret_data ReadFile entries (gput k bytes dat))
      else secret_data ReadFile entries (gput k w dat))"

definition secret_object :: "string \<Rightarrow> string \<Rightarrow> Secret \<Rightarrow> smap \<Rightarrow> KubeSecret" where
  "secret_object ns agentID srt dat =
     \<lparr>sec_Meta = (agent_meta (sr_Name srt) ns agentID)\<lparr>meta_Annotations := sr_Annotations srt\<rparr>,
      sec_Data = dat, sec_StringData = sr_StringData srt, sec_Type = secret_type (sr_Type srt)\<rparr>"

definition createOneSecret ::
    "(string \<Rightarrow> ('s, string) act) \<Rightarrow> 's client \<Rightarrow> string \<Rightarrow> string \<Rightarrow> Secret \<Rightarrow> ('s, unit) act" where
  "createOneSecret ReadFile client ns agentID srt =
     catch (if_Get (Secrets client ns) (sr_Name srt))
       (\<lambda>_. fail (PlainError (''Secret name '' @ sr_Name srt @ '' already exists.'')))
       (\<lambda>_. and_then (secret_data ReadFile (sr_Data srt) []) (\<lambda>dat.
              and_then (wrap_err ''Creating secret by client''
                         (if_Create (Secrets client ns) (secret_object ns agentID srt dat))) (\<lambda>_. ret ())))"

definition createSecret ::
    "(string \<Rightarrow> ('s, string) act) \<Rightarrow> 's client \<Rightarrow> string \<Rightarrow> string \<Rightarrow> Secret list \<Rightarrow> ('s, unit) act" where
  "createSecret ReadFile client ns agentID secrets = for_each (createOneSecret ReadFile client ns agentID) secrets"

section \<open>Resources\<close>

definition kubeResourceName :: "string \<Rightarrow> string res" where
  "kubeResourceName name =
     (if name = ''memory'' then Ok ''memory''
      else if name = ''cpu'' then Ok ''cpu''
      else Err (PlainError (name @ '' is not a supported resource type'')))"

fun resource_entries ::
    "(string \<Rightarrow> quantity res) \<Rightarrow> smap \<Rightarrow> (string, quantity) gomap \<Rightarrow> (string, quantity) gomap res" where
  "resource_entries ParseQuantity [] acc = Ok acc"
| "resource_entries ParseQuantity ((k, w) # entries) acc =
     res_then (res_wrap ''Parsing quantity'' (ParseQuantity w)) (\<lambda>q.
     res_then (res_wrap ''Getting kube resource name'' (kubeResourceName k)) (\<lambda>name.
       resource_entries ParseQuantity entries (gput name q acc)))"

definition getResourceList ::
    "(string \<Rightarrow> quantity res) \<Rightarrow> ResourceList \<Rightarrow> (string, quantity) gomap option res" where
  "getResourceList ParseQuantity resourceList =
     (case resourceList of
        None \<Rightarrow> Ok None
      | Some entries \<Rightarrow> res_then (resource_entries ParseQuantity entries []) (\<lambda>l. Ok (Some l)))"

definition getPodResourceRequirements ::
    "(string \<Rightarrow> quantity res) \<Rightarrow> Resources \<Rightarrow> ResourceRequirements res" where
  "getPodResourceRequirements ParseQuantity resources =
     res_then (res_wrap ''Getting pod resource requirements'' (getResourceList ParseQuantity (rs_Limits resources))) (\<lambda>limits.
     res_then (res_wrap ''Getting resource list'' (getResourceList ParseQuantity (rs_Requests resources))) (\<lambda>requests.
       Ok \<lparr>rr_Limits = limits, rr_Requests = requests\<rparr>))"

text \<open>Only the two supported names get through, and every entry does.\<close>

lemma kubeResourceName_Ok: "kubeResourceName n = Ok m \<longleftrightarrow> m = n \<and> n \<in> {''cpu'', ''memory''}"
  by (auto simp: kubeResourceName_def)

lemma resource_entries_keys:
  "resource_entries ParseQuantity entries acc = Ok out \<Longrightarrow>
     fst ` set entries \<subseteq> {''cpu'', ''memory''} \<and> fst ` set out = fst ` set acc \<union> fst ` set entries"
proof (induction ParseQuantity entries acc rule: resource_entries.induct)
  case (2 ParseQuantity k w entries acc)
  then obtain q where "ParseQuantity w = Ok q" and k: "k \<in> {''cpu'', ''memory''}"
    and r: "resource_entries ParseQuantity entries (gput k q acc) = Ok out"
    by (auto simp: res_then_Ok res_wrap_Ok kubeResourceName_Ok)
  then show ?case
    using 2(1) [of k q] by (simp add: res_wrap_Ok kubeResourceName_Ok keys_gput)
qed simp

section \<open>Pod and deployment\<close>

definition agent_container :: "string \<Rightarrow> ResourceRequirements \<Rightarrow> Container" where
  "agent_container img resourceReqs =
     \<lparr>ct_Name = ''bosh-job'', ct_Image = img, ct_ImagePullPolicy = ''Always'',
      ct_Command = [''/usr/sbin/runsvdir-start''], ct_Args = [], ct_Resources = resourceReqs,
      ct_Privileged = Some True, ct_RunAsUser = Some 0,
      ct_VolumeMounts =
        [\<lparr>vm_Name = ''bosh-config'', vm_MountPath = ''/var/vcap/bosh/instance_settings.json'',
          vm_SubPath = ''instance_settings.json''\<rparr>,
         \<lparr>vm_Name = ''bosh-ephemeral'', vm_MountPath = ''/var/vcap/data'', vm_SubPath = []\<rparr>]\<rparr>"

definition agent_volumes :: "string \<Rightarrow> Volume list" where
  "agent_volumes agentID =
     [\<lparr>vol_Name = ''bosh-config'',
       vol_Source = ConfigMapSource (''agent-'' @ agentID) [(''instance_settings'', ''instance_settings.json'')]\<rparr>,
      \<lparr>vol_Name = ''bosh-ephemeral'', vol_Source = EmptyDirSource\<rparr>]"

definition agent_pod_spec :: "string \<Rightarrow> string \<Rightarrow> ResourceRequirements \<Rightarrow> PodSpec" where
  "agent_pod_spec agentID img resourceReqs =
     \<lparr>ps_Hostname = agentID, ps_Containers = [agent_container img resourceReqs],
      ps_Volumes = agent_volumes agentID\<rparr>"

definition ip_annotations :: "Network \<Rightarrow> smap" where
  "ip_annotations network = (if nw_IP network \<noteq> [] then [(''bosh.cloudfoundry.org/ip-address'', nw_IP network)] else [])"

definition createPod ::
    "(string \<Rightarrow> quantity res) \<Rightarrow> ('s, Pod) iface \<Rightarrow> string \<Rightarrow> string \<Rightarrow> string \<Rightarrow> Network \<Rightarrow> Resources \<Rightarrow> ('s, Pod) act" where
  "createPod ParseQuantity podClient ns agentID img network resources =
     and_then (wrap_err ''Getting pod resource requirements''
                (lift_res (getPodResourceRequirements ParseQuantity resources))) (\<lambda>resourceReqs.
       if_Create podClient
         \<lparr>pod_Meta = (agent_meta (''agent-'' @ agentID) ns agentID)\<lparr>meta_Annotations := Some (ip_annotations network)\<rparr>,
          pod_Spec = agent_pod_spec agentID img resourceReqs,
          pod_Status = zero_PodStatus\<rparr>)"

definition nil_deref_panic :: string where
  "nil_deref_panic = ''invalid memory address or nil pointer dereference''"

definition isDeploymentReady :: "Deployment \<Rightarrow> bool res" where
  "isDeploymentReady deployment =
     (if sint (dep_ObservedGeneration deployment) \<ge> sint (meta_Generation (dep_Meta deployment))
      then (case dep_Replicas deployment of
              None \<Rightarrow> Panic nil_deref_panic
            | Some n \<Rightarrow> Ok (dep_AvailableReplicas deployment = n))
      else Ok False)"

definition deployment_wait :: "Deployment wait_spec" where
  "deployment_wait = \<lparr>ws_ready = isDeploymentReady,
     ws_unexpected = ''Unexpected deployment watch event: '',
     ws_timeout = ''Deployment creation failed with a timeout.''\<rparr>"

definition waitForDeployment :: "'s VMCreator \<Rightarrow> ('s, Deployment) iface \<Rightarrow> string \<Rightarrow> string \<Rightarrow> ('s, unit) act" where
  "waitForDeployment vmc deploymentService agentId resourceVersion =
     and_then (wrap_err ''Parsing disk selector'' (lift_res (selector_for agent_id_key agentId))) (\<lambda>diskSelector.
     and_then (wrap_err ''Watching deployment''
                (if_Watch deploymentService
                   \<lparr>lo_LabelSelector = diskSelector, lo_ResourceVersion = resourceVersion, lo_Watch = True\<rparr>)) (\<lambda>events.
       lift_res (timed_wait deployment_wait (vmc_DeploymentReadyTimeout vmc) events)))"

definition ProgressDeadlineSeconds :: int32 where
  "ProgressDeadlineSeconds = 30"

text \<open>The address annotation the source computes here is not used in the object.\<close>

definition createDeployment ::
    "(string \<Rightarrow> quantity res) \<Rightarrow> 's VMCreator \<Rightarrow> ('s, Deployment) iface \<Rightarrow> string \<Rightarrow> string \<Rightarrow> string \<Rightarrow> Network \<Rightarrow>
      VMCloudProperties \<Rightarrow> ('s, Deployment) act" where
  "createDeployment ParseQuantity vmc deploymentClient ns agentID img network cloudProps =
     and_then (lift_res (getPodResourceRequirements ParseQuantity (cp_Resources cloudProps))) (\<lambda>resourceReqs.
     and_then (wrap_err ''Creating deployment''
        (if_Create deploymentClient
           \<lparr>dep_Meta = zero_ObjectMeta\<lparr>meta_Name := ''agent-'' @ agentID, meta_Namespace := ns\<rparr>,
            dep_Replicas = cp_Replicas cloudProps,
            dep_TemplateLabels = Some (agent_labels agentID),
            dep_Template = agent_pod_spec agentID img resourceReqs,
            dep_ProgressDeadlineSeconds = Some ProgressDeadlineSeconds,
            dep_ObservedGeneration = 0, dep_AvailableReplicas = 0\<rparr>)) (\<lambda>deployment.
     and_then (wrap_err ''Waiting for deployment''
        (waitForDeployment vmc deploymentClient agentID (meta_ResourceVersion (dep_Meta deployment)))) (\<lambda>_.
       ret deployment)))"

section \<open>Create\<close>

definition CreateVM ::
    "(string \<Rightarrow> quantity res) \<Rightarrow> (string \<Rightarrow> ('s, string) act) \<Rightarrow> 's VMCreator \<Rightarrow> string \<Rightarrow> string \<Rightarrow>
      VMCloudProperties \<Rightarrow> Networks \<Rightarrow> string list \<Rightarrow> Environment \<Rightarrow> ('s, string) act" where
  "CreateVM ParseQuantity ReadFile vmc agentID stemcellCID cloudProps networks diskCIDs env =
     and_then (wrap_err ''Getting network'' (lift_res (getNetwork networks))) (\<lambda>network.
     and_then (wrap_err ''Creating client'' (lift_res (vmc_ClientProvider vmc (cp_Context cloudProps)))) (\<lambda>client.
     and_then (wrap_err ''Creating namespace'' (createNamespace client (Namespace client))) (\<lambda>_.
     and_then (wrap_err ''Creating instance settings'' (lift_res (InstanceSettings vmc agentID networks env))) (\<lambda>instanceSettings.
     and_then (wrap_err ''Creating config map''
                (createConfigMap (ConfigMaps client) (Namespace client) agentID instanceSettings)) (\<lambda>_.
     and_then (wrap_err ''Creating services''
                (createServices client (Namespace client) agentID (cp_Services cloudProps))) (\<lambda>_.
     and_then (wrap_err ''Creating secret''
                (createSecret ReadFile client (Namespace client) agentID (cp_Secrets cloudProps))) (\<lambda>_.
     and_then
       (case cp_Replicas cloudProps of
          None \<Rightarrow>
            and_then (wrap_err ''Creating pod''
              (createPod ParseQuantity (Pods client) (Namespace client) agentID stemcellCID network
                 (cp_Resources cloudProps))) (\<lambda>_. ret ())
        | Some replicas \<Rightarrow>
            if sint replicas \<ge> 1
            then and_then (wrap_err ''Creating deployment''
                   (createDeployment ParseQuantity vmc (Deployments client) (Namespace client) agentID stemcellCID network
                      cloudProps)) (\<lambda>_. ret ())
            else fail (PlainError ''Invalid number of Replicas specified in Cloud Properties'')) (\<lambda>_.
       ret (NewVMCID (Context client) agentID)))))))))"

section \<open>The settings of a new VM\<close>

text \<open>What the agent sees of a network of the request.\<close>

definition agent_view :: "Network \<Rightarrow> AgentNetwork" where
  "agent_view nw =
     \<lparr>an_Type = nw_Type nw, an_IP = nw_IP nw, an_Netmask = nw_Netmask nw, an_Gateway = nw_Gateway nw,
      an_Default = go_slice (nw_Default nw), an_DNS = go_slice (nw_DNS nw), an_Preconfigured = True\<rparr>"

definition network_ok :: "Network \<Rightarrow> bool" where
  "network_ok nw =
     (case nw_CloudProperties nw of None \<Rightarrow> True | Some m \<Rightarrow> list_all (\<lambda>e. wf_json (snd e)) m)"

lemma wf_enc_Network: "network_ok nw \<Longrightarrow> wf_json (enc_Network nw)"
  by (auto simp: enc_Network_def enc_strings_opt_def enc_map_opt_def network_ok_def list_all_iff
      intro!: wf_enc_map split: option.splits)

lemma Remarshal_Network:
  assumes "network_ok nw"
  shows "Remarshal (enc_Network nw) dec_AgentNetwork = Ok ((agent_view nw)\<lparr>an_Preconfigured := False\<rparr>)"
proof -
  have "parse_json (print_json (enc_Network nw)) = Some (enc_Network nw)"
    by (rule parse_print_json [OF wf_enc_Network [OF assms]])
  then have "Remarshal (enc_Network nw) dec_AgentNetwork = dec_AgentNetwork (enc_Network nw)"
    by (simp add: Remarshal_def json_Unmarshal_def)
  also have "\<dots> = Ok ((agent_view nw)\<lparr>an_Preconfigured := False\<rparr>)"
    by (simp add: enc_Network_def dec_AgentNetwork_def codec_simps agent_view_def zero_AgentNetwork_def
        set_AgentNetwork_def field_is_def ToLower_def lower_char_def is_upper_def)
  finally show ?thesis .
qed

lemma agent_networks_Ok:
  "list_all (\<lambda>e. network_ok (snd e)) networks \<Longrightarrow>
     agent_networks networks acc = Ok (fold (\<lambda>(name, nw). gput name (agent_view nw)) networks acc)"
proof (induction networks arbitrary: acc)
  case (Cons e networks)
  obtain name nw where e: "e = (name, nw)" by fastforce
  have "(agent_view nw)\<lparr>an_Preconfigured := False, an_Preconfigured := True\<rparr> = agent_view nw"
    by (simp add: agent_view_def)
  with Cons e show ?case by (simp add: Remarshal_Network)
qed simp

lemma InstanceSettings_single:
  assumes "network_ok nw"
  shows "InstanceSettings vmc agentID [(name, nw)] env =
    Ok \<lparr>st_AgentID = agentID, st_Disks = \<lparr>Persistent = None\<rparr>, st_Networks = Some [(name, agent_view nw)],
        st_MessageBus = ac_MessageBus (vmc_AgentConfig vmc), st_NTPServers = ac_NTPServers (vmc_AgentConfig vmc),
        st_VM = agentID, st_Blobstore = ac_Blobstore (vmc_AgentConfig vmc), st_Env = Some (enc_Environment env)\<rparr>"
proof -
  have "agent_networks [(name, nw)] [] = Ok [(name, agent_view nw)]"
    using assms agent_networks_Ok [of "[(name, nw)]" "[]"] by (simp add: gput_def)
  then show ?thesis by (simp only: InstanceSettings_def res_then_simps)
qed

text \<open>The untyped parts of a request were decoded, so they are in canonical form.\<close>

definition env_ok :: "Environment \<Rightarrow> bool" where
  "env_ok env = (case env of None \<Rightarrow> True | Some m \<Rightarrow> canon_map m)"

lemma any_ok_env: "env_ok env \<Longrightarrow> any_ok (Some (enc_Environment env))"
  using canonical_sorted_map
  by (auto simp: env_ok_def any_ok_def enc_Environment_def enc_map_opt_def enc_map_def split: option.splits)

lemma InstanceSettings_ok:
  "network_ok nw \<Longrightarrow> env_ok env \<Longrightarrow> any_ok (ac_Blobstore (vmc_AgentConfig vmc)) \<Longrightarrow>
     InstanceSettings vmc agentID [(name, nw)] env = Ok st \<Longrightarrow> Settings_ok st"
  using any_ok_env [of env] by (auto simp: InstanceSettings_single Settings_ok_def map_ok_def gomap_ok_def)

section \<open>Creating only adds\<close>

definition names_given :: "VMCloudProperties \<Rightarrow> bool" where
  "names_given cloudProps =
     (list_all (\<lambda>svc. sv_Name svc \<noteq> []) (cp_Services cloudProps) \<and>
      list_all (\<lambda>srt. sr_Name srt \<noteq> []) (cp_Secrets cloudProps))"

text \<open>Reading a file changes nothing.\<close>

definition file_reader :: "(string \<Rightarrow> ('s, string) act) \<Rightarrow> bool" where
  "file_reader ReadFile = (\<forall>path Q. keeps Q (ReadFile path))"

lemma keeps_for_each_in: "(\<And>x. x \<in> set xs \<Longrightarrow> keeps Q (f x)) \<Longrightarrow> keeps Q (for_each f xs)"
  by (induction xs) (auto intro!: act_intros)

lemma keeps_case_prod [act_intros]: "(\<And>a b. keeps Q (f a b)) \<Longrightarrow> keeps Q (case_prod f p)"
  by (cases p) auto

lemma secret_data_keeps: "(\<And>path. keeps Q (ReadFile path)) \<Longrightarrow> keeps Q (secret_data ReadFile entries dat)"
  by (induction ReadFile entries dat rule: secret_data.induct) (auto intro!: act_intros)

context provided_api
begin

lemma keeps_create_grow:
  "meta_Name (cm_Meta cm) \<noteq> [] \<Longrightarrow> meta_Namespace (cm_Meta cm) = cl_namespace c \<Longrightarrow>
     keeps (\<lambda>s. inv s \<and> cluster_le w (v s)) (if_Create (ConfigMaps c) cm)"
  "meta_Name (pod_Meta pod) \<noteq> [] \<Longrightarrow> meta_Namespace (pod_Meta pod) = cl_namespace c \<Longrightarrow>
     keeps (\<lambda>s. inv s \<and> cluster_le w (v s)) (if_Create (Pods c) pod)"
  "meta_Name (svc_Meta svc) \<noteq> [] \<Longrightarrow> meta_Namespace (svc_Meta svc) = cl_namespace c \<Longrightarrow>
     keeps (\<lambda>s. inv s \<and> cluster_le w (v s)) (if_Create (Services c) svc)"
  "meta_Name (sec_Meta sec) \<noteq> [] \<Longrightarrow> meta_Namespace (sec_Meta sec) = cl_namespace c \<Longrightarrow>
     keeps (\<lambda>s. inv s \<and> cluster_le w (v s)) (if_Create (Secrets c (cl_namespace c)) sec)"
  "meta_Name (dep_Meta dep) \<noteq> [] \<Longrightarrow> meta_Namespace (dep_Meta dep) = cl_namespace c \<Longrightarrow>
     keeps (\<lambda>s. inv s \<and> cluster_le w (v s)) (if_Create (Deployments c) dep)"
  "meta_Name (ing_Meta ing) \<noteq> [] \<Longrightarrow> meta_Namespace (ing_Meta ing) = cl_namespace c \<Longrightarrow>
     keeps (\<lambda>s. inv s \<and> cluster_le w (v s)) (if_Create (IngressService c) ing)"
  "meta_Name (ns_Meta nsob) \<noteq> [] \<Longrightarrow> meta_Namespace (ns_Meta nsob) = [] \<Longrightarrow>
     keeps (\<lambda>s. inv s \<and> cluster_le w (v s)) (if_Create (Namespaces c) nsob)"
  by (rule cms.keeps_Create_grow pods.keeps_Create_grow svcs.keeps_Create_grow secs.keeps_Create_grow
      deps.keeps_Create_grow ings.keeps_Create_grow nss.keeps_Create_grow; (erule (2) cluster_le_step | assumption))+

lemmas keeps_reads = cms.keeps_read pods.keeps_read svcs.keeps_read secs.keeps_read deps.keeps_read
  ings.keeps_read nss.keeps_read

lemma agent_meta_key [simp]:
  "meta_Name (agent_meta n ns a) = n" "meta_Namespace (agent_meta n ns a) = ns"
  "meta_Labels (agent_meta n ns a) = Some (agent_labels a)"
  by (simp_all add: agent_meta_def)

lemma createNamespace_grows: "keeps (\<lambda>s. inv s \<and> cluster_le w (v s)) (createNamespace c (cl_namespace c))"
  unfolding createNamespace_def
  by (intro act_intros keeps_reads keeps_create_grow) (simp_all add: namespace_named zero_ObjectMeta_def)

lemma createConfigMap_grows:
  "keeps (\<lambda>s. inv s \<and> cluster_le w (v s)) (createConfigMap (ConfigMaps c) (cl_namespace c) agentID st)"
  unfolding createConfigMap_def by (intro keeps_create_grow) simp_all

lemma createService_grows:
  "sv_Name svc \<noteq> [] \<Longrightarrow> keeps (\<lambda>s. inv s \<and> cluster_le w (v s)) (createService c (cl_namespace c) agentID svc)"
  unfolding createService_def
  by (intro act_intros keeps_reads keeps_create_grow) (simp_all add: service_object_def ingress_object_def)

lemma createServices_grows:
  "list_all (\<lambda>svc. sv_Name svc \<noteq> []) svcs \<Longrightarrow>
     keeps (\<lambda>s. inv s \<and> cluster_le w (v s)) (createServices c (cl_namespace c) agentID svcs)"
  unfolding createServices_def
  by (intro keeps_for_each_in createService_grows) (auto simp: list_all_iff)

lemma createOneSecret_grows:
  "file_reader ReadFile \<Longrightarrow> sr_Name srt \<noteq> [] \<Longrightarrow>
     keeps (\<lambda>s. inv s \<and> cluster_le w (v s)) (createOneSecret ReadFile c (cl_namespace c) agentID srt)"
  unfolding createOneSecret_def
  by (intro act_intros keeps_reads keeps_create_grow secret_data_keeps) (auto simp: secret_object_def file_reader_def)

lemma createSecret_grows:
  "file_reader ReadFile \<Longrightarrow> list_all (\<lambda>srt. sr_Name srt \<noteq> []) srts \<Longrightarrow>
     keeps (\<lambda>s. inv s \<and> cluster_le w (v s)) (createSecret ReadFile c (cl_namespace c) agentID srts)"
  unfolding createSecret_def
  by (intro keeps_for_each_in createOneSecret_grows) (auto simp: list_all_iff)

lemma createPod_grows:
  "keeps (\<lambda>s. inv s \<and> cluster_le w (v s)) (createPod ParseQuantity (Pods c) (cl_namespace c) agentID img nw rs)"
  unfolding createPod_def by (intro act_intros keeps_create_grow) simp_all

lemma createDeployment_grows:
  "keeps (\<lambda>s. inv s \<and> cluster_le w (v s))
     (createDeployment ParseQuantity vmc (Deployments c) (cl_namespace c) agentID img nw cloudProps)"
  unfolding createDeployment_def waitForDeployment_def
  by (intro act_intros keeps_reads keeps_create_grow) simp_all

lemma CreateVM_grows:
  assumes "vmc_ClientProvider vmc = P" and "cp_Context cloudProps = ctx" and "names_given cloudProps"
    and "file_reader ReadFile"
  shows "keeps (\<lambda>s. inv s \<and> cluster_le w (v s))
    (CreateVM ParseQuantity ReadFile vmc agentID stemcellCID cloudProps networks diskCIDs env)"
  using New assms(1,2,4) assms(3) [unfolded names_given_def, THEN conjunct1]
    assms(3) [unfolded names_given_def, THEN conjunct2]
  by (simp add: CreateVM_def)
    (intro act_intros createNamespace_grows [folded Namespace_def] createConfigMap_grows [folded Namespace_def]
      createServices_grows [folded Namespace_def] createSecret_grows [folded Namespace_def]
      createPod_grows [folded Namespace_def] createDeployment_grows [folded Namespace_def]; assumption)

lemma CreateVM_grows_final:
  assumes "inv s" and "vmc_ClientProvider vmc = P" and "cp_Context cloudProps = ctx" and "names_given cloudProps"
    and "file_reader ReadFile"
  shows "inv (final (CreateVM ParseQuantity ReadFile vmc agentID stemcellCID cloudProps networks diskCIDs env) s) \<and>
    cluster_le (v s) (v (final (CreateVM ParseQuantity ReadFile vmc agentID stemcellCID cloudProps networks diskCIDs env) s))"
  using keeps_final [OF CreateVM_grows [OF assms(2-5)], of s "v s"] assms(1) by simp

section \<open>What a successful call leaves\<close>

lemma grow_step:
  "keeps (\<lambda>s. inv s \<and> cluster_le (v s0) (v s)) m \<Longrightarrow> inv s0 \<Longrightarrow> m s0 = (r, s') \<Longrightarrow> inv s' \<and> cluster_le (v s0) (v s')"
  using keepsD [of "\<lambda>s. inv s \<and> cluster_le (v s0) (v s)" m s0 r s'] by simp

lemma createConfigMap_Ok:
  assumes "inv s" and "createConfigMap (ConfigMaps c) (cl_namespace c) agentID st s = (Ok cm, s')"
  shows "vw_ConfigMaps (v s) (''agent-'' @ agentID) = None \<and> vw_ConfigMaps (v s') (''agent-'' @ agentID) = Some cm \<and>
    meta_Labels (cm_Meta cm) = Some (agent_labels agentID) \<and> cm_Data cm = [(''instance_settings'', marshal_Settings st)]"
  using cms.Create_Ok [OF assms(1) _ _ assms(2) [unfolded createConfigMap_def]] by simp

lemma createPod_Ok:
  assumes "inv s" and "createPod ParseQuantity (Pods c) (cl_namespace c) agentID img nw rs s = (Ok pod, s')"
  shows "vw_Pods (v s) (''agent-'' @ agentID) = None \<and> vw_Pods (v s') (''agent-'' @ agentID) = Some pod \<and>
    labelled agent_id_key agentID (pod_Meta pod)"
proof -
  obtain rr where rr: "if_Create (Pods c)
         \<lparr>pod_Meta = (agent_meta (''agent-'' @ agentID) (cl_namespace c) agentID)\<lparr>meta_Annotations := Some (ip_annotations nw)\<rparr>,
          pod_Spec = agent_pod_spec agentID img rr, pod_Status = zero_PodStatus\<rparr> s = (Ok pod, s')"
    using assms(2) by (auto simp: createPod_def and_then_Ok)
  show ?thesis
    using pods.Create_Ok [OF assms(1) _ _ rr] by (simp add: labelled_def agent_labels_def)
qed

lemma createDeployment_Ok:
  assumes "inv s" and "createDeployment ParseQuantity vmc (Deployments c) (cl_namespace c) agentID img nw cloudProps s = (Ok dep, s')"
  shows "vw_Deployments (v s) (''agent-'' @ agentID) = None \<and> vw_Deployments (v s') (''agent-'' @ agentID) = Some dep"
proof -
  obtain ob t where cr: "if_Create (Deployments c) ob s = (Ok dep, t)"
    and ob: "dep_Meta ob = zero_ObjectMeta\<lparr>meta_Name := ''agent-'' @ agentID, meta_Namespace := cl_namespace c\<rparr>"
    and w: "waitForDeployment vmc (Deployments c) agentID (meta_ResourceVersion (dep_Meta dep)) t = (Ok (), s')"
    using assms(2) by (auto simp: createDeployment_def act_Ok)
  have "keeps (\<lambda>x. x = t) (waitForDeployment vmc (Deployments c) agentID (meta_ResourceVersion (dep_Meta dep)))"
    unfolding waitForDeployment_def by (intro act_intros deps.keeps_read)
  then have "s' = t" using w by (rule keeps_same)
  then show ?thesis
    using deps.Create_Ok [OF assms(1) _ _ cr] ob by (simp add: zero_ObjectMeta_def)
qed

lemma createOneSecret_Ok:
  assumes "inv s" and "file_reader ReadFile" and "sr_Name srt \<noteq> []"
    and "createOneSecret ReadFile c (cl_namespace c) agentID srt s = (Ok u, s')"
  shows "vw_Secrets (v s) (sr_Name srt) = None \<and>
    (\<exists>sec. vw_Secrets (v s') (sr_Name srt) = Some sec \<and> labelled agent_id_key agentID (sec_Meta sec))"
proof -
  obtain e t dat x sec where g: "if_Get (Secrets c (cl_namespace c)) (sr_Name srt) s = (Err e, t)"
    and d: "secret_data ReadFile (sr_Data srt) [] t = (Ok dat, x)"
    and cr: "if_Create (Secrets c (cl_namespace c)) (secret_object (cl_namespace c) agentID srt dat) x = (Ok sec, s')"
    using assms(4) by (auto simp: createOneSecret_def act_Ok)
  have t: "t = s" using g by (rule secs.Get_state)
  have "keeps (\<lambda>y. y = s) (secret_data ReadFile (sr_Data srt) [])"
    using assms(2) by (intro secret_data_keeps) (simp add: file_reader_def)
  then have x: "x = s" using d unfolding t by (rule keeps_same)
  show ?thesis
    using secs.Create_Ok [OF assms(1) _ _ cr [unfolded x]] assms(3)
    by (simp add: secret_object_def labelled_def agent_labels_def)
qed

text \<open>A step that only adds, and after which a name is taken.\<close>

lemma for_each_grow:
  assumes "\<And>x w. x \<in> set xs \<Longrightarrow> keeps (\<lambda>s. inv s \<and> cluster_le w (v s)) (f x)"
    and "\<And>x s u s'. x \<in> set xs \<Longrightarrow> inv s \<Longrightarrow> f x s = (Ok u, s') \<Longrightarrow> R x (v s) (v s')"
    and mono: "\<And>x a b a' b'. R x a b \<Longrightarrow> cluster_le a' a \<Longrightarrow> cluster_le b b' \<Longrightarrow> R x a' b'"
    and "inv s" and "for_each f xs s = (Ok u, s')"
  shows "\<forall>x \<in> set xs. R x (v s) (v s')"
  using assms(1,2,4,5)
proof (induction xs arbitrary: s)
  case (Cons x xs)
  obtain u' t where x: "f x s = (Ok u', t)" and r: "for_each f xs t = (Ok u, s')"
    using Cons.prems(4) by (auto simp: and_then_Ok)
  have t: "inv t" "cluster_le (v s) (v t)"
    using grow_step [OF Cons.prems(1) Cons.prems(3) x] by simp_all
  have s': "cluster_le (v t) (v s')"
    using grow_step [OF keeps_for_each_in [of xs] t(1) r] Cons.prems(1) by simp
  have "R x (v s) (v s')"
    using mono [OF Cons.prems(2) [OF _ Cons.prems(3) x], of "v s" "v s'"] s' by simp
  moreover have "\<forall>y \<in> set xs. R y (v t) (v s')"
    using Cons.IH [OF _ _ t(1) r] Cons.prems(1,2) by simp
  ultimately show ?case
    using mono [OF _ t(2)] by fastforce
qed simp

lemma createSecret_Ok:
  assumes "inv s" and "file_reader ReadFile" and "list_all (\<lambda>srt. sr_Name srt \<noteq> []) srts"
    and "createSecret ReadFile c (cl_namespace c) agentID srts s = (Ok u, s')" and "srt \<in> set srts"
  shows "vw_Secrets (v s) (sr_Name srt) = None \<and> vw_Secrets (v s') (sr_Name srt) \<noteq> None"
proof -
  have "\<forall>srt \<in> set srts. vw_Secrets (v s) (sr_Name srt) = None \<and> vw_Secrets (v s') (sr_Name srt) \<noteq> None"
  proof (rule for_each_grow [OF _ _ _ assms(1) assms(4) [unfolded createSecret_def]])
    fix x w assume "x \<in> set srts"
    with assms(2,3) show "keeps (\<lambda>s. inv s \<and> cluster_le w (v s)) (createOneSecret ReadFile c (cl_namespace c) agentID x)"
      by (intro createOneSecret_grows) (auto simp: list_all_iff)
  next
    fix x s u s' assume "x \<in> set srts" "inv s" "createOneSecret ReadFile c (cl_namespace c) agentID x s = (Ok u, s')"
    with createOneSecret_Ok [of s ReadFile x agentID u s'] assms(2,3)
    show "vw_Secrets (v s) (sr_Name x) = None \<and> vw_Secrets (v s') (sr_Name x) \<noteq> None"
      by (auto simp: list_all_iff)
  next
    fix x a b a' b'
    assume "vw_Secrets a (sr_Name x) = None \<and> vw_Secrets b (sr_Name x) \<noteq> None" "cluster_le a' a" "cluster_le b b'"
    then show "vw_Secrets a' (sr_Name x) = None \<and> vw_Secrets b' (sr_Name x) \<noteq> None"
      by (auto simp: cluster_le_def map_le_def dom_def)
  qed
  with assms(5) show ?thesis by blast
qed

text \<open>A service that can be read is left as it is.\<close>

lemma createService_present:
  "sv_Type svc \<noteq> ''Ingress'' \<Longrightarrow> if_Get (Services c) (sv_Name svc) s = (Ok ob, s') \<Longrightarrow>
     createService c ns agentID svc s = (Ok (), s)"
  using svcs.Get_state by (fastforce simp: createService_def catch_def)

lemma createService_Ok:
  assumes "inv s" and "sv_Name svc \<noteq> []" and "createService c (cl_namespace c) agentID svc s = (Ok u, s')"
  shows "if sv_Type svc = ''Ingress'' then vw_Ingresses (v s') (sv_Name svc) \<noteq> None
         else vw_Services (v s') (sv_Name svc) \<noteq> None"
proof (cases "sv_Type svc = ''Ingress''")
  case True
  then obtain ob where "if_Create (IngressService c) (ingress_object (cl_namespace c) agentID svc) s = (Ok ob, s')"
    using assms(3) by (auto simp: createService_def act_Ok)
  from ings.Create_Ok [OF assms(1) _ _ this] True assms(2) show ?thesis by (simp add: ingress_object_def)
next
  case False
  obtain g t where g: "if_Get (Services c) (sv_Name svc) s = (g, t)" by fastforce
  have t: "t = s" using g by (rule svcs.Get_state)
  show ?thesis
  proof (cases g)
    case (Ok ob)
    with g t svcs.Get_Ok [OF assms(1,2)] createService_present [OF False] assms(3) False show ?thesis by auto
  next
    case (Err e)
    with False assms(3) g t obtain ob where
      "if_Create (Services c) (service_object (cl_namespace c) agentID svc) s = (Ok ob, s')"
      by (auto simp: createService_def act_Ok)
    from svcs.Create_Ok [OF assms(1) _ _ this] False assms(2) show ?thesis by (simp add: service_object_def)
  next
    case (Panic p)
    with g svcs.no_panic(4) show ?thesis by simp
  qed
qed

text \<open>The steps of a call that gets as far as the pod or the deployment.\<close>

lemma CreateVM_steps:
  assumes "inv s" and "vmc_ClientProvider vmc = P" and "cp_Context cloudProps = ctx" and "names_given cloudProps"
    and "file_reader ReadFile"
    and "CreateVM ParseQuantity ReadFile vmc agentID stemcellCID cloudProps networks diskCIDs env s = (Ok cid, s')"
  obtains nw st cm s1 s2 s3 s4 where
    "getNetwork networks = Ok nw" and "InstanceSettings vmc agentID networks env = Ok st"
    and "inv s1" "cluster_le (v s) (v s1)"
    and "createConfigMap (ConfigMaps c) (cl_namespace c) agentID st s1 = (Ok cm, s2)" "inv s2" "cluster_le (v s1) (v s2)"
    and "createServices c (cl_namespace c) agentID (cp_Services cloudProps) s2 = (Ok (), s3)" "inv s3" "cluster_le (v s2) (v s3)"
    and "createSecret ReadFile c (cl_namespace c) agentID (cp_Secrets cloudProps) s3 = (Ok (), s4)" "inv s4" "cluster_le (v s3) (v s4)"
    and "case cp_Replicas cloudProps of
        None \<Rightarrow> (\<exists>pod. createPod ParseQuantity (Pods c) (cl_namespace c) agentID stemcellCID nw (cp_Resources cloudProps) s4 = (Ok pod, s'))
      | Some n \<Rightarrow> sint n \<ge> 1 \<and> (\<exists>dep. createDeployment ParseQuantity vmc (Deployments c) (cl_namespace c) agentID stemcellCID nw
            cloudProps s4 = (Ok dep, s'))"
    and "cluster_le (v s4) (v s')" "inv s'" and "cid = NewVMCID ctx agentID"
proof -
  obtain nw u1 s1 st cm s2 u3 s3 u4 s4 where
    nw: "getNetwork networks = Ok nw" and n: "createNamespace c (cl_namespace c) s = (Ok u1, s1)"
    and st: "InstanceSettings vmc agentID networks env = Ok st"
    and cm: "createConfigMap (ConfigMaps c) (cl_namespace c) agentID st s1 = (Ok cm, s2)"
    and sv: "createServices c (cl_namespace c) agentID (cp_Services cloudProps) s2 = (Ok (), s3)"
    and sc: "createSecret ReadFile c (cl_namespace c) agentID (cp_Secrets cloudProps) s3 = (Ok (), s4)"
    and fin: "case cp_Replicas cloudProps of
        None \<Rightarrow> (\<exists>pod. createPod ParseQuantity (Pods c) (cl_namespace c) agentID stemcellCID nw (cp_Resources cloudProps) s4 = (Ok pod, s'))
      | Some n \<Rightarrow> sint n \<ge> 1 \<and> (\<exists>dep. createDeployment ParseQuantity vmc (Deployments c) (cl_namespace c) agentID stemcellCID nw
            cloudProps s4 = (Ok dep, s'))"
    and cid: "cid = NewVMCID ctx agentID"
    using assms(2,3,6) New Context_eq
    by (cases "cp_Replicas cloudProps")
      (auto simp: CreateVM_def act_Ok Namespace_def res_wrap_Ok split: if_splits)
  have i1: "inv s1" "cluster_le (v s) (v s1)"
    using grow_step [OF createNamespace_grows assms(1) n] by simp_all
  have i2: "inv s2" "cluster_le (v s1) (v s2)"
    using grow_step [OF createConfigMap_grows i1(1) cm] by simp_all
  have i3: "inv s3" "cluster_le (v s2) (v s3)"
    using grow_step [OF createServices_grows i2(1) sv] assms(4) by (simp_all add: names_given_def)
  have i4: "inv s4" "cluster_le (v s3) (v s4)"
    using grow_step [OF createSecret_grows i3(1) sc] assms(4,5) by (simp_all add: names_given_def)
  have i5: "inv s' \<and> cluster_le (v s4) (v s')"
  proof (cases "cp_Replicas cloudProps")
    case None
    with fin obtain pod where
      p: "createPod ParseQuantity (Pods c) (cl_namespace c) agentID stemcellCID nw (cp_Resources cloudProps) s4 = (Ok pod, s')"
      by auto
    show ?thesis by (rule grow_step [OF createPod_grows i4(1) p])
  next
    case (Some n)
    with fin obtain dep where
      d: "createDeployment ParseQuantity vmc (Deployments c) (cl_namespace c) agentID stemcellCID nw cloudProps s4 = (Ok dep, s')"
      by auto
    show ?thesis by (rule grow_step [OF createDeployment_grows i4(1) d])
  qed
  show ?thesis
    by (rule that [OF nw st i1 cm i2 sv i3 sc i4 fin conjunct2 [OF i5] conjunct1 [OF i5] cid])
qed

lemma le_Some: "cluster_le a b \<Longrightarrow> vw_ConfigMaps a n = Some x \<Longrightarrow> vw_ConfigMaps b n = Some x"
  and le_None: "cluster_le a b \<Longrightarrow> vw_ConfigMaps b n = None \<Longrightarrow> vw_ConfigMaps a n = None"
    "cluster_le a b \<Longrightarrow> vw_Pods b n = None \<Longrightarrow> vw_Pods a n = None"
    "cluster_le a b \<Longrightarrow> vw_Deployments b n = None \<Longrightarrow> vw_Deployments a n = None"
    "cluster_le a b \<Longrightarrow> vw_Secrets b n = None \<Longrightarrow> vw_Secrets a n = None"
  and le_not_None: "cluster_le a b \<Longrightarrow> vw_Secrets a n \<noteq> None \<Longrightarrow> vw_Secrets b n \<noteq> None"
  by (force simp: cluster_le_def map_le_def dom_def)+

lemma CreateVM_Ok:
  assumes "inv s" and "vmc_ClientProvider vmc = P" and "cp_Context cloudProps = ctx" and "names_given cloudProps"
    and "file_reader ReadFile"
    and "CreateVM ParseQuantity ReadFile vmc agentID stemcellCID cloudProps networks diskCIDs env s = (Ok cid, s')"
  shows "cid = NewVMCID ctx agentID"
    and "vw_ConfigMaps (v s) (''agent-'' @ agentID) = None"
    and "\<exists>st. InstanceSettings vmc agentID networks env = Ok st \<and>
      (Settings_ok st \<longrightarrow> vm_settings (v s') agentID = Some (norm_Settings st))"
    and "cp_Replicas cloudProps = None \<Longrightarrow> vw_Pods (v s) (''agent-'' @ agentID) = None \<and> pod_exists (v s') agentID"
    and "cp_Replicas cloudProps = Some n \<Longrightarrow> sint n \<ge> 1 \<and> vw_Deployments (v s) (''agent-'' @ agentID) = None \<and>
      vw_Deployments (v s') (''agent-'' @ agentID) \<noteq> None"
    and "srt \<in> set (cp_Secrets cloudProps) \<Longrightarrow>
      vw_Secrets (v s) (sr_Name srt) = None \<and> vw_Secrets (v s') (sr_Name srt) \<noteq> None"
proof -
  let ?n = "''agent-'' @ agentID"
  obtain nw st cm s1 s2 s3 s4 where
    "getNetwork networks = Ok nw" and st: "InstanceSettings vmc agentID networks env = Ok st"
    and i1: "inv s1" and le1: "cluster_le (v s) (v s1)"
    and cm: "createConfigMap (ConfigMaps c) (cl_namespace c) agentID st s1 = (Ok cm, s2)"
    and i2: "inv s2" and le2: "cluster_le (v s1) (v s2)"
    and "createServices c (cl_namespace c) agentID (cp_Services cloudProps) s2 = (Ok (), s3)"
    and i3: "inv s3" and le3: "cluster_le (v s2) (v s3)"
    and sc: "createSecret ReadFile c (cl_namespace c) agentID (cp_Secrets cloudProps) s3 = (Ok (), s4)"
    and i4: "inv s4" and le4: "cluster_le (v s3) (v s4)"
    and fin: "case cp_Replicas cloudProps of
        None \<Rightarrow> (\<exists>pod. createPod ParseQuantity (Pods c) (cl_namespace c) agentID stemcellCID nw (cp_Resources cloudProps) s4 = (Ok pod, s'))
      | Some n \<Rightarrow> sint n \<ge> 1 \<and> (\<exists>dep. createDeployment ParseQuantity vmc (Deployments c) (cl_namespace c) agentID stemcellCID nw
            cloudProps s4 = (Ok dep, s'))"
    and le5: "cluster_le (v s4) (v s')" and "inv s'" and cid: "cid = NewVMCID ctx agentID"
    by (rule CreateVM_steps [OF assms])
  note i = i1 i2 i3 i4 and le = le1 le2 le3 le4 le5
  show "cid = NewVMCID ctx agentID" by (rule cid)
  note cmf = createConfigMap_Ok [OF i(1) cm]
  show "vw_ConfigMaps (v s) ?n = None" using cmf le_None(1) [OF le(1)] by simp
  have "vw_ConfigMaps (v s') ?n = Some cm"
    using cmf by (intro le_Some [OF le(5)] le_Some [OF le(4)] le_Some [OF le(3)]) simp
  then show "\<exists>st. InstanceSettings vmc agentID networks env = Ok st \<and>
      (Settings_ok st \<longrightarrow> vm_settings (v s') agentID = Some (norm_Settings st))"
    using st cmf by (auto simp: vm_settings_def gget_str_def unmarshal_marshal_Settings)
  show "vw_Pods (v s) ?n = None \<and> pod_exists (v s') agentID" if none: "cp_Replicas cloudProps = None"
  proof -
    from fin none obtain pod where
      "createPod ParseQuantity (Pods c) (cl_namespace c) agentID stemcellCID nw (cp_Resources cloudProps) s4 = (Ok pod, s')"
      by auto
    note p = createPod_Ok [OF i(4) this]
    have "vw_Pods (v s) ?n = None"
      using p by (intro le_None(2) [OF le(1)] le_None(2) [OF le(2)] le_None(2) [OF le(3)] le_None(2) [OF le(4)]) simp
    with p show ?thesis by (auto simp: pod_exists_def)
  qed
  show "sint n \<ge> 1 \<and> vw_Deployments (v s) ?n = None \<and> vw_Deployments (v s') ?n \<noteq> None"
    if some: "cp_Replicas cloudProps = Some n"
  proof -
    from fin some obtain dep where n: "sint n \<ge> 1" and
      "createDeployment ParseQuantity vmc (Deployments c) (cl_namespace c) agentID stemcellCID nw cloudProps s4 = (Ok dep, s')"
      by auto
    note p = createDeployment_Ok [OF i(4) this(2)]
    have "vw_Deployments (v s) ?n = None"
      using p by (intro le_None(3) [OF le(1)] le_None(3) [OF le(2)] le_None(3) [OF le(3)] le_None(3) [OF le(4)]) simp
    with p n show ?thesis by simp
  qed
  show "vw_Secrets (v s) (sr_Name srt) = None \<and> vw_Secrets (v s') (sr_Name srt) \<noteq> None"
    if srt: "srt \<in> set (cp_Secrets cloudProps)"
  proof -
    note p = createSecret_Ok [OF i(3) assms(5) _ sc srt]
    have f: "vw_Secrets (v s3) (sr_Name srt) = None \<and> vw_Secrets (v s4) (sr_Name srt) \<noteq> None"
      using p assms(4) by (simp add: names_given_def)
    have "vw_Secrets (v s) (sr_Name srt) = None"
      using f by (intro le_None(4) [OF le(1)] le_None(4) [OF le(2)] le_None(4) [OF le(3)]) simp
    with f le_not_None [OF le(5)] show ?thesis by simp
  qed
qed

end

section \<open>Refused requests\<close>

text \<open>A count of replicas below one is refused, but only after the other objects have been made.\<close>

lemma CreateVM_bad_replicas:
  assumes "cp_Replicas cloudProps = Some n" and "sint n < 1"
  shows "CreateVM ParseQuantity ReadFile vmc agentID stemcellCID cloudProps networks diskCIDs env s \<noteq> (Ok cid, s')"
  using assms by (auto simp: CreateVM_def act_Ok)

lemma CreateVM_no_network:
  assumes "length networks \<noteq> 1"
  shows "CreateVM ParseQuantity ReadFile vmc agentID stemcellCID cloudProps networks diskCIDs env s =
    (Err (WrapError (PlainError (if networks = [] then ''a network is required'' else ''multiple networks not supported''))
       ''Getting network''), s)"
proof -
  have "getNetwork networks = Err (PlainError (if networks = [] then ''a network is required'' else ''multiple networks not supported''))"
    using assms by (auto simp: getNetwork_def split: list.splits)
  then show ?thesis by (simp add: CreateVM_def)
qed

text \<open>A number of replicas below one is never accepted.\<close>

lemma CreateVM_replicas:
  assumes "cp_Replicas cloudProps = Some n" and "sint n < 1"
  shows "CreateVM ParseQuantity ReadFile vmc agentID stemcellCID cloudProps networks diskCIDs env s \<noteq> (Ok cid, s')"
  using assms by (auto simp: CreateVM_def act_Ok)

end
