(* ===== verification/CreateDisk.thy ===== *)
theory CreateDisk
  imports FindActions WaitLoop
begin

text \<open>
  \<^verbatim>\<open>actions/create_disk.go\<close>: a disk is a persistent volume claim \<^verbatim>\<open>disk-<guid>\<close>, labelled with its id,
  that the cluster must bind before the timer fires. \<^verbatim>\<open>resource.ParseQuantity\<close> is a parameter.
\<close>

section \<open>Definitions\<close>

record CreateDiskCloudProperties =
  cd_Context :: string
  cd_StorageClass :: string
  cd_StorageProvisioner :: string

record 's DiskCreator =
  dc_ClientProvider :: "'s provider"
  dc_GUIDGeneratorFunc :: "('s, string) act"
  dc_DiskReadyTimeout :: Duration

definition isDiskReady :: "PersistentVolumeClaim \<Rightarrow> bool" where
  "isDiskReady pvc = (if pvc_Phase pvc \<noteq> ClaimBound then False else True)"

definition disk_wait :: "PersistentVolumeClaim wait_spec" where
  "disk_wait = \<lparr>ws_ready = \<lambda>pvc. Ok (isDiskReady pvc),
     ws_unexpected = ''Unexpected pvc watch event: '', ws_timeout = ''Pod recreate failed with a timeout''\<rparr>"

definition waitForDisk :: "'s DiskCreator \<Rightarrow> ('s, PersistentVolumeClaim) iface \<Rightarrow> string \<Rightarrow> string \<Rightarrow> ('s, unit) act" where
  "waitForDisk d pvcService diskID resourceVersion =
     and_then (wrap_err ''Parsing disk selector'' (lift_res (selector_for disk_id_key diskID))) (\<lambda>diskSelector.
     and_then (wrap_err ''Watching PVC''
                (if_Watch pvcService
                   \<lparr>lo_LabelSelector = diskSelector, lo_ResourceVersion = resourceVersion, lo_Watch = True\<rparr>)) (\<lambda>events.
       lift_res (timed_wait disk_wait (dc_DiskReadyTimeout d) events)))"

text \<open>The claim that is created.\<close>

definition new_claim :: "string \<Rightarrow> string \<Rightarrow> CreateDiskCloudProperties \<Rightarrow> quantity \<Rightarrow> PersistentVolumeClaim" where
  "new_claim ns diskID cloudProps volumeSize =
     \<lparr>pvc_Meta = zero_ObjectMeta\<lparr>meta_Name := ''disk-'' @ diskID, meta_Namespace := ns,
        meta_Annotations := Some [(''volume.beta.kubernetes.io/storage-class'', cd_StorageClass cloudProps),
                                  (''volume.beta.kubernetes.io/storage-provisioner'', cd_StorageProvisioner cloudProps)],
        meta_Labels := Some [(disk_id_key, diskID)]\<rparr>,
      pvc_AccessModes = [''ReadWriteMany''],
      pvc_Requests = [(''storage'', volumeSize)],
      pvc_Phase = []\<rparr>"

definition CreateDisk ::
    "(string \<Rightarrow> quantity res) \<Rightarrow> 's DiskCreator \<Rightarrow> 64 word \<Rightarrow> CreateDiskCloudProperties \<Rightarrow> string \<Rightarrow> ('s, string) act" where
  "CreateDisk ParseQuantity d sz cloudProps vmcid =
     and_then (wrap_err ''Creating disk'' (dc_GUIDGeneratorFunc d)) (\<lambda>diskID.
     and_then (wrap_err ''Parsing quantity'' (lift_res (ParseQuantity (show_nat (unat sz) @ ''Gi'')))) (\<lambda>volumeSize.
     and_then (wrap_err ''Creating client'' (lift_res (dc_ClientProvider d (cd_Context cloudProps)))) (\<lambda>client.
     and_then (wrap_err ''Creating PVC''
                (if_Create (PersistentVolumeClaims client) (new_claim (Namespace client) diskID cloudProps volumeSize))) (\<lambda>pvc.
     and_then (wrap_err ''Waiting for disk''
                (waitForDisk d (PersistentVolumeClaims client) diskID (meta_ResourceVersion (pvc_Meta pvc)))) (\<lambda>_.
       ret (NewDiskCID (Context client) diskID))))))"

section \<open>Lemmas over a lawful client\<close>

text \<open>A generator of ids that has no effect on the cluster.\<close>

definition quiet :: "('s \<Rightarrow> bool) \<Rightarrow> ('s \<Rightarrow> cluster) \<Rightarrow> ('s, 'a) act \<Rightarrow> bool" where
  "quiet ok v m = (\<forall>s r s'. ok s \<longrightarrow> m s = (r, s') \<longrightarrow> ok s' \<and> v s' = v s)"

lemma quiet_CreateGUID: "quiet ok v NewV4 \<Longrightarrow> quiet ok v (CreateGUID NewV4)"
  unfolding quiet_def CreateGUID_def catch_def by (auto split: prod.splits res.splits)

text \<open>The claim a successful call adds.\<close>

definition claim_added :: "string \<Rightarrow> cluster \<Rightarrow> cluster \<Rightarrow> bool" where
  "claim_added diskID w w' =
     (vw_PVCs w (''disk-'' @ diskID) = None \<and>
      (\<exists>pvc. meta_Labels (pvc_Meta pvc) = Some [(disk_id_key, diskID)] \<and>
         w' = w\<lparr>vw_PVCs := (vw_PVCs w)(''disk-'' @ diskID \<mapsto> pvc)\<rparr>))"

lemma claim_added_exists: "claim_added diskID w w' \<Longrightarrow> claim_exists w' diskID"
  by (auto simp: claim_added_def claim_exists_def labelled_def)

lemma claim_added_others:
  "claim_added diskID w w' \<Longrightarrow> other \<noteq> diskID \<Longrightarrow> claim_exists w' other = claim_exists w other"
  by (auto simp: claim_added_def claim_exists_def labelled_def split: if_splits) (metis option.distinct(1))+

text \<open>The answer of a call that has created the claim, by the outcome of the wait.\<close>

definition wait_answer :: "string \<Rightarrow> unit res \<Rightarrow> string res" where
  "wait_answer cid w =
     (case w of Ok _ \<Rightarrow> Ok cid | Err e \<Rightarrow> Err (WrapError e ''Waiting for disk'') | Panic p \<Rightarrow> Panic p)"

text \<open>A wait over events at given times.\<close>

lemma waitForDisk_events:
  assumes "IsValidLabelValue diskID = []"
    and "if_Watch pvcService \<lparr>lo_LabelSelector = disk_id_key @ CHR ''='' # diskID, lo_ResourceVersion = rv, lo_Watch = True\<rparr> s =
      (Ok evs, s')"
  shows "waitForDisk d pvcService diskID rv s = (timed_wait disk_wait (dc_DiskReadyTimeout d) evs, s')"
  using assms by (simp add: waitForDisk_def selector_for_valid act_simps)

text \<open>An event that only shows the claim unbound.\<close>

definition unbound_change :: "PersistentVolumeClaim event \<Rightarrow> bool" where
  "unbound_change ev =
     (ev_Type ev = Modified \<and>
      (case ev_Object ev of Obj pvc \<Rightarrow> pvc_Phase pvc \<noteq> ClaimBound | OtherObject t \<Rightarrow> False))"

lemma disk_event_undecided: "on_event disk_wait ev = None \<longleftrightarrow> unbound_change ev"
  by (auto simp: on_event_def disk_wait_def isDiskReady_def unbound_change_def split: event_object.splits)

lemma timed_wait_disk:
  assumes "sorted (map fst evs)"
  shows "timed_wait disk_wait timeout evs =
    (case find (\<lambda>ev. \<not> unbound_change ev) (map snd (filter (\<lambda>(arrival, _). arrival < sint timeout) evs)) of
       None \<Rightarrow> Err (PlainError ''Pod recreate failed with a timeout'')
     | Some ev \<Rightarrow>
         if ev_Type ev \<noteq> Modified then Err (PlainError (''Unexpected pvc watch event: '' @ ev_Type ev))
         else (case ev_Object ev of
                 Obj pvc \<Rightarrow> Ok ()
               | OtherObject t \<Rightarrow> Err (PlainError (''Unexpected object type: '' @ t))))"
proof -
  let ?es = "map snd (filter (\<lambda>(arrival, _). arrival < sint timeout) evs)"
  have "timed_wait disk_wait timeout evs =
      (case find (\<lambda>ev. \<not> unbound_change ev) ?es of None \<Rightarrow> on_timeout disk_wait | Some ev \<Rightarrow> the (on_event disk_wait ev))"
    by (simp add: timed_wait_def before_timer_sorted [OF assms] wait_loop_find disk_event_undecided)
  moreover have "\<not> unbound_change ev" if "find (\<lambda>ev. \<not> unbound_change ev) ?es = Some ev" for ev
    using that by (auto simp: find_Some_iff)
  ultimately show ?thesis
    by (cases "find (\<lambda>ev. \<not> unbound_change ev) ?es")
      (auto simp: on_timeout_def on_event_def disk_wait_def isDiskReady_def unbound_change_def split: event_object.splits)
qed

lemma disk_wait_no_panic: "timed_wait disk_wait timeout evs \<noteq> Panic p"
proof -
  have "wait_loop disk_wait es \<noteq> Panic p" for es
    by (induction es) (auto simp: on_timeout_def on_event_def disk_wait_def split: event_object.splits)
  then show ?thesis by (simp add: timed_wait_def)
qed

context provided_api
begin

lemma waitForDisk_no_panic:
  assumes "IsValidLabelValue diskID = []"
  shows "outcome (waitForDisk d (PersistentVolumeClaims c) diskID rv) s \<noteq> Panic p"
proof -
  let ?lo = "\<lparr>lo_LabelSelector = disk_id_key @ CHR ''='' # diskID, lo_ResourceVersion = rv, lo_Watch = True\<rparr>"
  obtain q t where w: "if_Watch (PersistentVolumeClaims c) ?lo s = (q, t)" by fastforce
  show ?thesis
  proof (cases q)
    case (Ok evs)
    with waitForDisk_events [OF assms w [unfolded Ok]] show ?thesis
      by (simp add: outcome_def disk_wait_no_panic)
  next
    case (Err e)
    with assms w show ?thesis by (simp add: waitForDisk_def selector_for_valid act_simps outcome_def)
  next
    case (Panic p)
    with w pvcs.no_panic(5) show ?thesis by blast
  qed
qed

lemma waitForDisk_state: "waitForDisk d (PersistentVolumeClaims c) diskID rv s = (r, s') \<Longrightarrow> s' = s"
proof -
  have k: "keeps (\<lambda>x. x = s) (waitForDisk d (PersistentVolumeClaims c) diskID rv)"
    unfolding waitForDisk_def by (intro act_intros pvcs.keeps_read)
  assume "waitForDisk d (PersistentVolumeClaims c) diskID rv s = (r, s')"
  with k show ?thesis using keepsD by fastforce
qed

text \<open>Once the claim is created the wait for it decides the answer, and the claim stays.\<close>

lemma CreateDisk_created:
  assumes "inv s" and "dc_ClientProvider d = P" and "cd_Context cloudProps = ctx"
    and "quiet inv v (dc_GUIDGeneratorFunc d)"
    and g: "dc_GUIDGeneratorFunc d s = (Ok diskID, t)"
    and q: "ParseQuantity (show_nat (unat sz) @ ''Gi'') = Ok volumeSize"
    and cr: "if_Create (PersistentVolumeClaims c) (new_claim (Namespace c) diskID cloudProps volumeSize) t = (Ok pvc, x)"
  shows "CreateDisk ParseQuantity d sz cloudProps vmcid s =
      (wait_answer (NewDiskCID ctx diskID)
        (outcome (waitForDisk d (PersistentVolumeClaims c) diskID (meta_ResourceVersion (pvc_Meta pvc))) x), x) \<and>
    claim_added diskID (v s) (v x) \<and> inv x"
proof -
  let ?ob = "new_claim (Namespace c) diskID cloudProps volumeSize"
  have t: "inv t" "v t = v s" using assms(1,4) g unfolding quiet_def by blast+
  have key: "meta_Name (pvc_Meta ?ob) = ''disk-'' @ diskID" "meta_Namespace (pvc_Meta ?ob) = cl_namespace c"
    "meta_Labels (pvc_Meta ?ob) = Some [(disk_id_key, diskID)]"
    by (simp_all add: new_claim_def Namespace_def)
  have "claim_added diskID (v s) (v x)"
    using pvcs.Create_Ok [OF t(1) _ _ cr] key t(2) by (auto simp: claim_added_def cluster_rest_eq)
  moreover have "inv x" using pvcs.inv_Create [OF t(1) cr] .
  moreover obtain rw y where w: "waitForDisk d (PersistentVolumeClaims c) diskID (meta_ResourceVersion (pvc_Meta pvc)) x = (rw, y)"
    by fastforce
  moreover have "y = x" using waitForDisk_state [OF w] .
  ultimately show ?thesis
    using g q cr New assms(2,3) Context_eq
    by (cases rw) (auto simp: CreateDisk_def act_simps wait_answer_def outcome_def)
qed

text \<open>A call ends before it has created anything, its error saying where; or the claim is there.\<close>

lemma CreateDisk_result:
  assumes "inv s" and "dc_ClientProvider d = P" and "cd_Context cloudProps = ctx"
    and "quiet inv v (dc_GUIDGeneratorFunc d)" and "outcome (dc_GUIDGeneratorFunc d) s = Ok diskID"
    and pq: "\<And>t p. ParseQuantity t \<noteq> Panic p"
    and run: "CreateDisk ParseQuantity d sz cloudProps vmcid s = (r, s')"
  shows "inv s' \<and>
    ((\<exists>e msg. msg \<in> {''Parsing quantity'', ''Creating PVC''} \<and> r = Err (WrapError e msg) \<and> v s' = v s) \<or>
     claim_added diskID (v s) (v s') \<and>
     (\<exists>rv. r = wait_answer (NewDiskCID ctx diskID)
        (outcome (waitForDisk d (PersistentVolumeClaims c) diskID rv) s')))"
proof -
  obtain t where g: "dc_GUIDGeneratorFunc d s = (Ok diskID, t)"
    using outcome_final [OF assms(5)] by blast
  have t: "inv t" "v t = v s" using assms(1,4) g unfolding quiet_def by blast+
  show ?thesis
  proof (cases "ParseQuantity (show_nat (unat sz) @ ''Gi'')")
    case (Err e)
    with run g t show ?thesis by (auto simp: CreateDisk_def act_simps)
  next
    case (Panic p)
    with pq show ?thesis by simp
  next
    case q: (Ok volumeSize)
    let ?ob = "new_claim (Namespace c) diskID cloudProps volumeSize"
    obtain rc x where cr: "if_Create (PersistentVolumeClaims c) ?ob t = (rc, x)" by fastforce
    show ?thesis
    proof (cases rc)
      case (Err e)
      have "v x = v t" "inv x"
        using pvcs.Create_Err [OF t(1) _ _ cr [unfolded Err]] pvcs.inv_Create [OF t(1) cr]
        by (auto simp: cluster_rest_eq new_claim_def Namespace_def)
      with run g t q cr Err New assms(2,3) show ?thesis by (auto simp: CreateDisk_def act_simps)
    next
      case (Panic p)
      with cr pvcs.no_panic(1) show ?thesis by simp
    next
      case rc: (Ok pvc)
      from CreateDisk_created [where ParseQuantity = ParseQuantity and sz = sz and vmcid = vmcid,
          OF assms(1-4) g q cr [unfolded rc]] run show ?thesis by auto
    qed
  qed
qed

text \<open>A claim that stays unbound until the timer fires is left behind by a call that fails.\<close>

lemma CreateDisk_unbound:
  assumes "inv s" and "dc_ClientProvider d = P" and "cd_Context cloudProps = ctx"
    and "quiet inv v (dc_GUIDGeneratorFunc d)"
    and "dc_GUIDGeneratorFunc d s = (Ok diskID, t)" and "IsValidLabelValue diskID = []"
    and "ParseQuantity (show_nat (unat sz) @ ''Gi'') = Ok volumeSize"
    and "if_Create (PersistentVolumeClaims c) (new_claim (Namespace c) diskID cloudProps volumeSize) t = (Ok pvc, x)"
    and watch: "if_Watch (PersistentVolumeClaims c) \<lparr>lo_LabelSelector = disk_id_key @ CHR ''='' # diskID,
      lo_ResourceVersion = meta_ResourceVersion (pvc_Meta pvc), lo_Watch = True\<rparr> x = (Ok evs, y)"
    and "sorted (map fst evs)"
    and unbound: "list_all (\<lambda>(arrival, ev). arrival < sint (dc_DiskReadyTimeout d) \<longrightarrow> unbound_change ev) evs"
  shows "outcome (CreateDisk ParseQuantity d sz cloudProps vmcid) s =
      Err (WrapError (PlainError ''Pod recreate failed with a timeout'') ''Waiting for disk'') \<and>
    claim_added diskID (v s) (v (final (CreateDisk ParseQuantity d sz cloudProps vmcid) s))"
proof -
  have "find (\<lambda>ev. \<not> unbound_change ev) (map snd (filter (\<lambda>(arrival, _). arrival < sint (dc_DiskReadyTimeout d)) evs)) = None"
    using unbound by (auto simp: find_None_iff list_all_iff)
  then have "outcome (waitForDisk d (PersistentVolumeClaims c) diskID (meta_ResourceVersion (pvc_Meta pvc))) x =
      Err (PlainError ''Pod recreate failed with a timeout'')"
    using waitForDisk_events [OF assms(6) watch, of d] by (simp add: outcome_def timed_wait_disk [OF assms(10)])
  with CreateDisk_created [where ParseQuantity = ParseQuantity and sz = sz and vmcid = vmcid, OF assms(1-5,7,8)] show ?thesis
    by (simp add: outcome_def final_def wait_answer_def)
qed

end

end
