(* ===== verification/Requests.thy ===== *)
theory Requests
  imports CreateVM CreateDisk
begin

text \<open>
  The JSON form of what a request carries: the arguments of the actions
  (\<^verbatim>\<open>CreateDiskCloudProperties\<close>, \<^verbatim>\<open>StemcellCloudProperties\<close>, \<^verbatim>\<open>VMCloudProperties\<close> and its parts,
  \<^verbatim>\<open>cpi.Networks\<close>, \<^verbatim>\<open>cpi.Environment\<close>) decoded as their struct tags say. A number literal is
  read where an integer is wanted when it is a plain decimal in the type's range. The backends,
  TLS entries and rules of an ingress are types of client-go: their fields are not looked into.
\<close>

section \<open>Numbers\<close>

fun dec_uint :: "json \<Rightarrow> 64 word \<Rightarrow> 64 word res" where
  "dec_uint JNull old = Ok old"
| "dec_uint (JNum l) old =
     (case ParseUint l of
        Some n \<Rightarrow> if n < 2 ^ 64 then Ok (of_nat n) else type_error
      | None \<Rightarrow> type_error)"
| "dec_uint _ old = type_error"

fun dec_int32 :: "json \<Rightarrow> int32 \<Rightarrow> int32 res" where
  "dec_int32 JNull old = Ok old"
| "dec_int32 (JNum l) old =
     (case ParseInt l of
        Some i \<Rightarrow> if - (2 ^ 31) \<le> i \<and> i < 2 ^ 31 then Ok (word_of_int i) else type_error
      | None \<Rightarrow> type_error)"
| "dec_int32 _ old = type_error"

fun dec_int64 :: "json \<Rightarrow> int64 \<Rightarrow> int64 res" where
  "dec_int64 JNull old = Ok old"
| "dec_int64 (JNum l) old =
     (case ParseInt l of
        Some i \<Rightarrow> if - (2 ^ 63) \<le> i \<and> i < 2 ^ 63 then Ok (word_of_int i) else type_error
      | None \<Rightarrow> type_error)"
| "dec_int64 _ old = type_error"

text \<open>A pointer to an \<^verbatim>\<open>int32\<close>.\<close>

fun dec_int32_ptr :: "json \<Rightarrow> int32 option res" where
  "dec_int32_ptr JNull = Ok None"
| "dec_int32_ptr j = res_then (dec_int32 j 0) (\<lambda>n. Ok (Some n))"

section \<open>Lists and opaque structs\<close>

fun res_map :: "('a \<Rightarrow> 'b res) \<Rightarrow> 'a list \<Rightarrow> 'b list res" where
  "res_map f [] = Ok []"
| "res_map f (x # xs) = res_then (f x) (\<lambda>y. res_then (res_map f xs) (\<lambda>ys. Ok (y # ys)))"

fun dec_list :: "(json \<Rightarrow> 'a res) \<Rightarrow> json \<Rightarrow> 'a list res" where
  "dec_list dec JNull = Ok []"
| "dec_list dec (JArr js) = res_map dec js"
| "dec_list dec _ = type_error"

fun dec_opaque :: "json \<Rightarrow> json res" where
  "dec_opaque JNull = Ok JNull"
| "dec_opaque (JObj ms) = Ok (JObj ms)"
| "dec_opaque _ = type_error"

fun dec_opaque_ptr :: "json \<Rightarrow> json option res" where
  "dec_opaque_ptr JNull = Ok None"
| "dec_opaque_ptr j = res_then (dec_opaque j) (\<lambda>x. Ok (Some x))"

section \<open>Cloud properties\<close>

definition set_DiskProps :: "string \<Rightarrow> json \<Rightarrow> CreateDiskCloudProperties \<Rightarrow> CreateDiskCloudProperties res" where
  "set_DiskProps k j p =
     (if field_is ''context'' k then res_then (dec_string j (cd_Context p)) (\<lambda>x. Ok (p\<lparr>cd_Context := x\<rparr>))
      else if field_is ''storage_class'' k then res_then (dec_string j (cd_StorageClass p)) (\<lambda>x. Ok (p\<lparr>cd_StorageClass := x\<rparr>))
      else if field_is ''storage_provisioner'' k then
        res_then (dec_string j (cd_StorageProvisioner p)) (\<lambda>x. Ok (p\<lparr>cd_StorageProvisioner := x\<rparr>))
      else Ok p)"

definition dec_DiskProps :: "json \<Rightarrow> CreateDiskCloudProperties res" where
  "dec_DiskProps j = dec_struct set_DiskProps j \<lparr>cd_Context = [], cd_StorageClass = [], cd_StorageProvisioner = []\<rparr>"

text \<open>\<^verbatim>\<open>StemcellCloudProperties\<close> has one field, the image.\<close>

definition set_StemcellProps :: "string \<Rightarrow> json \<Rightarrow> string \<Rightarrow> string res" where
  "set_StemcellProps k j p = (if field_is ''image'' k then dec_string j p else Ok p)"

definition dec_StemcellProps :: "json \<Rightarrow> string res" where
  "dec_StemcellProps j = dec_struct set_StemcellProps j []"

definition set_Port :: "string \<Rightarrow> json \<Rightarrow> Port \<Rightarrow> Port res" where
  "set_Port k j p =
     (if field_is ''name'' k then res_then (dec_string j (pt_Name p)) (\<lambda>x. Ok (p\<lparr>pt_Name := x\<rparr>))
      else if field_is ''node_port'' k then res_then (dec_int32 j (pt_NodePort p)) (\<lambda>x. Ok (p\<lparr>pt_NodePort := x\<rparr>))
      else if field_is ''port'' k then res_then (dec_int32 j (pt_Port p)) (\<lambda>x. Ok (p\<lparr>pt_Port := x\<rparr>))
      else if field_is ''protocol'' k then res_then (dec_string j (pt_Protocol p)) (\<lambda>x. Ok (p\<lparr>pt_Protocol := x\<rparr>))
      else if field_is ''target_port'' k then res_then (dec_int64 j (pt_TargetPort p)) (\<lambda>x. Ok (p\<lparr>pt_TargetPort := x\<rparr>))
      else Ok p)"

definition dec_Port :: "json \<Rightarrow> Port res" where
  "dec_Port j = dec_struct set_Port j
     \<lparr>pt_Name = [], pt_NodePort = 0, pt_Port = 0, pt_Protocol = [], pt_TargetPort = 0\<rparr>"

definition set_Service :: "string \<Rightarrow> json \<Rightarrow> Service \<Rightarrow> Service res" where
  "set_Service k j p =
     (if field_is ''name'' k then res_then (dec_string j (sv_Name p)) (\<lambda>x. Ok (p\<lparr>sv_Name := x\<rparr>))
      else if field_is ''type'' k then res_then (dec_string j (sv_Type p)) (\<lambda>x. Ok (p\<lparr>sv_Type := x\<rparr>))
      else if field_is ''cluster_ip'' k then res_then (dec_string j (sv_ClusterIP p)) (\<lambda>x. Ok (p\<lparr>sv_ClusterIP := x\<rparr>))
      else if field_is ''ports'' k then res_then (dec_list dec_Port j) (\<lambda>x. Ok (p\<lparr>sv_Ports := x\<rparr>))
      else if field_is ''selector'' k then res_then (dec_smap j (sv_Selector p)) (\<lambda>x. Ok (p\<lparr>sv_Selector := x\<rparr>))
      else if field_is ''load_balancer_ip'' k then
        res_then (dec_string j (sv_LoadBalancerIP p)) (\<lambda>x. Ok (p\<lparr>sv_LoadBalancerIP := x\<rparr>))
      else if field_is ''external_ips'' k then res_then (dec_strings j) (\<lambda>x. Ok (p\<lparr>sv_ExternalIPs := x\<rparr>))
      else if field_is ''backend'' k then res_then (dec_opaque_ptr j) (\<lambda>x. Ok (p\<lparr>sv_Backend := x\<rparr>))
      else if field_is ''tls'' k then res_then (dec_list dec_opaque j) (\<lambda>x. Ok (p\<lparr>sv_TLS := x\<rparr>))
      else if field_is ''rules'' k then res_then (dec_list dec_opaque j) (\<lambda>x. Ok (p\<lparr>sv_Rules := x\<rparr>))
      else Ok p)"

definition dec_Service :: "json \<Rightarrow> Service res" where
  "dec_Service j = dec_struct set_Service j
     \<lparr>sv_Name = [], sv_Type = [], sv_ClusterIP = [], sv_Ports = [], sv_Selector = None, sv_LoadBalancerIP = [],
      sv_ExternalIPs = None, sv_Backend = None, sv_TLS = [], sv_Rules = []\<rparr>"

definition set_Secret :: "string \<Rightarrow> json \<Rightarrow> Secret \<Rightarrow> Secret res" where
  "set_Secret k j p =
     (if field_is ''name'' k then res_then (dec_string j (sr_Name p)) (\<lambda>x. Ok (p\<lparr>sr_Name := x\<rparr>))
      else if field_is ''type'' k then res_then (dec_string j (sr_Type p)) (\<lambda>x. Ok (p\<lparr>sr_Type := x\<rparr>))
      else if field_is ''annotations'' k then res_then (dec_smap j (sr_Annotations p)) (\<lambda>x. Ok (p\<lparr>sr_Annotations := x\<rparr>))
      else if field_is ''data'' k then
        res_then (dec_smap j (Some (sr_Data p))) (\<lambda>x. Ok (p\<lparr>sr_Data := case x of None \<Rightarrow> [] | Some m \<Rightarrow> m\<rparr>))
      else if field_is ''string_data'' k then res_then (dec_smap j (sr_StringData p)) (\<lambda>x. Ok (p\<lparr>sr_StringData := x\<rparr>))
      else Ok p)"

definition dec_Secret :: "json \<Rightarrow> Secret res" where
  "dec_Secret j = dec_struct set_Secret j
     \<lparr>sr_Name = [], sr_Type = [], sr_Annotations = None, sr_Data = [], sr_StringData = None\<rparr>"

definition set_Resources :: "string \<Rightarrow> json \<Rightarrow> Resources \<Rightarrow> Resources res" where
  "set_Resources k j p =
     (if field_is ''limits'' k then res_then (dec_smap j (rs_Limits p)) (\<lambda>x. Ok (p\<lparr>rs_Limits := x\<rparr>))
      else if field_is ''requests'' k then res_then (dec_smap j (rs_Requests p)) (\<lambda>x. Ok (p\<lparr>rs_Requests := x\<rparr>))
      else Ok p)"

definition set_VMProps :: "string \<Rightarrow> json \<Rightarrow> VMCloudProperties \<Rightarrow> VMCloudProperties res" where
  "set_VMProps k j p =
     (if field_is ''context'' k then res_then (dec_string j (cp_Context p)) (\<lambda>x. Ok (p\<lparr>cp_Context := x\<rparr>))
      else if field_is ''services'' k then res_then (dec_list dec_Service j) (\<lambda>x. Ok (p\<lparr>cp_Services := x\<rparr>))
      else if field_is ''secrets'' k then res_then (dec_list dec_Secret j) (\<lambda>x. Ok (p\<lparr>cp_Secrets := x\<rparr>))
      else if field_is ''resources'' k then
        res_then (dec_struct set_Resources j (cp_Resources p)) (\<lambda>x. Ok (p\<lparr>cp_Resources := x\<rparr>))
      else if field_is ''replicas'' k then res_then (dec_int32_ptr j) (\<lambda>x. Ok (p\<lparr>cp_Replicas := x\<rparr>))
      else Ok p)"

definition zero_VMProps :: VMCloudProperties where
  "zero_VMProps = \<lparr>cp_Context = [], cp_Services = [], cp_Secrets = [],
     cp_Resources = \<lparr>rs_Limits = None, rs_Requests = None\<rparr>, cp_Replicas = None\<rparr>"

definition dec_VMProps :: "json \<Rightarrow> VMCloudProperties res" where
  "dec_VMProps j = dec_struct set_VMProps j zero_VMProps"

section \<open>Networks and environment\<close>

text \<open>A \<^verbatim>\<open>map[string]interface{}\<close>.\<close>

definition dec_untyped_map :: "json \<Rightarrow> (string, json) gomap option \<Rightarrow> (string, json) gomap option res" where
  "dec_untyped_map = dec_map dec_untyped"

definition set_Network :: "string \<Rightarrow> json \<Rightarrow> Network \<Rightarrow> Network res" where
  "set_Network k j n =
     (if field_is ''type'' k then res_then (dec_string j (nw_Type n)) (\<lambda>x. Ok (n\<lparr>nw_Type := x\<rparr>))
      else if field_is ''ip'' k then res_then (dec_string j (nw_IP n)) (\<lambda>x. Ok (n\<lparr>nw_IP := x\<rparr>))
      else if field_is ''netmask'' k then res_then (dec_string j (nw_Netmask n)) (\<lambda>x. Ok (n\<lparr>nw_Netmask := x\<rparr>))
      else if field_is ''gateway'' k then res_then (dec_string j (nw_Gateway n)) (\<lambda>x. Ok (n\<lparr>nw_Gateway := x\<rparr>))
      else if field_is ''dns'' k then res_then (dec_strings j) (\<lambda>x. Ok (n\<lparr>nw_DNS := x\<rparr>))
      else if field_is ''default'' k then res_then (dec_strings j) (\<lambda>x. Ok (n\<lparr>nw_Default := x\<rparr>))
      else if field_is ''cloud_properties'' k then
        res_then (dec_untyped_map j (nw_CloudProperties n)) (\<lambda>x. Ok (n\<lparr>nw_CloudProperties := x\<rparr>))
      else Ok n)"

definition zero_Network :: Network where
  "zero_Network = \<lparr>nw_Type = [], nw_IP = [], nw_Netmask = [], nw_Gateway = [], nw_DNS = None, nw_Default = None,
     nw_CloudProperties = None\<rparr>"

definition dec_Network :: "json \<Rightarrow> Network res" where
  "dec_Network j = dec_struct set_Network j zero_Network"

definition dec_Networks :: "json \<Rightarrow> Networks res" where
  "dec_Networks j = res_then (dec_map dec_Network j None) (\<lambda>m. Ok (case m of None \<Rightarrow> [] | Some n \<Rightarrow> n))"

definition dec_Environment :: "json \<Rightarrow> Environment res" where
  "dec_Environment j = dec_untyped_map j None"

section \<open>What decoding establishes\<close>

lemma dec_members_all:
  "dec_members (\<lambda>k j m. res_then (dec j) (\<lambda>x. Ok (gput k x m))) ms m0 = Ok m1 \<Longrightarrow>
     (\<And>j x. j \<in> snd ` set ms \<Longrightarrow> dec j = Ok x \<Longrightarrow> Q x) \<Longrightarrow> \<forall>e \<in> set m0. Q (snd e) \<Longrightarrow> \<forall>e \<in> set m1. Q (snd e)"
proof (induction ms arbitrary: m0)
  case (Cons e ms)
  obtain k j where e: "e = (k, j)" by fastforce
  with Cons.prems(1) obtain x where x: "dec j = Ok x"
    and r: "dec_members (\<lambda>k j m. res_then (dec j) (\<lambda>x. Ok (gput k x m))) ms (gput k x m0) = Ok m1"
    by (auto simp: res_then_Ok)
  have "Q x" using Cons.prems(2) [OF _ x] e by simp
  then have m0: "\<forall>e \<in> set (gput k x m0). Q (snd e)"
    using Cons.prems(3) by (auto dest: set_gput)
  show ?case
  proof (rule Cons.IH [OF r _ m0])
    fix j' x' assume "j' \<in> snd ` set ms" and "dec j' = Ok x'"
    then show "Q x'" by (intro Cons.prems(2)) simp_all
  qed
qed simp

lemma dec_untyped_map_canon:
  assumes "wf_json j" and "dec_untyped_map j None = Ok (Some m)"
  shows "canon_map m"
proof (cases j)
  case (JObj ms)
  then have d: "dec_members (\<lambda>k j m. res_then (dec_untyped j) (\<lambda>x. Ok (gput k x m))) ms [] = Ok m"
    using assms(2) by (auto simp: dec_untyped_map_def res_then_Ok simp del: res_then_simps)
  have "\<forall>e \<in> set m. canonical (snd e)"
    by (rule dec_members_all [OF d])
      (use assms(1) JObj dec_untyped_ok in \<open>force simp: wf_members_iff\<close>, simp)
  moreover have "gomap_ok m"
    using dec_map_ok [OF assms(2) [unfolded dec_untyped_map_def]] by (simp add: map_ok_def)
  ultimately show ?thesis by (simp add: canon_map_def)
qed (use assms in \<open>auto simp: dec_untyped_map_def type_error_def\<close>)

lemma dec_Environment_ok: "wf_json j \<Longrightarrow> dec_Environment j = Ok env \<Longrightarrow> env_ok env"
  using dec_untyped_map_canon by (auto simp: dec_Environment_def env_ok_def split: option.splits)

end
