(* ===== verification/Dispatch.thy ===== *)
theory Dispatch
  imports Requests
begin

text \<open>
  \<^verbatim>\<open>cpi/dispatch.go\<close>: calling an action with the arguments of a request. The source inspects the
  action's type by reflection; here an action is a record of its parameter types, whether the last
  is variadic, and its call, which gives the list of its result values. \<^verbatim>\<open>cpi/errors.go\<close> is the
  three errors the director knows by type.
\<close>

section \<open>Values and types of parameters\<close>

datatype gotype =
    TString | TUint | TMap | TStemcellProps | TDiskProps | TVMProps | TNetworks | TEnvironment
  | TSlice gotype

datatype goval =
    VString string
  | VUint "64 word"
  | VMap "smap option"
  | VStemcellProps string
  | VDiskProps CreateDiskCloudProperties
  | VVMProps VMCloudProperties
  | VNetworks Networks
  | VEnvironment Environment
  | VSlice "goval list"

text \<open>\<^verbatim>\<open>json.Unmarshal\<close> into a new value of a type.\<close>

fun decode :: "gotype \<Rightarrow> json \<Rightarrow> goval res" where
  "decode TString j = res_then (dec_string j []) (\<lambda>x. Ok (VString x))"
| "decode TUint j = res_then (dec_uint j 0) (\<lambda>x. Ok (VUint x))"
| "decode TMap j = res_then (dec_smap j None) (\<lambda>x. Ok (VMap x))"
| "decode TStemcellProps j = res_then (dec_StemcellProps j) (\<lambda>x. Ok (VStemcellProps x))"
| "decode TDiskProps j = res_then (dec_DiskProps j) (\<lambda>x. Ok (VDiskProps x))"
| "decode TVMProps j = res_then (dec_VMProps j) (\<lambda>x. Ok (VVMProps x))"
| "decode TNetworks j = res_then (dec_Networks j) (\<lambda>x. Ok (VNetworks x))"
| "decode TEnvironment j = res_then (dec_Environment j) (\<lambda>x. Ok (VEnvironment x))"
| "decode (TSlice t) j = res_then (dec_list (decode t) j) (\<lambda>x. Ok (VSlice x))"

text \<open>The values of a type.\<close>

primrec has_type :: "gotype \<Rightarrow> goval \<Rightarrow> bool" where
  "has_type TString v = (case v of VString x \<Rightarrow> True | _ \<Rightarrow> False)"
| "has_type TUint v = (case v of VUint x \<Rightarrow> True | _ \<Rightarrow> False)"
| "has_type TMap v = (case v of VMap x \<Rightarrow> True | _ \<Rightarrow> False)"
| "has_type TStemcellProps v = (case v of VStemcellProps x \<Rightarrow> True | _ \<Rightarrow> False)"
| "has_type TDiskProps v = (case v of VDiskProps x \<Rightarrow> True | _ \<Rightarrow> False)"
| "has_type TVMProps v = (case v of VVMProps x \<Rightarrow> True | _ \<Rightarrow> False)"
| "has_type TNetworks v = (case v of VNetworks x \<Rightarrow> True | _ \<Rightarrow> False)"
| "has_type TEnvironment v = (case v of VEnvironment x \<Rightarrow> True | _ \<Rightarrow> False)"
| "has_type (TSlice t) v = (case v of VSlice vs \<Rightarrow> list_all (has_type t) vs | _ \<Rightarrow> False)"

text \<open>A result value of an action: of a type that implements \<^verbatim>\<open>error\<close>, or another one, here as the
  JSON it is encoded to.\<close>

datatype goresult = ResultValue json | ErrorValue "error option"

definition isErrorValue :: "goresult \<Rightarrow> bool" where
  "isErrorValue r = (case r of ErrorValue _ \<Rightarrow> True | ResultValue _ \<Rightarrow> False)"

record 's action_func =
  af_In :: "gotype list"
  af_IsVariadic :: bool
  af_Call :: "goval list \<Rightarrow> ('s, goresult list) act"

section \<open>Requests and responses\<close>

record Request =
  rq_Method :: string
  rq_Args :: "json list"
  rq_DirectorUUID :: string

record ResponseError =
  re_Type :: string
  re_Message :: string
  re_CanRetry :: bool

record Response =
  rp_Result :: json
  rp_Error :: "ResponseError option"
  rp_Log :: string

text \<open>The errors the director knows: each has a type besides its text. Only the text is ever asked for.\<close>

datatype cpi_error = NotSupported | NotImplemented | DiskNotAttached

fun cpi_error_Type :: "cpi_error \<Rightarrow> string" where
  "cpi_error_Type NotSupported = ''Bosh::Clouds::NotSupported''"
| "cpi_error_Type NotImplemented = ''Bosh::Clouds::NotImplemented''"
| "cpi_error_Type DiskNotAttached = ''Bosh::Clouds::DiskNotAttached''"

fun cpi_error_Error :: "cpi_error \<Rightarrow> string" where
  "cpi_error_Error NotSupported = ''Not supported''"
| "cpi_error_Error NotImplemented = ''Not implemented''"
| "cpi_error_Error DiskNotAttached = ''Disk not attached''"

definition NotSupportedError :: error where
  "NotSupportedError = PlainError (cpi_error_Error NotSupported)"

definition NotImplementedError :: error where
  "NotImplementedError = PlainError (cpi_error_Error NotImplemented)"

definition DiskNotAttachedError :: error where
  "DiskNotAttachedError = PlainError (cpi_error_Error DiskNotAttached)"

section \<open>Dispatch\<close>

text \<open>The type of the argument at an index; the last parameter of a variadic function takes all the
  arguments from its own on.\<close>

definition newArgValue :: "'s action_func \<Rightarrow> nat \<Rightarrow> gotype" where
  "newArgValue action index =
     (let argCount = length (af_In action)
      in if af_IsVariadic action \<and> index \<ge> argCount - 1
         then (case af_In action ! (argCount - 1) of TSlice t \<Rightarrow> t | t \<Rightarrow> t)
         else af_In action ! index)"

fun dispatch_args :: "'s action_func \<Rightarrow> nat \<Rightarrow> json list \<Rightarrow> goval list res" where
  "dispatch_args action i [] = Ok []"
| "dispatch_args action i (arg # args) =
     res_then (res_wrap ''Unmarshalling arg'' (Remarshal arg (decode (newArgValue action i)))) (\<lambda>argValue.
     res_then (dispatch_args action (Suc i) args) (\<lambda>argValues. Ok (argValue # argValues)))"

definition response_of :: "json \<Rightarrow> error option \<Rightarrow> Response" where
  "response_of result e =
     \<lparr>rp_Result = result,
      rp_Error = (case e of None \<Rightarrow> None
                  | Some e' \<Rightarrow> Some \<lparr>re_Type = [], re_Message = Error e', re_CanRetry = False\<rparr>),
      rp_Log = []\<rparr>"

text \<open>What the encoder makes of an error that is returned as the result: its exported fields.\<close>

fun enc_error :: "error \<Rightarrow> json" where
  "enc_error (PlainError m) = JObj []"
| "enc_error (ComplexError e cause) = JObj [(''Err'', enc_error e), (''Cause'', enc_error cause)]"
| "enc_error (StatusError reason code m) =
     JObj [(''ErrStatus'', JObj
       ([(''metadata'', JObj []), (''status'', JStr ''Failure'')]
        @ omit_if (m = []) (''message'', JStr m)
        @ omit_if (reason = []) (''reason'', JStr reason)
        @ omit_if (code = 0) (''code'', JNum (show_nat (nat code)))))]"

definition newResponse :: "goresult list \<Rightarrow> Response res" where
  "newResponse result =
     (case result of
        [r] \<Rightarrow> (case r of ErrorValue e \<Rightarrow> Ok (response_of JNull e) | ResultValue j \<Rightarrow> Ok (response_of j None))
      | [r, r'] \<Rightarrow>
          (case r' of
             ResultValue _ \<Rightarrow> Err (PlainError ''Action error is not an error'')
           | ErrorValue e \<Rightarrow>
               Ok (response_of (case r of ResultValue j \<Rightarrow> j | ErrorValue None \<Rightarrow> JNull
                                | ErrorValue (Some e') \<Rightarrow> enc_error e') e))
      | _ \<Rightarrow> Err (PlainError ''Too many action results''))"

definition arity_error :: "string \<Rightarrow> nat \<Rightarrow> nat \<Rightarrow> error" where
  "arity_error what have_n want_n =
     PlainError (what @ '' arguments: have '' @ show_nat have_n @ '', want '' @ show_nat want_n)"

definition Dispatch :: "Request \<Rightarrow> 's action_func \<Rightarrow> ('s, Response) act" where
  "Dispatch req action =
     (let argCount = length (rq_Args req);
          requiredArgCount = (if af_IsVariadic action then length (af_In action) - 1 else length (af_In action))
      in if argCount < requiredArgCount then fail (arity_error ''Not enough'' argCount requiredArgCount)
         else if argCount > requiredArgCount \<and> \<not> af_IsVariadic action
         then fail (arity_error ''Too many'' argCount requiredArgCount)
         else and_then (lift_res (dispatch_args action 0 (rq_Args req))) (\<lambda>args.
              and_then (af_Call action args) (\<lambda>actionResult.
                lift_res (newResponse actionResult))))"

section \<open>JSON forms\<close>

definition set_Context :: "string \<Rightarrow> json \<Rightarrow> string \<Rightarrow> string res" where
  "set_Context k j u = (if field_is ''director_uuid'' k then dec_string j u else Ok u)"

definition set_Request :: "string \<Rightarrow> json \<Rightarrow> Request \<Rightarrow> Request res" where
  "set_Request k j r =
     (if field_is ''method'' k then res_then (dec_string j (rq_Method r)) (\<lambda>x. Ok (r\<lparr>rq_Method := x\<rparr>))
      else if field_is ''arguments'' k then
        res_then (dec_list dec_untyped j) (\<lambda>x. Ok (r\<lparr>rq_Args := x\<rparr>))
      else if field_is ''context'' k then
        res_then (dec_struct set_Context j (rq_DirectorUUID r)) (\<lambda>x. Ok (r\<lparr>rq_DirectorUUID := x\<rparr>))
      else Ok r)"

definition dec_Request :: "json \<Rightarrow> Request res" where
  "dec_Request j = dec_struct set_Request j \<lparr>rq_Method = [], rq_Args = [], rq_DirectorUUID = []\<rparr>"

definition enc_ResponseError :: "ResponseError \<Rightarrow> json" where
  "enc_ResponseError e =
     JObj [(''type'', JStr (re_Type e)), (''message'', JStr (re_Message e)), (''ok_to_retry'', JBool (re_CanRetry e))]"

definition enc_Response :: "Response \<Rightarrow> json" where
  "enc_Response r =
     JObj [(''result'', rp_Result r),
           (''error'', case rp_Error r of None \<Rightarrow> JNull | Some e \<Rightarrow> enc_ResponseError e),
           (''log'', JStr (rp_Log r))]"

section \<open>What dispatch promises\<close>

text \<open>The accepted numbers of arguments.\<close>

definition arity_ok :: "'s action_func \<Rightarrow> nat \<Rightarrow> bool" where
  "arity_ok action n =
     (if af_IsVariadic action then length (af_In action) - 1 \<le> n else n = length (af_In action))"

text \<open>Encoding an argument and reading it back hands the action the decoded argument itself.\<close>

lemma Remarshal_id: "wf_json j \<Longrightarrow> Remarshal j dec = dec j"
  by (simp add: Remarshal_def json_Unmarshal_def parse_print_json)

lemma dispatch_args_eq:
  "list_all wf_json args \<Longrightarrow>
     dispatch_args action i args =
       res_map (\<lambda>(k, arg). res_wrap ''Unmarshalling arg'' (decode (newArgValue action k) arg)) (enumerate i args)"
  by (induction args arbitrary: i) (simp_all add: Remarshal_id)

text \<open>A one- or two-result action in the shape every action of the CPI has.\<close>

definition err_result :: "(goval list \<Rightarrow> ('s, unit) act) \<Rightarrow> goval list \<Rightarrow> ('s, goresult list) act" where
  "err_result m args = catch (m args) (\<lambda>_. ret [ErrorValue None]) (\<lambda>e. ret [ErrorValue (Some e)])"

definition val_result :: "json \<Rightarrow> ('a \<Rightarrow> json) \<Rightarrow> (goval list \<Rightarrow> ('s, 'a) act) \<Rightarrow> goval list \<Rightarrow> ('s, goresult list) act" where
  "val_result zero enc m args =
     catch (m args) (\<lambda>x. ret [ResultValue (enc x), ErrorValue None]) (\<lambda>e. ret [ResultValue zero, ErrorValue (Some e)])"

lemma Dispatch_val:
  assumes "arity_ok action (length (rq_Args req))" and "af_Call action = val_result zero enc m"
    and "dispatch_args action 0 (rq_Args req) = Ok args"
  shows "Dispatch req action s =
    (case m args s of
       (Ok x, s') \<Rightarrow> (Ok (response_of (enc x) None), s')
     | (Err e, s') \<Rightarrow> (Ok (response_of zero (Some e)), s')
     | (Panic p, s') \<Rightarrow> (Panic p, s'))"
  using assms
  by (auto simp: Dispatch_def arity_ok_def Let_def val_result_def and_then_def catch_def newResponse_def
      split: prod.splits res.splits if_splits)

lemma Dispatch_err:
  assumes "arity_ok action (length (rq_Args req))" and "af_Call action = err_result m"
    and "dispatch_args action 0 (rq_Args req) = Ok args"
  shows "Dispatch req action s =
    (case m args s of
       (Ok x, s') \<Rightarrow> (Ok (response_of JNull None), s')
     | (Err e, s') \<Rightarrow> (Ok (response_of JNull (Some e)), s')
     | (Panic p, s') \<Rightarrow> (Panic p, s'))"
  using assms
  by (auto simp: Dispatch_def arity_ok_def Let_def err_result_def and_then_def catch_def newResponse_def
      split: prod.splits res.splits if_splits)

text \<open>No response carries an error type or allows a retry.\<close>

lemma newResponse_untyped:
  "newResponse rs = Ok resp \<Longrightarrow> rp_Error resp = Some e \<Longrightarrow> re_Type e = [] \<and> \<not> re_CanRetry e"
  by (auto simp: newResponse_def response_of_def split: list.splits goresult.splits option.splits)

lemma Dispatch_untyped:
  "Dispatch req action s = (Ok resp, s') \<Longrightarrow> rp_Error resp = Some e \<Longrightarrow> re_Type e = [] \<and> \<not> re_CanRetry e"
  by (auto simp: Dispatch_def Let_def and_then_Ok dest: newResponse_untyped split: if_splits)

section \<open>Arguments have the types of the parameters\<close>

lemma res_map_Ok: "res_map f xs = Ok ys \<longleftrightarrow> list_all2 (\<lambda>x y. f x = Ok y) xs ys"
  by (induction xs arbitrary: ys) (auto simp: res_then_Ok list_all2_Cons1)

lemma decode_typed: "decode t j = Ok x \<Longrightarrow> has_type t x"
proof (induction t arbitrary: j x)
  case (TSlice t)
  then show ?case
    by (cases j) (fastforce simp: res_then_Ok type_error_def res_map_Ok list_all_length list_all2_conv_all_nth)+
qed (auto simp: res_then_Ok)

lemma Remarshal_typed: "Remarshal j (decode t) = Ok x \<Longrightarrow> has_type t x"
  by (auto simp: Remarshal_def json_Unmarshal_def syntax_error_def dest: decode_typed split: option.splits)

lemma dispatch_args_typed:
  "dispatch_args action i args = Ok vs \<Longrightarrow> list_all2 has_type (map (newArgValue action) [i..<i + length args]) vs"
proof (induction args arbitrary: i vs)
  case (Cons arg args)
  then obtain x xs where x: "Remarshal arg (decode (newArgValue action i)) = Ok x"
    and xs: "dispatch_args action (Suc i) args = Ok xs" and vs: "vs = x # xs"
    by (auto simp: res_then_Ok res_wrap_Ok)
  have "[i..<i + length (arg # args)] = i # [Suc i..<Suc i + length args]"
    by (simp add: upt_rec)
  then show ?case
    using Remarshal_typed [OF x] Cons.IH [OF xs] vs by simp
qed simp

lemma parameter_types: "\<not> af_IsVariadic action \<Longrightarrow> map (newArgValue action) [0..<length (af_In action)] = af_In action"
  by (rule nth_equalityI) (simp_all add: newArgValue_def)

lemma dispatch_well_typed_args:
  assumes "\<not> af_IsVariadic action" and "arity_ok action (length args)" and "dispatch_args action 0 args = Ok vs"
  shows "list_all2 has_type (af_In action) vs"
  using dispatch_args_typed [OF assms(3)] parameter_types [OF assms(1)] assms(1,2) by (simp add: arity_ok_def)

section \<open>Which arguments are accepted\<close>

text \<open>Decoding an argument gives a value or an error; it never panics.\<close>

lemma dec_number_no_panic:
  "dec_uint j u \<noteq> Panic p" "dec_int32 j i \<noteq> Panic p" "dec_int64 j l \<noteq> Panic p" "dec_int32_ptr j \<noteq> Panic p"
proof -
  show "dec_uint j u \<noteq> Panic p" by (cases j) (auto simp: type_error_def split: option.splits)
  show i: "dec_int32 j i \<noteq> Panic p" for j i by (cases j) (auto simp: type_error_def split: option.splits)
  show "dec_int64 j l \<noteq> Panic p" by (cases j) (auto simp: type_error_def split: option.splits)
  show "dec_int32_ptr j \<noteq> Panic p"
  proof (cases "j = JNull")
    case False
    then have "dec_int32_ptr j = res_then (dec_int32 j 0) (\<lambda>n. Ok (Some n))" by (cases j) simp_all
    then show ?thesis by (simp add: res_then_Panic i del: dec_int32_ptr.simps dec_int32.simps)
  qed simp
qed

lemma dec_list_no_panic: "(\<And>j. dec j \<noteq> Panic p) \<Longrightarrow> dec_list dec j \<noteq> Panic p"
proof -
  assume d: "\<And>j. dec j \<noteq> Panic p"
  have "res_map dec js \<noteq> Panic p" for js
    by (induction js) (auto simp: res_then_Panic d)
  then show ?thesis by (cases j) (auto simp: type_error_def)
qed

lemma dec_opaque_no_panic: "dec_opaque j \<noteq> Panic p" "dec_opaque_ptr j \<noteq> Panic p"
proof -
  show o: "dec_opaque j \<noteq> Panic p" for j by (cases j) (auto simp: type_error_def)
  show "dec_opaque_ptr j \<noteq> Panic p" by (cases j) (auto simp: res_then_Panic o type_error_def)
qed

lemma dec_maps_no_panic: "dec_smap j m \<noteq> Panic p" "dec_untyped_map j n \<noteq> Panic p"
  by (auto simp: dec_smap_def dec_untyped_map_def dec_untyped_def type_error_def split: if_splits intro!: dec_map_no_panic)

lemmas decoders_no_panic =
  res_then_Panic dec_number_no_panic dec_opaque_no_panic dec_maps_no_panic dec_strings_no_panic dec_bool_no_panic

lemma dec_Port_no_panic: "dec_Port j \<noteq> Panic p"
  unfolding dec_Port_def by (rule dec_struct_no_panic) (auto simp: set_Port_def decoders_no_panic)

lemma dec_Service_no_panic: "dec_Service j \<noteq> Panic p"
  unfolding dec_Service_def
  by (rule dec_struct_no_panic)
    (auto simp: set_Service_def decoders_no_panic dec_list_no_panic dec_Port_no_panic)

lemma dec_Secret_no_panic: "dec_Secret j \<noteq> Panic p"
  unfolding dec_Secret_def by (rule dec_struct_no_panic) (auto simp: set_Secret_def decoders_no_panic)

lemma dec_VMProps_no_panic: "dec_VMProps j \<noteq> Panic p"
proof -
  have "dec_struct set_Resources j r \<noteq> Panic p" for j r p
    by (rule dec_struct_no_panic) (auto simp: set_Resources_def decoders_no_panic)
  then show ?thesis
    unfolding dec_VMProps_def
    by (intro dec_struct_no_panic)
      (auto simp: set_VMProps_def decoders_no_panic dec_list_no_panic dec_Service_no_panic dec_Secret_no_panic)
qed

lemma dec_Network_no_panic: "dec_Network j \<noteq> Panic p"
  unfolding dec_Network_def by (rule dec_struct_no_panic) (auto simp: set_Network_def decoders_no_panic)

lemma decode_no_panic: "decode t j \<noteq> Panic p"
proof (induction t arbitrary: j)
  case TDiskProps
  have "dec_DiskProps j \<noteq> Panic p"
    unfolding dec_DiskProps_def by (rule dec_struct_no_panic) (auto simp: set_DiskProps_def res_then_Panic)
  then show ?case by (simp add: res_then_Panic)
next
  case TStemcellProps
  have "dec_StemcellProps j \<noteq> Panic p"
    unfolding dec_StemcellProps_def by (rule dec_struct_no_panic) (auto simp: set_StemcellProps_def)
  then show ?case by (simp add: res_then_Panic)
next
  case TNetworks
  then show ?case
    using dec_map_no_panic [OF dec_Network_no_panic] by (auto simp: dec_Networks_def res_then_Panic)
next
  case (TSlice t)
  then show ?case by (simp add: res_then_Panic dec_list_no_panic)
qed (auto simp: decoders_no_panic dec_VMProps_no_panic dec_Environment_def)

lemma Remarshal_no_panic: "Remarshal j (decode t) \<noteq> Panic p"
  by (auto simp: Remarshal_def json_Unmarshal_def syntax_error_def decode_no_panic split: option.splits)

text \<open>The arguments are decoded one by one at their parameters' types, up to the first that cannot be.\<close>

lemma dispatch_args_decoded:
  "dispatch_args action i args = Ok vs \<Longrightarrow>
     length vs = length args \<and> (\<forall>k < length args. Remarshal (args ! k) (decode (newArgValue action (i + k))) = Ok (vs ! k))"
proof (induction args arbitrary: i vs)
  case (Cons arg args)
  then obtain x xs where "Remarshal arg (decode (newArgValue action i)) = Ok x"
    and "dispatch_args action (Suc i) args = Ok xs" and "vs = x # xs"
    by (auto simp: res_then_Ok res_wrap_Ok)
  with Cons.IH [of "Suc i" xs] show ?case
    by (auto simp: nth_Cons' gr0_conv_Suc less_Suc_eq_0_disj)
qed simp

lemma dispatch_args_refused:
  "dispatch_args action i args = Err e \<Longrightarrow>
     \<exists>k < length args. \<exists>e'. Remarshal (args ! k) (decode (newArgValue action (i + k))) = Err e' \<and>
       e = WrapError e' ''Unmarshalling arg''"
proof (induction args arbitrary: i)
  case (Cons arg args)
  show ?case
  proof (cases "Remarshal arg (decode (newArgValue action i))")
    case (Ok x)
    with Cons.prems have "dispatch_args action (Suc i) args = Err e"
      by (cases "dispatch_args action (Suc i) args") auto
    from Cons.IH [OF this] obtain k e' where "k < length args" "e = WrapError e' ''Unmarshalling arg''"
      "Remarshal (args ! k) (decode (newArgValue action (Suc i + k))) = Err e'" by blast
    then show ?thesis by (intro exI [of _ "Suc k"]) auto
  next
    case (Err e')
    with Cons.prems show ?thesis by (intro exI [of _ 0]) auto
  next
    case (Panic p)
    then show ?thesis using Remarshal_no_panic by blast
  qed
qed simp

lemma dispatch_args_no_panic: "dispatch_args action i args \<noteq> Panic p"
  by (induction args arbitrary: i)
    (auto simp: res_then_Panic res_wrap_def Remarshal_no_panic split: res.splits)

text \<open>A call of an action that is not variadic: refused for the number of its arguments, refused for one
  of them, or performed on the decoded values.\<close>

definition arguments_decoded :: "'s action_func \<Rightarrow> json list \<Rightarrow> goval list \<Rightarrow> bool" where
  "arguments_decoded action args vs =
     (length args = length (af_In action) \<and> list_all2 has_type (af_In action) vs \<and>
      (\<forall>k < length vs. Remarshal (args ! k) (decode (af_In action ! k)) = Ok (vs ! k)))"

lemma Dispatch_cases:
  assumes "\<not> af_IsVariadic action"
  obtains (number) "length (rq_Args req) \<noteq> length (af_In action)"
      "\<And>s. Dispatch req action s = (Err (arity_error
         (if length (rq_Args req) < length (af_In action) then ''Not enough'' else ''Too many'')
         (length (rq_Args req)) (length (af_In action))), s)"
    | (refused) k e where "length (rq_Args req) = length (af_In action)" "k < length (af_In action)"
      "Remarshal (rq_Args req ! k) (decode (af_In action ! k)) = Err e"
      "\<And>s. Dispatch req action s = (Err (WrapError e ''Unmarshalling arg''), s)"
    | (called) vs where "arguments_decoded action (rq_Args req) vs"
      "\<And>s. Dispatch req action s = and_then (af_Call action vs) (\<lambda>rs. lift_res (newResponse rs)) s"
proof (cases "length (rq_Args req) = length (af_In action)")
  case False
  with assms show ?thesis
    by (intro number) (auto simp: Dispatch_def Let_def)
next
  case True
  then have run: "Dispatch req action s = and_then (lift_res (dispatch_args action 0 (rq_Args req)))
      (\<lambda>args. and_then (af_Call action args) (\<lambda>rs. lift_res (newResponse rs))) s" for s
    using assms by (simp add: Dispatch_def Let_def)
  have at: "newArgValue action k = af_In action ! k" for k
    using assms by (simp add: newArgValue_def)
  show ?thesis
  proof (cases "dispatch_args action 0 (rq_Args req)")
    case (Ok vs)
    have "arguments_decoded action (rq_Args req) vs"
      using dispatch_args_decoded [OF Ok] dispatch_well_typed_args [OF assms _ Ok] True assms
      by (simp add: arguments_decoded_def at arity_ok_def)
    then show ?thesis using called [of vs] run Ok by (simp add: act_simps)
  next
    case (Err e)
    from dispatch_args_refused [OF Err] True obtain k e' where "k < length (af_In action)"
      "Remarshal (rq_Args req ! k) (decode (af_In action ! k)) = Err e'" "e = WrapError e' ''Unmarshalling arg''"
      by (auto simp: at)
    with refused [of k e'] True run Err show ?thesis by (simp add: act_simps)
  next
    case (Panic p)
    then show ?thesis using dispatch_args_no_panic by blast
  qed
qed

end
