(* ===== verification/Config.thy ===== *)
theory Config
  imports Client
begin

text \<open>
  \<^verbatim>\<open>config/kubernetes.go\<close> and \<^verbatim>\<open>kubecluster/provider.go\<close>: the CPI's own cluster configuration is turned
  into the one client-go works with, and a client is made for one of its contexts. What client-go
  does with the configuration is not code of this repository: \<open>loader\<close> collects the three calls.
\<close>

section \<open>The two configurations\<close>

record Cluster =
  kc_Server :: string
  kc_InsecureSkipTLSVerify :: bool
  kc_CertificateAuthorityData :: string

record AuthInfo =
  au_ClientCertificateData :: string
  au_ClientKeyData :: string
  au_Token :: string
  au_Username :: string
  au_Password :: string
  au_AuthProvider :: string
  au_IdpIssuerURL :: string
  au_ClientSecret :: string
  au_ClientID :: string
  au_RefreshToken :: string

record KubeContext =
  kx_Cluster :: string
  kx_AuthInfo :: string
  kx_Namespace :: string

text \<open>The maps hold pointers: an entry may be nil.\<close>

record Kubernetes =
  kb_Clusters :: "(string, Cluster option) gomap"
  kb_AuthInfos :: "(string, AuthInfo option) gomap"
  kb_Contexts :: "(string, KubeContext option) gomap"
  kb_CurrentContext :: string

record api_Cluster =
  acl_Server :: string
  acl_InsecureSkipTLSVerify :: bool
  acl_CertificateAuthorityData :: "string option"

record api_AuthProviderConfig =
  apc_Name :: string
  apc_Config :: "smap option"

record api_AuthInfo =
  aai_ClientCertificateData :: "string option"
  aai_ClientKeyData :: "string option"
  aai_Token :: string
  aai_Username :: string
  aai_Password :: string
  aai_AuthProvider :: "api_AuthProviderConfig option"

record api_Context =
  acx_Cluster :: string
  acx_AuthInfo :: string
  acx_Namespace :: string

record api_Config =
  ccf_Clusters :: "(string, api_Cluster) gomap"
  ccf_AuthInfos :: "(string, api_AuthInfo) gomap"
  ccf_Contexts :: "(string, api_Context) gomap"
  ccf_CurrentContext :: string

section \<open>Conversion\<close>

definition bytes_if :: "string \<Rightarrow> string option" where
  "bytes_if s = (if s \<noteq> [] then Some s else None)"

definition Cluster_api :: "Cluster \<Rightarrow> api_Cluster" where
  "Cluster_api c =
     \<lparr>acl_Server = kc_Server c, acl_InsecureSkipTLSVerify = kc_InsecureSkipTLSVerify c,
      acl_CertificateAuthorityData = bytes_if (kc_CertificateAuthorityData c)\<rparr>"

definition auth_provider :: "AuthInfo \<Rightarrow> api_AuthProviderConfig option" where
  "auth_provider a =
     (if au_AuthProvider a \<noteq> []
      then Some \<lparr>apc_Name = au_AuthProvider a,
             apc_Config =
               (if au_AuthProvider a = ''oidc''
                then Some [(''idp-issuer-url'', au_IdpIssuerURL a), (''client-secret'', au_ClientSecret a),
                           (''client-id'', au_ClientID a), (''id-token'', au_Token a),
                           (''refresh-token'', au_RefreshToken a)]
                else None)\<rparr>
      else None)"

definition AuthInfo_api :: "AuthInfo \<Rightarrow> api_AuthInfo" where
  "AuthInfo_api a =
     \<lparr>aai_ClientCertificateData = bytes_if (au_ClientCertificateData a),
      aai_ClientKeyData = bytes_if (au_ClientKeyData a),
      aai_Token = au_Token a, aai_Username = au_Username a, aai_Password = au_Password a,
      aai_AuthProvider = auth_provider a\<rparr>"

definition Context_api :: "KubeContext \<Rightarrow> api_Context" where
  "Context_api c = \<lparr>acx_Cluster = kx_Cluster c, acx_AuthInfo = kx_AuthInfo c, acx_Namespace = kx_Namespace c\<rparr>"

definition nil_receiver :: string where
  "nil_receiver = ''invalid memory address or nil pointer dereference''"

text \<open>One of the three loops of \<^verbatim>\<open>ClientConfig\<close>; a nil entry makes its method panic.\<close>

fun convert_all :: "('a \<Rightarrow> 'b) \<Rightarrow> (string, 'a option) gomap \<Rightarrow> (string, 'b) gomap \<Rightarrow> (string, 'b) gomap res" where
  "convert_all api [] acc = Ok acc"
| "convert_all api ((k, None) # entries) acc = Panic nil_receiver"
| "convert_all api ((k, Some x) # entries) acc = convert_all api entries (gput k (api x) acc)"

definition ClientConfig :: "Kubernetes \<Rightarrow> api_Config res" where
  "ClientConfig k =
     res_then (convert_all Cluster_api (kb_Clusters k) []) (\<lambda>clusters.
     res_then (convert_all AuthInfo_api (kb_AuthInfos k) []) (\<lambda>authInfos.
     res_then (convert_all Context_api (kb_Contexts k) []) (\<lambda>contexts.
       Ok \<lparr>ccf_Clusters = clusters, ccf_AuthInfos = authInfos, ccf_Contexts = contexts,
           ccf_CurrentContext = kb_CurrentContext k\<rparr>)))"

section \<open>The provider\<close>

record ('rest, 's) loader =
  ld_ClientConfig :: "api_Config \<Rightarrow> string \<Rightarrow> 'rest res"
  ld_NewForConfig :: "'rest \<Rightarrow> 's clientset res"
  ld_Namespace :: "api_Config \<Rightarrow> string \<Rightarrow> string res"

definition DefaultContext :: string where
  "DefaultContext = []"

definition Provider_New :: "('rest, 's) loader \<Rightarrow> api_Config \<Rightarrow> 's provider" where
  "Provider_New ld cfg ctx =
     (let ctx' = (if ctx = DefaultContext then ccf_CurrentContext cfg else ctx)
      in res_then (res_wrap ''Getting kubeClientConfig'' (ld_ClientConfig ld cfg ctx')) (\<lambda>restConfig.
         res_then (res_wrap ''Creating a new clientset from config'' (ld_NewForConfig ld restConfig)) (\<lambda>kubeClient.
         res_then (res_wrap ''Getting namespace based on client and context'' (ld_Namespace ld cfg ctx')) (\<lambda>ns.
           Ok \<lparr>cl_context = ctx', cl_namespace = ns, cl_Clientset = kubeClient\<rparr>))))"

section \<open>What the conversion keeps\<close>

lemma convert_all_Ok:
  "convert_all api entries acc = Ok out \<Longrightarrow> gomap_ok entries \<Longrightarrow> fst ` set acc \<inter> fst ` set entries = {} \<Longrightarrow>
     gget k out = (case gget k entries of None \<Rightarrow> gget k acc | Some None \<Rightarrow> None | Some (Some x) \<Rightarrow> Some (api x))"
proof (induction api entries acc rule: convert_all.induct)
  case (3 api k' x entries acc)
  have k': "k' \<notin> fst ` set entries" "gomap_ok entries"
    using 3(3) by (auto simp: gomap_ok_def)
  then have none: "gget k' entries = None"
    by (simp add: gget_def map_of_eq_None_iff)
  have dis: "fst ` set (gput k' (api x) acc) \<inter> fst ` set entries = {}"
    using 3(4) k'(1) by (auto simp: keys_gput)
  have run: "convert_all api entries (gput k' (api x) acc) = Ok out"
    using 3(2) by simp
  show ?case
    using 3(1) [OF run k'(2) dis] none by (cases "k = k'") (simp_all split: option.splits)
qed auto

lemma convert_all_Panic: "(\<exists>p. convert_all api entries acc = Panic p) \<longleftrightarrow> None \<in> snd ` set entries"
  by (induction api entries acc rule: convert_all.induct) auto

lemma convert_all_not_Err: "convert_all api entries acc \<noteq> Err e"
  by (induction api entries acc rule: convert_all.induct) auto

lemma ClientConfig_Ok_iff:
  "(\<exists>cfg. ClientConfig k = Ok cfg) \<longleftrightarrow>
     None \<notin> snd ` set (kb_Clusters k) \<and> None \<notin> snd ` set (kb_AuthInfos k) \<and> None \<notin> snd ` set (kb_Contexts k)"
  using convert_all_Panic [of Cluster_api "kb_Clusters k" "[]"] convert_all_Panic [of AuthInfo_api "kb_AuthInfos k" "[]"]
    convert_all_Panic [of Context_api "kb_Contexts k" "[]"]
    convert_all_not_Err [of Cluster_api "kb_Clusters k" "[]"] convert_all_not_Err [of AuthInfo_api "kb_AuthInfos k" "[]"]
    convert_all_not_Err [of Context_api "kb_Contexts k" "[]"]
  unfolding ClientConfig_def
  by (cases "convert_all Cluster_api (kb_Clusters k) []"; cases "convert_all AuthInfo_api (kb_AuthInfos k) []";
      cases "convert_all Context_api (kb_Contexts k) []"; simp)

lemma Provider_New_Ok:
  "Provider_New ld cfg ctx = Ok c \<Longrightarrow>
     Context c = (if ctx = [] then ccf_CurrentContext cfg else ctx) \<and>
     ld_Namespace ld cfg (Context c) = Ok (Namespace c)"
  by (auto simp: Provider_New_def Let_def DefaultContext_def res_then_Ok res_wrap_Ok Context_def Namespace_def)

text \<open>The client configuration has exactly the contexts of the CPI's configuration.\<close>

lemma ClientConfig_contexts:
  assumes "ClientConfig k = Ok cfg" and "gomap_ok (kb_Contexts k)"
  shows "gget name (ccf_Contexts cfg) =
    (case gget name (kb_Contexts k) of None \<Rightarrow> None | Some x \<Rightarrow> map_option Context_api x)"
proof -
  have "convert_all Context_api (kb_Contexts k) [] = Ok (ccf_Contexts cfg)"
    using assms(1) by (auto simp: ClientConfig_def res_then_Ok)
  from convert_all_Ok [OF this assms(2), of name] show ?thesis by (auto split: option.splits)
qed

end
