(* ===== verification/DeleteActions.thy ===== *)
theory DeleteActions
  imports FindActions
begin

text \<open>
  \<^verbatim>\<open>actions/delete_vm.go\<close> and \<^verbatim>\<open>actions/delete_disk.go\<close>. Deleting a VM removes its pod, the
  services that carry its agent id and its config map, in this order, each by name and with a
  grace period of zero; a pod or a config map that is already gone is no error.
\<close>

section \<open>Definitions\<close>

definition deletePod :: "('s, Pod) iface \<Rightarrow> string \<Rightarrow> ('s, unit) act" where
  "deletePod podClient agentID =
     catch (if_Delete podClient (''agent-'' @ agentID) now) ret
       (\<lambda>e. if has_reason StatusReasonNotFound e then ret () else fail e)"

definition deleteConfigMap :: "('s, ConfigMap) iface \<Rightarrow> string \<Rightarrow> ('s, unit) act" where
  "deleteConfigMap configMapService agentID =
     catch (if_Delete configMapService (''agent-'' @ agentID) now) ret
       (\<lambda>e. if has_reason StatusReasonNotFound e then ret () else fail e)"

definition deleteServices :: "('s, KubeService) iface \<Rightarrow> string \<Rightarrow> ('s, unit) act" where
  "deleteServices serviceClient agentID =
     and_then (wrap_err ''Parsing agent selector'' (lift_res (selector_for agent_id_key agentID))) (\<lambda>agentSelector.
     and_then (wrap_err ''Listing service'' (if_List serviceClient (by_selector agentSelector))) (\<lambda>serviceList.
       for_each (\<lambda>service. wrap_err (''Deleting service '' @ meta_Name (svc_Meta service))
                            (if_Delete serviceClient (meta_Name (svc_Meta service)) now)) serviceList))"

text \<open>\<^verbatim>\<open>VMDeleter.Delete\<close>.\<close>

definition DeleteVM :: "'s provider \<Rightarrow> string \<Rightarrow> ('s, unit) act" where
  "DeleteVM ClientProvider vmcid =
     and_then (lift_res (ParseVMCID vmcid)) (\<lambda>(context, agentID).
     and_then (wrap_err ''Creating client'' (lift_res (ClientProvider context))) (\<lambda>client.
     and_then (wrap_err ''Deleting pod'' (deletePod (Pods client) agentID)) (\<lambda>_.
     and_then (wrap_err ''Deleting services'' (deleteServices (Services client) agentID)) (\<lambda>_.
              wrap_err ''Deleting configmaps'' (deleteConfigMap (ConfigMaps client) agentID)))))"

definition DeleteDisk :: "'s provider \<Rightarrow> string \<Rightarrow> ('s, unit) act" where
  "DeleteDisk ClientProvider diskCID =
     and_then (lift_res (ParseDiskCID diskCID)) (\<lambda>(context, diskID).
     and_then (wrap_err ''Creating client'' (lift_res (ClientProvider context))) (\<lambda>client.
       if_Delete (PersistentVolumeClaims client) (''disk-'' @ diskID) now))"

section \<open>What they promise\<close>

text \<open>The cluster after a VM is deleted: one name less in two kinds, and the services that carry the
  agent id gone. Nothing else changes.\<close>

definition without_services :: "string \<Rightarrow> (string \<Rightarrow> KubeService option) \<Rightarrow> string \<Rightarrow> KubeService option" where
  "without_services agentID svcs n =
     (case svcs n of
        None \<Rightarrow> None
      | Some svc \<Rightarrow> if labelled agent_id_key agentID (svc_Meta svc) then None else Some svc)"

definition vm_deleted :: "string \<Rightarrow> cluster \<Rightarrow> cluster" where
  "vm_deleted agentID w =
     w\<lparr>vw_Pods := (vw_Pods w)(''agent-'' @ agentID := None),
       vw_Services := without_services agentID (vw_Services w),
       vw_ConfigMaps := (vw_ConfigMaps w)(''agent-'' @ agentID := None)\<rparr>"

text \<open>What a VM deletion may touch at all.\<close>

definition vm_footprint_cleared :: "cluster \<Rightarrow> cluster" where
  "vm_footprint_cleared w = w\<lparr>vw_Pods := Map.empty, vw_Services := Map.empty, vw_ConfigMaps := Map.empty\<rparr>"

lemma footprint_eq:
  "a\<lparr>vw_Pods := Map.empty\<rparr> = b\<lparr>vw_Pods := Map.empty\<rparr> \<Longrightarrow> vm_footprint_cleared a = vm_footprint_cleared b"
  "a\<lparr>vw_Services := Map.empty\<rparr> = b\<lparr>vw_Services := Map.empty\<rparr> \<Longrightarrow> vm_footprint_cleared a = vm_footprint_cleared b"
  "a\<lparr>vw_ConfigMaps := Map.empty\<rparr> = b\<lparr>vw_ConfigMaps := Map.empty\<rparr> \<Longrightarrow> vm_footprint_cleared a = vm_footprint_cleared b"
  by (cases a; cases b; simp add: vm_footprint_cleared_def)+

lemma vw_Deployments_cleared [simp]: "vw_Deployments (vm_footprint_cleared w) = vw_Deployments w"
  by (simp add: vm_footprint_cleared_def)

section \<open>Lemmas over a lawful client\<close>

context provided_api
begin

lemma deletePod_Ok:
  assumes "inv s" and "deletePod (Pods c) agentID s = (Ok u, s')"
  shows "inv s' \<and> v s' = (v s)\<lparr>vw_Pods := (vw_Pods (v s))(''agent-'' @ agentID := None)\<rparr>"
proof -
  obtain r where d: "if_Delete (Pods c) (''agent-'' @ agentID) now s = (r, s')"
    and r: "r = Ok u \<or> (\<exists>e. r = Err e \<and> has_reason StatusReasonNotFound e)"
    using assms(2) by (auto simp: deletePod_def catch_Ok split: if_splits)
  show ?thesis
    using pods.delete_absent [OF assms(1) d r] pods.rest_Delete [OF assms(1) d] pods.inv_Delete [OF assms(1) d]
    by (auto simp: cluster_rest_eq)
qed

lemma deleteConfigMap_Ok:
  assumes "inv s" and "deleteConfigMap (ConfigMaps c) agentID s = (Ok u, s')"
  shows "inv s' \<and> v s' = (v s)\<lparr>vw_ConfigMaps := (vw_ConfigMaps (v s))(''agent-'' @ agentID := None)\<rparr>"
proof -
  obtain r where d: "if_Delete (ConfigMaps c) (''agent-'' @ agentID) now s = (r, s')"
    and r: "r = Ok u \<or> (\<exists>e. r = Err e \<and> has_reason StatusReasonNotFound e)"
    using assms(2) by (auto simp: deleteConfigMap_def catch_Ok split: if_splits)
  show ?thesis
    using cms.delete_absent [OF assms(1) d r] cms.rest_Delete [OF assms(1) d] cms.inv_Delete [OF assms(1) d]
    by (auto simp: cluster_rest_eq)
qed

lemma delete_each_Ok:
  assumes "inv s"
    and "for_each (\<lambda>svc. wrap_err (msg svc) (if_Delete (Services c) (meta_Name (svc_Meta svc)) now)) obs s = (Ok u, s')"
  shows "inv s' \<and> v s' = (v s)\<lparr>vw_Services := \<lambda>n. if n \<in> (meta_Name \<circ> svc_Meta) ` set obs then None
                                    else vw_Services (v s) n\<rparr>"
  using assms
proof (induction obs arbitrary: s)
  case Nil
  then show ?case by simp
next
  case (Cons ob obs)
  let ?n = "meta_Name (svc_Meta ob)"
  obtain u' t where d: "if_Delete (Services c) ?n now s = (Ok u', t)"
    and r: "for_each (\<lambda>svc. wrap_err (msg svc) (if_Delete (Services c) (meta_Name (svc_Meta svc)) now)) obs t = (Ok u, s')"
    using Cons.prems(2) by (auto simp: act_Ok)
  have t: "inv t" "v t = (v s)\<lparr>vw_Services := (vw_Services (v s))(?n := None)\<rparr>"
    using svcs.inv_Delete [OF Cons.prems(1) d] svcs.Delete_Ok [OF Cons.prems(1) d]
    by (auto simp: cluster_rest_eq)
  from Cons.IH [OF t(1) r] t(2) show ?case
    by (auto simp: fun_eq_iff)
qed

lemma deleteServices_Ok:
  assumes "inv s" and "IsValidLabelValue agentID = []" and "deleteServices (Services c) agentID s = (Ok u, s')"
  shows "inv s' \<and> v s' = (v s)\<lparr>vw_Services := without_services agentID (vw_Services (v s))\<rparr>"
proof -
  obtain obs t where l: "if_List (Services c) (by_selector (agent_id_key @ CHR ''='' # agentID)) s = (Ok obs, t)"
    and d: "for_each (\<lambda>svc. wrap_err (''Deleting service '' @ meta_Name (svc_Meta svc))
                            (if_Delete (Services c) (meta_Name (svc_Meta svc)) now)) obs t = (Ok u, s')"
    using assms(3) selector_for_valid [OF good_keys(1) assms(2)]
    by (auto simp: deleteServices_def act_Ok)
  have "t = s" using l by (rule svcs.List_state)
  with d have del: "inv s' \<and> v s' = (v s)\<lparr>vw_Services := \<lambda>n. if n \<in> (meta_Name \<circ> svc_Meta) ` set obs then None
                                    else vw_Services (v s) n\<rparr>"
    using delete_each_Ok [OF assms(1), of "\<lambda>svc. ''Deleting service '' @ meta_Name (svc_Meta svc)"] by simp
  have "(if n \<in> (meta_Name \<circ> svc_Meta) ` set obs then None else vw_Services (v s) n)
      = without_services agentID (vw_Services (v s)) n" for n
  proof (cases "vw_Services (v s) n")
    case None
    then show ?thesis by (simp add: without_services_def)
  next
    case (Some svc)
    then have "meta_Name (svc_Meta svc) = n" using svcs.view_key [OF assms(1)] by blast
    have "ob = svc" if "ob \<in> set obs" "meta_Name (svc_Meta ob) = n" for ob
      using that Some unfolding list_services [OF assms(1,2) l] by simp
    then have "n \<in> (meta_Name \<circ> svc_Meta) ` set obs \<longleftrightarrow> svc \<in> set obs"
      using \<open>meta_Name (svc_Meta svc) = n\<close> by (auto simp: image_iff)
    also have "\<dots> \<longleftrightarrow> labelled agent_id_key agentID (svc_Meta svc)"
      using Some \<open>meta_Name (svc_Meta svc) = n\<close> unfolding list_services [OF assms(1,2) l] by simp
    finally have "n \<in> (meta_Name \<circ> svc_Meta) ` set obs \<longleftrightarrow> labelled agent_id_key agentID (svc_Meta svc)" .
    with Some show ?thesis by (simp add: without_services_def)
  qed
  with del show ?thesis by simp
qed

lemma DeleteVM_Ok:
  assumes "inv s" and "IsValidLabelValue agentID = []" and "DeleteVM P (NewVMCID ctx agentID) s = (Ok u, s')"
  shows "inv s' \<and> v s' = vm_deleted agentID (v s)"
proof -
  obtain u1 s1 u2 s2 where 1: "deletePod (Pods c) agentID s = (Ok u1, s1)"
    and 2: "deleteServices (Services c) agentID s1 = (Ok u2, s2)"
    and 3: "deleteConfigMap (ConfigMaps c) agentID s2 = (Ok u, s')"
    using assms(3) New by (auto simp: DeleteVM_def act_Ok)
  from deletePod_Ok [OF assms(1) 1] deleteServices_Ok [OF _ assms(2) 2] deleteConfigMap_Ok [OF _ 3]
  show ?thesis by (simp add: vm_deleted_def)
qed

text \<open>Whatever the outcome, only pods, services and config maps are touched.\<close>

lemma keeps_delete:
  "keeps (\<lambda>s. inv s \<and> vm_footprint_cleared (v s) = w) (if_Delete (Pods c) n d)"
  "keeps (\<lambda>s. inv s \<and> vm_footprint_cleared (v s) = w) (if_Delete (Services c) n d)"
  "keeps (\<lambda>s. inv s \<and> vm_footprint_cleared (v s) = w) (if_Delete (ConfigMaps c) n d)"
  by (rule pods.keeps_Delete svcs.keeps_Delete cms.keeps_Delete; erule footprint_eq)+

lemma DeleteVM_frame:
  "keeps (\<lambda>s. inv s \<and> vm_footprint_cleared (v s) = w) (DeleteVM P (NewVMCID ctx agentID))"
  using New
  by (simp add: DeleteVM_def deletePod_def deleteServices_def deleteConfigMap_def)
    (intro act_intros keeps_delete svcs.keeps_read)

lemma DeleteVM_frame_final:
  assumes "inv s"
  shows "vm_footprint_cleared (v (final (DeleteVM P (NewVMCID ctx agentID)) s)) = vm_footprint_cleared (v s)"
  using keeps_final [OF DeleteVM_frame, of s "vm_footprint_cleared (v s)"] assms by simp

lemma DeleteDisk_Ok:
  assumes "inv s" and "DeleteDisk P (NewDiskCID ctx diskID) s = (Ok u, s')"
  shows "inv s' \<and> v s' = (v s)\<lparr>vw_PVCs := (vw_PVCs (v s))(''disk-'' @ diskID := None)\<rparr> \<and>
    vw_PVCs (v s) (''disk-'' @ diskID) \<noteq> None"
proof -
  have d: "if_Delete (PersistentVolumeClaims c) (''disk-'' @ diskID) now s = (Ok u, s')"
    using assms(2) New by (auto simp: DeleteDisk_def act_Ok)
  show ?thesis
    using pvcs.Delete_Ok [OF assms(1) d] pvcs.inv_Delete [OF assms(1) d] by (auto simp: cluster_rest_eq)
qed

end

end
