(* ===== verification/MetadataActions.thy ===== *)
theory MetadataActions
  imports FindActions
begin

text \<open>
  \<^verbatim>\<open>actions/set_vm_metadata.go\<close> and \<^verbatim>\<open>actions/set_disk_metadata.go\<close>: the director's metadata become
  labels under the program's prefix. On a VM the keys are lower-cased, entries that are no valid
  labels are skipped, and the labels that changed are sent as a patch. On a disk an invalid entry
  is an error, and the whole claim is updated.

  The metadata are the entries of a Go map in the order the \<^verbatim>\<open>range\<close> loop visits them.
\<close>

section \<open>Definitions\<close>

definition prefixed :: "string \<Rightarrow> string" where
  "prefixed k = ''bosh.cloudfoundry.org/'' @ k"

definition nil_map_panic :: string where
  "nil_map_panic = ''assignment to entry in nil map''"

text \<open>The loop of \<^verbatim>\<open>SetVMMetadata\<close> on the pod's labels, which may be nil.\<close>

fun set_vm_labels :: "smap \<Rightarrow> smap option \<Rightarrow> smap option res" where
  "set_vm_labels [] labels = Ok labels"
| "set_vm_labels ((k, w) # metadata) labels =
     (let k' = prefixed (ToLower k)
      in if IsQualifiedName k' = [] \<and> IsValidLabelValue w = []
         then (case labels of
                 None \<Rightarrow> Panic nil_map_panic
               | Some m \<Rightarrow> set_vm_labels metadata (Some (gput k' w m)))
         else set_vm_labels metadata labels)"

text \<open>\<^verbatim>\<open>CreateTwoWayMergePatch\<close> of two pods that differ in their labels: the entries to add or
  change, and those to remove.\<close>

definition label_diff :: "smap option \<Rightarrow> smap option \<Rightarrow> label_patch" where
  "label_diff old new =
     (let o' = (case old of None \<Rightarrow> [] | Some m \<Rightarrow> m); n' = (case new of None \<Rightarrow> [] | Some m \<Rightarrow> m)
      in map (\<lambda>(k, w). (k, Some w)) (filter (\<lambda>(k, w). gget k o' \<noteq> Some w) n') @
         map (\<lambda>(k, w). (k, None)) (filter (\<lambda>(k, w). gget k n' = None) o'))"

type_synonym Metadata = smap

definition SetVMMetadata :: "'s provider \<Rightarrow> VMCID \<Rightarrow> Metadata \<Rightarrow> ('s, unit) act" where
  "SetVMMetadata ClientProvider vmcid metadata =
     and_then (lift_res (ParseVMCID vmcid)) (\<lambda>(context, agentID).
     and_then (wrap_err ''Creating a client'' (lift_res (ClientProvider context))) (\<lambda>client.
     and_then (wrap_err ''Getting pod'' (if_Get (Pods client) (''agent-'' @ agentID))) (\<lambda>pod.
     and_then (lift_res (set_vm_labels metadata (meta_Labels (pod_Meta pod)))) (\<lambda>labels.
     and_then (wrap_err ''Patching pod''
                (if_Patch (Pods client) (meta_Name (pod_Meta pod)) (label_diff (meta_Labels (pod_Meta pod)) labels)))
       (\<lambda>_. ret ())))))"

definition metadata_error :: "string \<Rightarrow> string \<Rightarrow> string list \<Rightarrow> error" where
  "metadata_error k w errs =
     PlainError (''Error setting disk metadata: '' @ [CHR 0x22] @ k @ [CHR 0x22] @ '': '' @ [CHR 0x22] @ w @
       [CHR 0x22] @ '': '' @ Join errs '': '')"

definition disk_value :: "string \<Rightarrow> string \<Rightarrow> string" where
  "disk_value k w = (if k = ''attached_at'' then ReplaceAll w CHR '':'' CHR ''_'' else w)"

text \<open>The loop of \<^verbatim>\<open>SetDiskMetadata\<close>.\<close>

fun set_disk_labels :: "smap \<Rightarrow> smap \<Rightarrow> smap res" where
  "set_disk_labels [] labels = Ok labels"
| "set_disk_labels ((k, w) # metadata) labels =
     (let w' = disk_value k w; k' = prefixed k
      in if IsQualifiedName k' \<noteq> [] then Err (metadata_error k' w' (IsQualifiedName k'))
         else if IsValidLabelValue w' \<noteq> [] then Err (metadata_error k' w' (IsValidLabelValue w'))
         else set_disk_labels metadata (gput k' w' labels))"

definition SetDiskMetadata :: "'s provider \<Rightarrow> DiskCID \<Rightarrow> Metadata \<Rightarrow> ('s, unit) act" where
  "SetDiskMetadata ClientProvider diskCID metadata =
     and_then (lift_res (ParseDiskCID diskCID)) (\<lambda>(context, diskID).
     and_then (wrap_err ''Creating client'' (lift_res (ClientProvider context))) (\<lambda>client.
     and_then (wrap_err ''Getting PVC'' (if_Get (PersistentVolumeClaims client) (''disk-'' @ diskID))) (\<lambda>disk.
     and_then (lift_res (set_disk_labels metadata
                (case meta_Labels (pvc_Meta disk) of None \<Rightarrow> [] | Some m \<Rightarrow> m))) (\<lambda>labels.
     and_then (wrap_err ''Updating PVC''
                (if_Update (PersistentVolumeClaims client)
                   (disk\<lparr>pvc_Meta := (pvc_Meta disk)\<lparr>meta_Labels := Some labels\<rparr>\<rparr>)))
       (\<lambda>_. ret ())))))"

section \<open>What the loops compute\<close>

text \<open>The entries that are valid labels, as labels.\<close>

definition valid_label :: "string \<times> string \<Rightarrow> bool" where
  "valid_label e = (IsQualifiedName (fst e) = [] \<and> IsValidLabelValue (snd e) = [])"

definition vm_entries :: "smap \<Rightarrow> smap" where
  "vm_entries metadata = filter valid_label (map (\<lambda>(k, w). (prefixed (ToLower k), w)) metadata)"

definition disk_entries :: "smap \<Rightarrow> smap" where
  "disk_entries metadata = map (\<lambda>(k, w). (prefixed k, disk_value k w)) metadata"

text \<open>Go's map assignments one after the other.\<close>

definition put_all :: "smap \<Rightarrow> smap \<Rightarrow> smap" where
  "put_all es m = fold (\<lambda>(k, w). gput k w) es m"

lemma put_all_simps [simp]: "put_all [] m = m" "put_all ((k, w) # es) m = put_all es (gput k w m)"
  by (simp_all add: put_all_def)

lemma map_of_put_all: "map_of (put_all es m) = map_of m ++ map_of (rev es)"
  by (induction es arbitrary: m) (auto simp: gomap_simps map_of_append map_add_def fun_eq_iff split: option.splits)

lemma gomap_ok_put_all [simp]: "gomap_ok m \<Longrightarrow> gomap_ok (put_all es m)"
  by (induction es arbitrary: m) (simp_all add: split_paired_all)

lemma map_of_rev_distinct: "gomap_ok es \<Longrightarrow> map_of (rev es) = map_of es"
  by (rule map_of_eqI) (auto simp: gomap_ok_def map_of_eq_Some_iff rev_map [symmetric])

lemma set_vm_labels_Some: "set_vm_labels metadata (Some m) = Ok (Some (put_all (vm_entries metadata) m))"
  by (induction metadata "Some m" arbitrary: m rule: set_vm_labels.induct)
    (auto simp: vm_entries_def valid_label_def Let_def)

lemma set_vm_labels_None:
  "set_vm_labels metadata None = (if vm_entries metadata = [] then Ok None else Panic nil_map_panic)"
  by (induction metadata) (auto simp: vm_entries_def valid_label_def Let_def)

lemma set_disk_labels_Ok_iff:
  "set_disk_labels metadata m = Ok m' \<longleftrightarrow>
     list_all valid_label (disk_entries metadata) \<and> m' = put_all (disk_entries metadata) m"
  by (induction metadata arbitrary: m) (auto simp: disk_entries_def valid_label_def Let_def split: if_splits)

lemma set_disk_labels_no_panic: "set_disk_labels metadata m \<noteq> Panic p"
  by (induction metadata m rule: set_disk_labels.induct) (auto simp: Let_def)

text \<open>Applying a label patch.\<close>

definition apply_label_patch :: "label_patch \<Rightarrow> smap \<Rightarrow> string \<Rightarrow> string option" where
  "apply_label_patch p m k = (case map_of p k of None \<Rightarrow> gget k m | Some w \<Rightarrow> w)"

lemma map_of_map_Some: "map_of (map (\<lambda>(k, w). (k, Some w)) xs) k = map_option Some (map_of xs k)"
  by (induction xs) auto

lemma map_of_map_None: "map_of (map (\<lambda>(k, w). (k, None)) xs) k = (if map_of xs k = None then None else Some None)"
  by (induction xs) auto

lemma map_of_filter_key:
  "gomap_ok m \<Longrightarrow> map_of (filter (\<lambda>(k, w). Q k w) m) k =
     (case map_of m k of None \<Rightarrow> None | Some w \<Rightarrow> if Q k w then Some w else None)"
  unfolding gomap_ok_def
  by (induction m) (auto split: option.splits simp: map_of_eq_None_iff)

lemma apply_label_diff:
  assumes "gomap_ok old" and "gomap_ok new"
  shows "apply_label_patch (label_diff (Some old) (Some new)) old = map_of new"
proof
  fix k
  show "apply_label_patch (label_diff (Some old) (Some new)) old k = map_of new k"
    using assms
    by (auto simp: apply_label_patch_def label_diff_def map_of_append map_add_def map_of_map_Some map_of_map_None
        map_of_filter_key gget_def split: option.splits if_splits)
qed

lemma label_diff_keys:
  "(k, Some w) \<in> set (label_diff (Some old) (Some new)) \<longleftrightarrow> (k, w) \<in> set new \<and> gget k old \<noteq> Some w"
  by (auto simp: label_diff_def)

section \<open>Lemmas over a lawful client\<close>

context provided_api
begin

lemma SetVMMetadata_request:
  assumes "if_Get (Pods c) (''agent-'' @ agentID) s = (Ok pod, s')" and "meta_Labels (pod_Meta pod) = Some m"
  shows "SetVMMetadata P (NewVMCID ctx agentID) metadata s =
    and_then (wrap_err ''Patching pod'' (if_Patch (Pods c) (meta_Name (pod_Meta pod))
       (label_diff (Some m) (Some (put_all (vm_entries metadata) m))))) (\<lambda>_. ret ()) s"
  using assms New pods.Get_state [OF assms(1)]
  by (simp add: SetVMMetadata_def act_simps set_vm_labels_Some)

lemma SetVMMetadata_nil_labels:
  assumes "if_Get (Pods c) (''agent-'' @ agentID) s = (Ok pod, s')" and "meta_Labels (pod_Meta pod) = None"
    and "vm_entries metadata \<noteq> []"
  shows "SetVMMetadata P (NewVMCID ctx agentID) metadata s = (Panic nil_map_panic, s)"
  using assms New pods.Get_state [OF assms(1)]
  by (simp add: SetVMMetadata_def act_simps set_vm_labels_None)

lemma SetDiskMetadata_invalid:
  assumes "inv s" and "\<not> list_all valid_label (disk_entries metadata)"
    and "SetDiskMetadata P (NewDiskCID ctx diskID) metadata s = (r, s')"
  shows "s' = s \<and> (\<exists>e. r = Err e)"
proof -
  obtain g t where g: "if_Get (PersistentVolumeClaims c) (''disk-'' @ diskID) s = (g, t)" by fastforce
  have t: "t = s" using g by (rule pvcs.Get_state)
  have bad: "\<exists>e. set_disk_labels metadata m = Err e" for m
    using set_disk_labels_Ok_iff [of metadata m] set_disk_labels_no_panic [of metadata m] assms(2)
    by (cases "set_disk_labels metadata m") auto
  show ?thesis
  proof (cases g)
    case (Ok disk)
    obtain e where "set_disk_labels metadata (case meta_Labels (pvc_Meta disk) of None \<Rightarrow> [] | Some m \<Rightarrow> m) = Err e"
      using bad by blast
    with assms(3) Ok g t New show ?thesis by (auto simp: SetDiskMetadata_def act_simps)
  next
    case (Err e)
    with assms(3) g t New show ?thesis by (auto simp: SetDiskMetadata_def and_then_def wrap_err_def)
  next
    case (Panic p)
    with g pvcs.no_panic(4) show ?thesis by blast
  qed
qed

lemma SetDiskMetadata_Ok:
  assumes "inv s" and "SetDiskMetadata P (NewDiskCID ctx diskID) metadata s = (Ok u, s')"
  shows "\<exists>disk disk'. vw_PVCs (v s) (''disk-'' @ diskID) = Some disk \<and>
     v s' = (v s)\<lparr>vw_PVCs := (vw_PVCs (v s))(''disk-'' @ diskID \<mapsto> disk')\<rparr> \<and>
     meta_Labels (pvc_Meta disk') =
       Some (put_all (disk_entries metadata) (case meta_Labels (pvc_Meta disk) of None \<Rightarrow> [] | Some m \<Rightarrow> m)) \<and>
     list_all valid_label (disk_entries metadata)"
proof -
  obtain disk t labels disk' where g: "if_Get (PersistentVolumeClaims c) (''disk-'' @ diskID) s = (Ok disk, t)"
    and l: "set_disk_labels metadata (case meta_Labels (pvc_Meta disk) of None \<Rightarrow> [] | Some m \<Rightarrow> m) = Ok labels"
    and u: "if_Update (PersistentVolumeClaims c) (disk\<lparr>pvc_Meta := (pvc_Meta disk)\<lparr>meta_Labels := Some labels\<rparr>\<rparr>) t = (Ok disk', s')"
    using assms(2) New by (auto simp: SetDiskMetadata_def act_Ok)
  have t: "t = s" using g by (rule pvcs.Get_state)
  have disk: "vw_PVCs (v s) (''disk-'' @ diskID) = Some disk"
    using pvcs.Get_Ok [OF assms(1) _ g] by simp
  then have key: "meta_Name (pvc_Meta disk) = ''disk-'' @ diskID" "meta_Namespace (pvc_Meta disk) = cl_namespace c"
    using pvcs.view_key [OF assms(1)] by blast+
  have "vw_PVCs (v s') = (vw_PVCs (v s))(''disk-'' @ diskID \<mapsto> disk') \<and>
      (v s')\<lparr>vw_PVCs := Map.empty\<rparr> = (v s)\<lparr>vw_PVCs := Map.empty\<rparr> \<and> meta_Labels (pvc_Meta disk') = Some labels"
    using pvcs.Update_Ok [OF assms(1) _ _ u [unfolded t]] key by simp
  then show ?thesis
    using disk l by (auto simp: cluster_rest_eq set_disk_labels_Ok_iff)
qed

end

end
