(* ===== verification/VolumeManager.thy ===== *)
theory VolumeManager
  imports FindActions WaitLoop
begin

text \<open>
  \<^verbatim>\<open>actions/volume_manager.go\<close>: attaching and detaching a disk. Both rewrite the agent's settings in
  the VM's config map, change the volumes of the pod, delete the pod, create it anew and wait until
  its agent container runs.

  The clock of the source is two parameters: what a timer has counted when an event arrives is part of
  \<^const>\<open>if_Watch\<close>, and \<open>mgr_Sleep\<close> is \<^verbatim>\<open>v.Clock.Sleep\<close>.
\<close>

section \<open>Definitions\<close>

record 's VolumeManager =
  mgr_ClientProvider :: "'s provider"
  mgr_Sleep :: "Duration \<Rightarrow> ('s, unit) act"
  mgr_PodReadyTimeout :: Duration
  mgr_PostRecreateDelay :: Duration

datatype Operation = Add | Remove

definition addVolume :: "PodSpec \<Rightarrow> string \<Rightarrow> PodSpec" where
  "addVolume spec diskID =
     spec\<lparr>ps_Volumes := ps_Volumes spec @
            [\<lparr>vol_Name = ''disk-'' @ diskID, vol_Source = PersistentVolumeClaimSource (''disk-'' @ diskID)\<rparr>],
          ps_Containers := update_first (\<lambda>c. ct_Name c = ''bosh-job'')
            (\<lambda>c. c\<lparr>ct_VolumeMounts := ct_VolumeMounts c @
                [\<lparr>vm_Name = ''disk-'' @ diskID, vm_MountPath = ''/mnt/'' @ diskID, vm_SubPath = []\<rparr>]\<rparr>)
            (ps_Containers spec)\<rparr>"

definition removeVolume :: "PodSpec \<Rightarrow> string \<Rightarrow> PodSpec" where
  "removeVolume spec diskID =
     spec\<lparr>ps_Volumes := remove_first (\<lambda>v. vol_Name v = ''disk-'' @ diskID) (ps_Volumes spec),
          ps_Containers := map (\<lambda>c.
            if ct_Name c = ''bosh-job''
            then c\<lparr>ct_VolumeMounts := remove_first (\<lambda>v. vm_Name v = ''disk-'' @ diskID) (ct_VolumeMounts c)\<rparr>
            else c) (ps_Containers spec)\<rparr>"

fun updateVolumes :: "Operation \<Rightarrow> PodSpec \<Rightarrow> string \<Rightarrow> PodSpec" where
  "updateVolumes Add spec diskID = addVolume spec diskID"
| "updateVolumes Remove spec diskID = removeVolume spec diskID"

text \<open>The persistent disks of the settings, by disk CID.\<close>

fun update_disks :: "Operation \<Rightarrow> string \<Rightarrow> string \<Rightarrow> smap \<Rightarrow> smap" where
  "update_disks Add diskCID diskID disks = gput diskCID (''/mnt/'' @ diskID) disks"
| "update_disks Remove diskCID diskID disks = gdel diskCID disks"

definition updateConfigMapDisks :: "'s client \<Rightarrow> Operation \<Rightarrow> string \<Rightarrow> string \<Rightarrow> ('s, unit) act" where
  "updateConfigMapDisks client op agentID diskID =
     and_then (wrap_err ''Getting configMaps'' (if_Get (ConfigMaps client) (''agent-'' @ agentID))) (\<lambda>cm.
     and_then (wrap_err ''Unmarshalling instance settings''
                (lift_res (unmarshal_Settings (gget_str ''instance_settings'' (Some (cm_Data cm)))))) (\<lambda>settings.
       let diskCID = NewDiskCID (Context client) diskID;
           persistent = (case Persistent (st_Disks settings) of None \<Rightarrow> [] | Some m \<Rightarrow> m);
           settings' = settings\<lparr>st_Disks := (st_Disks settings)\<lparr>Persistent :=
                                   Some (update_disks op diskCID diskID persistent)\<rparr>\<rparr>;
           settingsJSON = marshal_Settings settings'
       in and_then (wrap_err ''Updating configMap''
                     (if_Update (ConfigMaps client) (cm\<lparr>cm_Data := gput ''instance_settings'' settingsJSON (cm_Data cm)\<rparr>)))
            (\<lambda>_. ret ())))"

fun isAgentContainerRunning_in :: "ContainerStatus list \<Rightarrow> bool" where
  "isAgentContainerRunning_in [] = False"
| "isAgentContainerRunning_in (st # sts) =
     (if cs_Name st = ''bosh-job'' then cs_Ready st \<and> cs_Running st else isAgentContainerRunning_in sts)"

definition isAgentContainerRunning :: "Pod \<Rightarrow> bool" where
  "isAgentContainerRunning pod =
     (if pst_Phase (pod_Status pod) \<noteq> PodRunning then False
      else isAgentContainerRunning_in (pst_ContainerStatuses (pod_Status pod)))"

definition pod_wait :: "Pod wait_spec" where
  "pod_wait = \<lparr>ws_ready = \<lambda>pod. Ok (isAgentContainerRunning pod),
     ws_unexpected = ''Unexpected pod watch event: '', ws_timeout = ''Pod create failed with a timeout''\<rparr>"

definition waitForPod :: "'s VolumeManager \<Rightarrow> ('s, Pod) iface \<Rightarrow> string \<Rightarrow> string \<Rightarrow> ('s, unit) act" where
  "waitForPod vm podService agentID resourceVersion =
     and_then (wrap_err ''Parsing agent selector'' (lift_res (selector_for agent_id_key agentID))) (\<lambda>agentSelector.
     and_then (wrap_err ''Watching pod''
                (if_Watch podService
                   \<lparr>lo_LabelSelector = agentSelector, lo_ResourceVersion = resourceVersion, lo_Watch = True\<rparr>)) (\<lambda>events.
       lift_res (timed_wait pod_wait (mgr_PodReadyTimeout vm) events)))"

text \<open>The pod as it is created anew: its name, namespace, labels and annotations kept, the address it
  had recorded in an annotation unless one is there, everything the server filled in cleared.\<close>

definition ip_annotation :: string where
  "ip_annotation = ''bosh.cloudfoundry.org/ip-address''"

definition recreated :: "Operation \<Rightarrow> string \<Rightarrow> Pod \<Rightarrow> Pod" where
  "recreated op diskID pod =
     (let m = pod_Meta pod;
          annotations = (case meta_Annotations m of None \<Rightarrow> [] | Some a \<Rightarrow> a);
          annotations' = (if gget_str ip_annotation (Some annotations) = []
                          then gput ip_annotation (pst_PodIP (pod_Status pod)) annotations else annotations)
      in \<lparr>pod_Meta = zero_ObjectMeta\<lparr>meta_Name := meta_Name m, meta_Namespace := meta_Namespace m,
                       meta_Annotations := Some annotations', meta_Labels := meta_Labels m\<rparr>,
          pod_Spec = updateVolumes op (pod_Spec pod) diskID,
          pod_Status = zero_PodStatus\<rparr>)"

definition recreatePod :: "'s VolumeManager \<Rightarrow> 's client \<Rightarrow> Operation \<Rightarrow> string \<Rightarrow> string \<Rightarrow> ('s, unit) act" where
  "recreatePod vm client op agentID diskID =
     and_then (wrap_err ''Getting pod'' (if_Get (Pods client) (''agent-'' @ agentID))) (\<lambda>pod.
     and_then (wrap_err ''Updating disk configMap'' (updateConfigMapDisks client op agentID diskID)) (\<lambda>_.
     and_then (wrap_err ''Deleting pod'' (if_Delete (Pods client) (''agent-'' @ agentID) now)) (\<lambda>_.
     and_then (wrap_err ''Recreating pod'' (if_Create (Pods client) (recreated op diskID pod))) (\<lambda>updated.
     and_then (wrap_err ''Waiting for pod recreate''
                (waitForPod vm (Pods client) agentID (meta_ResourceVersion (pod_Meta updated)))) (\<lambda>_.
       mgr_Sleep vm (mgr_PostRecreateDelay vm))))))"

definition contexts_differ :: "string \<Rightarrow> string \<Rightarrow> error" where
  "contexts_differ context vmContext =
     PlainError (''Kubernetes disk and resource pool contexts must be the same: disk: '' @ GoQuote context @
       '', resource pool: '' @ GoQuote vmContext)"

definition AttachDisk :: "'s VolumeManager \<Rightarrow> string \<Rightarrow> string \<Rightarrow> ('s, unit) act" where
  "AttachDisk vm vmcid diskCID =
     and_then (lift_res (ParseVMCID vmcid)) (\<lambda>(vmContext, agentID).
     and_then (lift_res (ParseDiskCID diskCID)) (\<lambda>(context, diskID).
       if context \<noteq> vmContext then fail (contexts_differ context vmContext)
       else and_then (wrap_err ''Creating client'' (lift_res (mgr_ClientProvider vm context))) (\<lambda>client.
              wrap_err ''Recreating pod to attach disk'' (recreatePod vm client Add agentID diskID))))"

definition DetachDisk :: "'s VolumeManager \<Rightarrow> string \<Rightarrow> string \<Rightarrow> ('s, unit) act" where
  "DetachDisk vm vmcid diskCID =
     and_then (lift_res (ParseVMCID vmcid)) (\<lambda>(vmContext, agentID).
     and_then (lift_res (ParseDiskCID diskCID)) (\<lambda>(context, diskID).
       if context \<noteq> vmContext then fail (contexts_differ context vmContext)
       else and_then (wrap_err ''Creating client'' (lift_res (mgr_ClientProvider vm context))) (\<lambda>client.
              wrap_err ''Recreating pod to detach disk'' (recreatePod vm client Remove agentID diskID))))"

section \<open>Volumes\<close>

text \<open>A disk is in a pod's specification.\<close>

definition disk_mounted :: "PodSpec \<Rightarrow> string \<Rightarrow> bool" where
  "disk_mounted spec diskID =
     ((\<exists>vol \<in> set (ps_Volumes spec). vol_Name vol = ''disk-'' @ diskID) \<or>
      (\<exists>c \<in> set (ps_Containers spec). ct_Name c = ''bosh-job'' \<and>
         (\<exists>mnt \<in> set (ct_VolumeMounts c). vm_Name mnt = ''disk-'' @ diskID)))"

lemma remove_first_snoc_new: "\<forall>x \<in> set xs. \<not> p x \<Longrightarrow> p y \<Longrightarrow> remove_first p (xs @ [y]) = xs"
  by (induction xs) auto

lemma map_after_update_first:
  "(\<And>x. x \<in> set xs \<Longrightarrow> p x \<Longrightarrow> g (f x) = x) \<Longrightarrow> (\<And>x. x \<in> set xs \<Longrightarrow> g x = x) \<Longrightarrow>
     map g (update_first p f xs) = xs"
  by (induction xs) (auto simp: map_idI)

lemma removeVolume_addVolume:
  assumes "\<not> disk_mounted spec diskID"
  shows "removeVolume (addVolume spec diskID) diskID = spec"
proof -
  have "ps_Volumes (removeVolume (addVolume spec diskID) diskID) = ps_Volumes spec"
    using assms by (simp add: removeVolume_def addVolume_def disk_mounted_def remove_first_snoc_new)
  moreover have "ps_Containers (removeVolume (addVolume spec diskID) diskID) = ps_Containers spec"
    unfolding removeVolume_def addVolume_def
    using assms
    by (simp, intro map_after_update_first)
      (auto simp: disk_mounted_def remove_first_snoc_new remove_first_absent)
  ultimately show ?thesis
    by (simp add: removeVolume_def addVolume_def)
qed

lemma removeVolume_absent: "\<not> disk_mounted spec diskID \<Longrightarrow> removeVolume spec diskID = spec"
  by (cases spec) (auto simp: removeVolume_def disk_mounted_def remove_first_absent intro!: map_idI)

section \<open>The persistent disks a VM is told of\<close>

text \<open>The abstract state attach and detach act on: the disks in the settings of the agent's config map,
  by disk CID.\<close>

definition disks_of :: "Settings \<Rightarrow> string \<Rightarrow> string option" where
  "disks_of st k = (case Persistent (st_Disks st) of None \<Rightarrow> None | Some m \<Rightarrow> gget k m)"

definition persistent_disks :: "cluster \<Rightarrow> string \<Rightarrow> (string \<Rightarrow> string option) option" where
  "persistent_disks w agentID = map_option disks_of (vm_settings w agentID)"

text \<open>The operation on it, and the settings an operation stores.\<close>

fun disk_op :: "Operation \<Rightarrow> string \<Rightarrow> string \<Rightarrow> (string \<Rightarrow> string option) \<Rightarrow> string \<Rightarrow> string option" where
  "disk_op Add diskCID diskID m = m(diskCID \<mapsto> ''/mnt/'' @ diskID)"
| "disk_op Remove diskCID diskID m = m(diskCID := None)"

definition settings_op :: "Operation \<Rightarrow> string \<Rightarrow> string \<Rightarrow> Settings \<Rightarrow> Settings" where
  "settings_op op diskCID diskID st =
     st\<lparr>st_Disks := (st_Disks st)\<lparr>Persistent :=
        Some (update_disks op diskCID diskID (case Persistent (st_Disks st) of None \<Rightarrow> [] | Some m \<Rightarrow> m))\<rparr>\<rparr>"

lemma Settings_ok_op: "Settings_ok st \<Longrightarrow> Settings_ok (settings_op op diskCID diskID st)"
  by (cases op) (auto simp: Settings_ok_def settings_op_def map_ok_def split: option.splits)

lemma disks_of_norm: "Settings_ok st \<Longrightarrow> disks_of (norm_Settings st) = disks_of st"
  by (rule ext) (auto simp: disks_of_def norm_Settings_def norm_map_def Settings_ok_def map_ok_def empty_map_def
      gget_sort split: option.splits)

lemma disks_of_op: "disks_of (settings_op op diskCID diskID st) = disk_op op diskCID diskID (disks_of st)"
  by (cases op) (auto simp: disks_of_def settings_op_def fun_eq_iff split: option.splits)

section \<open>Lemmas over a lawful client\<close>

text \<open>The cluster after an attach or detach: a new config map for the agent, a new pod.\<close>

definition with_config_map :: "string \<Rightarrow> ConfigMap \<Rightarrow> cluster \<Rightarrow> cluster" where
  "with_config_map agentID cm w = w\<lparr>vw_ConfigMaps := (vw_ConfigMaps w)(''agent-'' @ agentID \<mapsto> cm)\<rparr>"

definition with_pod :: "string \<Rightarrow> Pod option \<Rightarrow> cluster \<Rightarrow> cluster" where
  "with_pod agentID pod w = w\<lparr>vw_Pods := (vw_Pods w)(''agent-'' @ agentID := pod)\<rparr>"

lemma vm_settings_with [simp]:
  "vm_settings (with_pod agentID pod w) = vm_settings w"
  "vm_settings (with_config_map agentID cm w) agentID =
     (case unmarshal_Settings (gget_str ''instance_settings'' (Some (cm_Data cm))) of Ok st \<Rightarrow> Some st | _ \<Rightarrow> None)"
  by (auto simp: vm_settings_def with_pod_def with_config_map_def)

text \<open>The stored config map tells the agent of the changed disks.\<close>

definition updated_disks :: "'s client \<Rightarrow> Operation \<Rightarrow> string \<Rightarrow> string \<Rightarrow> cluster \<Rightarrow> ConfigMap \<Rightarrow> bool" where
  "updated_disks c op agentID diskID w cm =
     (\<exists>st. vm_settings w agentID = Some st \<and>
        unmarshal_Settings (gget_str ''instance_settings'' (Some (cm_Data cm))) =
          Ok (norm_Settings (settings_op op (NewDiskCID (Context c) diskID) diskID st)))"

lemma updated_disks_persistent:
  assumes "updated_disks c op agentID diskID w cm"
  shows "\<exists>m. persistent_disks w agentID = Some m \<and>
    persistent_disks (with_config_map agentID cm w) agentID =
      Some (disk_op op (NewDiskCID (Context c) diskID) diskID m)"
proof -
  obtain st where st: "vm_settings w agentID = Some st"
    "unmarshal_Settings (gget_str ''instance_settings'' (Some (cm_Data cm))) =
          Ok (norm_Settings (settings_op op (NewDiskCID (Context c) diskID) diskID st))"
    using assms by (auto simp: updated_disks_def)
  have "Settings_ok st"
    using st(1) by (auto simp: vm_settings_def dest: unmarshal_Settings_ok split: option.splits res.splits)
  with st show ?thesis
    by (simp add: persistent_disks_def disks_of_norm disks_of_op Settings_ok_op)
qed

context kube_api
begin

lemma updateConfigMapDisks_Ok:
  assumes "inv s" and "updateConfigMapDisks c op agentID diskID s = (Ok u, s')"
  shows "inv s' \<and> (\<exists>cm. updated_disks c op agentID diskID (v s) cm \<and> v s' = with_config_map agentID cm (v s))"
proof -
  let ?n = "''agent-'' @ agentID"
  obtain cm t st cm' where g: "if_Get (ConfigMaps c) ?n s = (Ok cm, t)"
    and st: "unmarshal_Settings (gget_str ''instance_settings'' (Some (cm_Data cm))) = Ok st"
    and u: "if_Update (ConfigMaps c) (cm\<lparr>cm_Data := gput ''instance_settings''
       (marshal_Settings (settings_op op (NewDiskCID (Context c) diskID) diskID st)) (cm_Data cm)\<rparr>) t = (Ok cm', s')"
    using assms(2) by (auto simp: updateConfigMapDisks_def act_Ok Let_def settings_op_def res_wrap_Ok)
  have t: "t = s" using g by (rule cms.Get_state)
  have cm: "vw_ConfigMaps (v s) ?n = Some cm"
    using cms.Get_Ok [OF assms(1) _ g] by simp
  then have key: "meta_Name (cm_Meta cm) = ?n" "meta_Namespace (cm_Meta cm) = cl_namespace c"
    using cms.view_key [OF assms(1)] by blast+
  have upd: "vw_ConfigMaps (v s') = (vw_ConfigMaps (v s))(?n \<mapsto> cm') \<and>
      (v s')\<lparr>vw_ConfigMaps := Map.empty\<rparr> = (v s)\<lparr>vw_ConfigMaps := Map.empty\<rparr> \<and>
      cm_Data cm' = gput ''instance_settings''
       (marshal_Settings (settings_op op (NewDiskCID (Context c) diskID) diskID st)) (cm_Data cm)"
    using cms.Update_Ok [OF assms(1) _ _ u [unfolded t]] key by simp
  have "unmarshal_Settings (gget_str ''instance_settings'' (Some (cm_Data cm'))) =
      Ok (norm_Settings (settings_op op (NewDiskCID (Context c) diskID) diskID st))"
    using upd Settings_ok_op [OF unmarshal_Settings_ok [OF st]] by (simp add: gget_str_def unmarshal_marshal_Settings)
  moreover have "vm_settings (v s) agentID = Some st"
    using cm st by (simp add: vm_settings_def)
  ultimately have "updated_disks c op agentID diskID (v s) cm'"
    by (simp add: updated_disks_def)
  moreover have "v s' = with_config_map agentID cm' (v s)"
    using upd by (auto simp: with_config_map_def cluster_rest_eq)
  moreover have "inv s'"
    using cms.inv_Update [OF assms(1) u [unfolded t]] .
  ultimately show ?thesis by blast
qed

lemma updateConfigMapDisks_not_Ok:
  assumes "inv s" and "updateConfigMapDisks c op agentID diskID s = (r, s')" and "r \<noteq> Ok ()"
  shows "inv s' \<and> v s' = v s \<and> (\<exists>e. r = Err e)"
proof -
  let ?n = "''agent-'' @ agentID"
  obtain g t where g: "if_Get (ConfigMaps c) ?n s = (g, t)" by fastforce
  have t: "t = s" using g by (rule cms.Get_state)
  show ?thesis
  proof (cases g)
    case (Ok cm)
    let ?st = "unmarshal_Settings (gget_str ''instance_settings'' (Some (cm_Data cm)))"
    have key: "meta_Name (cm_Meta cm) = ?n" "meta_Namespace (cm_Meta cm) = cl_namespace c"
      using cms.view_key [OF assms(1)] cms.Get_Ok [OF assms(1), of ?n cm] g Ok by simp_all
    show ?thesis
    proof (cases ?st)
      case (Ok st)
      obtain q x where u: "if_Update (ConfigMaps c) (cm\<lparr>cm_Data := gput ''instance_settings''
         (marshal_Settings (settings_op op (NewDiskCID (Context c) diskID) diskID st)) (cm_Data cm)\<rparr>) s = (q, x)"
        by fastforce
      have "\<exists>e. q = Err e \<and> r = Err (WrapError e ''Updating configMap'')" and x: "x = s'"
        using assms(2,3) g t \<open>g = Ok cm\<close> Ok u cms.no_panic(2)
        by (auto simp: updateConfigMapDisks_def and_then_def wrap_err_def Let_def settings_op_def split: res.splits)
      then obtain e where q: "q = Err e" and r: "r = Err (WrapError e ''Updating configMap'')" by blast
      have "vw_ConfigMaps (v s') = vw_ConfigMaps (v s)"
        "(v s')\<lparr>vw_ConfigMaps := Map.empty\<rparr> = (v s)\<lparr>vw_ConfigMaps := Map.empty\<rparr>"
        using cms.Update_Err [OF assms(1) _ _ u [unfolded q x]] key by simp_all
      with r cms.inv_Update [OF assms(1) u [unfolded x]] show ?thesis
        by (auto simp: cluster_rest_eq)
    next
      case (Err e)
      with assms g t \<open>g = Ok cm\<close> show ?thesis
        by (auto simp: updateConfigMapDisks_def and_then_def wrap_err_def)
    next
      case (Panic p)
      then show ?thesis using unmarshal_Settings_no_panic by blast
    qed
  next
    case (Err e)
    with assms g t show ?thesis
      by (auto simp: updateConfigMapDisks_def and_then_def wrap_err_def)
  next
    case (Panic p)
    with g cms.no_panic(4) show ?thesis by blast
  qed
qed

end

section \<open>Recreating the pod\<close>

text \<open>Where a call can end: nothing done; the config map rewritten and the pod kept; the config map
  rewritten and the pod gone; both replaced. There is no rollback. Each rule has the one label its
  error carries, so the error tells where the call ended.\<close>

inductive recreate_outcome ::
    "'s client \<Rightarrow> Operation \<Rightarrow> string \<Rightarrow> string \<Rightarrow> cluster \<Rightarrow> unit res \<Rightarrow> cluster \<Rightarrow> bool"
  for c op agentID diskID w where
  pod_not_read: "recreate_outcome c op agentID diskID w (Err (WrapError e ''Getting pod'')) w"
| disks_not_updated: "recreate_outcome c op agentID diskID w (Err (WrapError e ''Updating disk configMap'')) w"
| config_only: "updated_disks c op agentID diskID w cm \<Longrightarrow>
    recreate_outcome c op agentID diskID w (Err (WrapError e ''Deleting pod'')) (with_config_map agentID cm w)"
| pod_lost: "updated_disks c op agentID diskID w cm \<Longrightarrow>
    recreate_outcome c op agentID diskID w (Err (WrapError e ''Recreating pod''))
      (with_pod agentID None (with_config_map agentID cm w))"
| replaced: "updated_disks c op agentID diskID w cm \<Longrightarrow> vw_Pods w (''agent-'' @ agentID) = Some pod \<Longrightarrow>
    meta_Labels (pod_Meta pod') = meta_Labels (pod_Meta pod) \<Longrightarrow>
    claim_volumes (pod_Spec pod') = claim_volumes (updateVolumes op (pod_Spec pod) diskID) \<Longrightarrow>
    r = Ok () \<or> (\<exists>e. r = Err (WrapError e ''Waiting for pod recreate'')) \<Longrightarrow>
    recreate_outcome c op agentID diskID w r (with_pod agentID (Some pod') (with_config_map agentID cm w))"

inductive_cases recreate_outcome_OkE: "recreate_outcome c op agentID diskID w (Ok u) w'"

text \<open>Waiting changes nothing.\<close>

definition idle :: "('s \<Rightarrow> bool) \<Rightarrow> ('s \<Rightarrow> cluster) \<Rightarrow> ('s, unit) act \<Rightarrow> bool" where
  "idle ok v m = (\<forall>s. ok s \<longrightarrow> (\<exists>s'. m s = (Ok (), s') \<and> ok s' \<and> v s' = v s))"

locale volume_api = provided_api c inv v P ctx
  for c :: "'s client" and inv :: "'s \<Rightarrow> bool" and v :: "'s \<Rightarrow> cluster"
    and P :: "'s provider" and ctx :: string +
  fixes vm :: "'s VolumeManager"
  assumes mgr: "mgr_ClientProvider vm = P"
    and sleep: "idle inv v (mgr_Sleep vm (mgr_PostRecreateDelay vm))"
begin

lemma selector_for_no_panic: "IsValidLabelValue ident = [] \<Longrightarrow> selector_for agent_id_key ident \<noteq> Panic p"
  by (simp add: selector_for_valid)

lemma wait_pod_no_panic: "timed_wait pod_wait timeout evs \<noteq> Panic p"
proof -
  have "wait_loop pod_wait es \<noteq> Panic p" for es
    by (induction es) (auto simp: on_timeout_def on_event_def pod_wait_def split: event_object.splits)
  then show ?thesis by (simp add: timed_wait_def)
qed

lemma waitForPod_result:
  assumes "IsValidLabelValue agentID = []" and "waitForPod vm (Pods c) agentID rv s = (r, s')"
  shows "s' = s \<and> (r = Ok () \<or> (\<exists>e. r = Err e))"
proof -
  let ?lo = "\<lparr>lo_LabelSelector = agent_id_key @ CHR ''='' # agentID, lo_ResourceVersion = rv, lo_Watch = True\<rparr>"
  obtain q t where w: "if_Watch (Pods c) ?lo s = (q, t)" by fastforce
  have t: "t = s" using w by (rule pods.Watch_state)
  show ?thesis
  proof (cases q)
    case (Ok evs)
    with assms w t have "s' = s" "r = timed_wait pod_wait (mgr_PodReadyTimeout vm) evs"
      by (simp_all add: waitForPod_def selector_for_valid act_simps)
    then show ?thesis using wait_pod_no_panic [of _ evs] by (cases "timed_wait pod_wait (mgr_PodReadyTimeout vm) evs") auto
  next
    case (Err e)
    with assms w t show ?thesis by (auto simp: waitForPod_def selector_for_valid act_simps)
  next
    case (Panic p)
    with w pods.no_panic(5) show ?thesis by blast
  qed
qed

lemma recreatePod_outcome:
  assumes "inv s" and "IsValidLabelValue agentID = []" and "recreatePod vm c op agentID diskID s = (r, s')"
  shows "inv s' \<and> recreate_outcome c op agentID diskID (v s) r (v s')"
proof -
  let ?n = "''agent-'' @ agentID"
  obtain g t where g: "if_Get (Pods c) ?n s = (g, t)" by fastforce
  have t: "t = s" using g by (rule pods.Get_state)
  show ?thesis
  proof (cases g)
    case (Err e)
    with assms(1,3) g t show ?thesis
      by (auto simp: recreatePod_def act_simps intro: recreate_outcome.pod_not_read)
  next
    case (Panic p)
    with g pods.no_panic(4) show ?thesis by blast
  next
    case (Ok pod)
    have pod: "vw_Pods (v s) ?n = Some pod"
      using g Ok pods.Get_Ok [OF assms(1), of ?n pod] by simp
    have key: "meta_Name (pod_Meta pod) = ?n" "meta_Namespace (pod_Meta pod) = cl_namespace c"
      using pods.view_key [OF assms(1) pod] by simp_all
    obtain ru s1 where u: "updateConfigMapDisks c op agentID diskID s = (ru, s1)" by fastforce
    show ?thesis
    proof (cases "ru = Ok ()")
      case False
      from updateConfigMapDisks_not_Ok [OF assms(1) u False] assms(3) g t Ok u show ?thesis
        by (auto simp: recreatePod_def act_simps intro: recreate_outcome.disks_not_updated)
    next
      case True
      from updateConfigMapDisks_Ok [OF assms(1) u [unfolded True]] obtain cm where i1: "inv s1"
        and upd: "updated_disks c op agentID diskID (v s) cm" and v1: "v s1 = with_config_map agentID cm (v s)"
        by blast
      obtain rd s2 where d: "if_Delete (Pods c) ?n now s1 = (rd, s2)" by fastforce
      have i2: "inv s2" using pods.inv_Delete [OF i1 d] .
      show ?thesis
      proof (cases rd)
        case (Err e)
        have "v s2 = v s1"
          using pods.Delete_Err [OF i1 d [unfolded Err]] by (auto simp: cluster_rest_eq)
        moreover have "r = Err (WrapError e ''Deleting pod'')" "s' = s2"
          using assms(3) g t Ok u True d Err by (simp_all add: recreatePod_def act_simps)
        ultimately show ?thesis using i2 v1 upd by (simp add: recreate_outcome.config_only)
      next
        case (Panic p)
        with d pods.no_panic(3) show ?thesis by blast
      next
        case rd: (Ok ud)
        have v2: "v s2 = with_pod agentID None (with_config_map agentID cm (v s))"
          using pods.Delete_Ok [OF i1 d [unfolded rd]] v1 by (auto simp: cluster_rest_eq with_pod_def)
        have rk: "meta_Name (pod_Meta (recreated op diskID pod)) = ?n"
          "meta_Namespace (pod_Meta (recreated op diskID pod)) = cl_namespace c"
          "meta_Labels (pod_Meta (recreated op diskID pod)) = meta_Labels (pod_Meta pod)"
          "pod_Spec (recreated op diskID pod) = updateVolumes op (pod_Spec pod) diskID"
          using key by (simp_all add: recreated_def Let_def)
        obtain rc s3 where cr: "if_Create (Pods c) (recreated op diskID pod) s2 = (rc, s3)" by fastforce
        have i3: "inv s3" using pods.inv_Create [OF i2 cr] .
        show ?thesis
        proof (cases rc)
          case (Err e)
          have "v s3 = v s2"
            using pods.Create_Err [OF i2 _ _ cr [unfolded Err]] rk by (auto simp: cluster_rest_eq)
          moreover have "r = Err (WrapError e ''Recreating pod'')" "s' = s3"
            using assms(3) g t Ok u True d rd cr Err by (simp_all add: recreatePod_def act_simps)
          ultimately show ?thesis using i3 v2 upd by (simp add: recreate_outcome.pod_lost)
        next
          case (Panic p)
          with cr pods.no_panic(1) show ?thesis by blast
        next
          case rc: (Ok pod')
          have lab: "meta_Labels (pod_Meta pod') = meta_Labels (pod_Meta pod)"
            "claim_volumes (pod_Spec pod') = claim_volumes (updateVolumes op (pod_Spec pod) diskID)"
            and v3: "v s3 = with_pod agentID (Some pod') (with_config_map agentID cm (v s))"
            using pods.Create_Ok [OF i2 _ _ cr [unfolded rc]] rk v2
            by (auto simp: cluster_rest_eq with_pod_def)
          obtain rw s4 where w: "waitForPod vm (Pods c) agentID (meta_ResourceVersion (pod_Meta pod')) s3 = (rw, s4)"
            by fastforce
          note wr = waitForPod_result [OF assms(2) w]
          obtain s5 where sl: "mgr_Sleep vm (mgr_PostRecreateDelay vm) s3 = (Ok (), s5)" "inv s5" "v s5 = v s3"
            using sleep i3 unfolding idle_def by blast
          have "(r = Ok () \<or> (\<exists>e. r = Err (WrapError e ''Waiting for pod recreate''))) \<and> inv s' \<and> v s' = v s3"
            using assms(3) g t Ok u True d rd cr rc w wr sl i3 by (auto simp: recreatePod_def act_simps)
          then show ?thesis
            using recreate_outcome.replaced [OF upd pod lab, of r] v3 by simp
        qed
      qed
    qed
  qed
qed

lemma AttachDisk_unfold:
  "AttachDisk vm (NewVMCID ctx agentID) (NewDiskCID ctx diskID) =
     wrap_err ''Recreating pod to attach disk'' (recreatePod vm c Add agentID diskID)"
  using New by (simp add: AttachDisk_def mgr)

lemma DetachDisk_unfold:
  "DetachDisk vm (NewVMCID ctx agentID) (NewDiskCID ctx diskID) =
     wrap_err ''Recreating pod to detach disk'' (recreatePod vm c Remove agentID diskID)"
  using New by (simp add: DetachDisk_def mgr)

lemma AttachDisk_result:
  assumes "inv s" and "IsValidLabelValue agentID = []"
    and "AttachDisk vm (NewVMCID ctx agentID) (NewDiskCID ctx diskID) s = (r, s')"
  shows "\<exists>r0. r = res_wrap ''Recreating pod to attach disk'' r0 \<and> recreate_outcome c Add agentID diskID (v s) r0 (v s')"
proof -
  obtain r0 where "recreatePod vm c Add agentID diskID s = (r0, s')" "r = res_wrap ''Recreating pod to attach disk'' r0"
    using assms(3) unfolding AttachDisk_unfold by (auto simp: wrap_err_def res_wrap_def split: prod.splits)
  with recreatePod_outcome [OF assms(1,2)] show ?thesis by blast
qed

lemma DetachDisk_result:
  assumes "inv s" and "IsValidLabelValue agentID = []"
    and "DetachDisk vm (NewVMCID ctx agentID) (NewDiskCID ctx diskID) s = (r, s')"
  shows "\<exists>r0. r = res_wrap ''Recreating pod to detach disk'' r0 \<and> recreate_outcome c Remove agentID diskID (v s) r0 (v s')"
proof -
  obtain r0 where "recreatePod vm c Remove agentID diskID s = (r0, s')" "r = res_wrap ''Recreating pod to detach disk'' r0"
    using assms(3) unfolding DetachDisk_unfold by (auto simp: wrap_err_def res_wrap_def split: prod.splits)
  with recreatePod_outcome [OF assms(1,2)] show ?thesis by blast
qed

lemma recreate_outcome_Ok:
  assumes "recreate_outcome c op agentID diskID w (Ok u) w'"
  shows "\<exists>m. persistent_disks w agentID = Some m \<and>
    persistent_disks w' agentID = Some (disk_op op (NewDiskCID ctx diskID) diskID m)"
proof -
  obtain cm pod' where cm: "updated_disks c op agentID diskID w cm"
    and w': "w' = with_pod agentID (Some pod') (with_config_map agentID cm w)"
    using assms by (auto elim: recreate_outcome_OkE)
  show ?thesis
    using updated_disks_persistent [OF cm] Context_eq unfolding w' by (simp add: persistent_disks_def)
qed

lemma AttachDisk_Ok:
  assumes "inv s" and "IsValidLabelValue agentID = []"
    and "AttachDisk vm (NewVMCID ctx agentID) (NewDiskCID ctx diskID) s = (Ok u, s')"
  shows "\<exists>m. persistent_disks (v s) agentID = Some m \<and>
    persistent_disks (v s') agentID = Some (disk_op Add (NewDiskCID ctx diskID) diskID m)"
  using assms recreatePod_outcome [OF assms(1,2)] recreate_outcome_Ok
  unfolding AttachDisk_unfold wrap_err_Ok by blast

lemma DetachDisk_Ok:
  assumes "inv s" and "IsValidLabelValue agentID = []"
    and "DetachDisk vm (NewVMCID ctx agentID) (NewDiskCID ctx diskID) s = (Ok u, s')"
  shows "\<exists>m. persistent_disks (v s) agentID = Some m \<and>
    persistent_disks (v s') agentID = Some (disk_op Remove (NewDiskCID ctx diskID) diskID m)"
  using assms recreatePod_outcome [OF assms(1,2)] recreate_outcome_Ok
  unfolding DetachDisk_unfold wrap_err_Ok by blast

end

text \<open>Everything but the agent's own config map and pod is as before, whatever the outcome.\<close>

definition same_but_agent :: "string \<Rightarrow> cluster \<Rightarrow> cluster \<Rightarrow> bool" where
  "same_but_agent agentID w w' =
     (w'\<lparr>vw_ConfigMaps := (vw_ConfigMaps w')(''agent-'' @ agentID := None),
         vw_Pods := (vw_Pods w')(''agent-'' @ agentID := None)\<rparr> =
      w\<lparr>vw_ConfigMaps := (vw_ConfigMaps w)(''agent-'' @ agentID := None),
        vw_Pods := (vw_Pods w)(''agent-'' @ agentID := None)\<rparr>)"

lemma recreate_outcome_frame: "recreate_outcome c op agentID diskID w r w' \<Longrightarrow> same_but_agent agentID w w'"
  by (induction rule: recreate_outcome.induct) (simp_all add: same_but_agent_def with_pod_def with_config_map_def)

text \<open>The pod is gone exactly when creating it anew failed.\<close>

lemma recreate_outcome_pod:
  "recreate_outcome c op agentID diskID w r w' \<Longrightarrow> vw_Pods w (''agent-'' @ agentID) \<noteq> None \<Longrightarrow>
     vw_Pods w' (''agent-'' @ agentID) = None \<longleftrightarrow> (\<exists>e. r = Err (WrapError e ''Recreating pod''))"
  by (induction rule: recreate_outcome.induct) (auto simp: with_pod_def with_config_map_def)

section \<open>The disks a query reports after a change\<close>

text \<open>The change of the list of attached disks, and when a disk's volume and its claim go together.\<close>

fun attached_op :: "Operation \<Rightarrow> string \<Rightarrow> string list \<Rightarrow> string list" where
  "attached_op Add diskID ds = ds @ [diskID]"
| "attached_op Remove diskID ds = remove1 diskID ds"

fun disk_consistent :: "Operation \<Rightarrow> cluster \<Rightarrow> string \<Rightarrow> string \<Rightarrow> bool" where
  "disk_consistent Add w agentID diskID =
     (case vw_PVCs w (''disk-'' @ diskID) of None \<Rightarrow> False | Some pvc \<Rightarrow> disk_id_label pvc = Some diskID)"
| "disk_consistent Remove w agentID diskID =
     (case vw_Pods w (''agent-'' @ agentID) of
        None \<Rightarrow> False
      | Some pod \<Rightarrow> list_all (\<lambda>vol. (vol_Name vol = ''disk-'' @ diskID) = (volume_disk w vol = Some diskID))
          (ps_Volumes (pod_Spec pod)))"

lemma volume_disk_cong: "vw_PVCs w' = vw_PVCs w \<Longrightarrow> volume_disk w' = volume_disk w"
  by (rule ext) (simp add: volume_disk_def split: VolumeSource.split)

lemma volume_disk_no_claim: "\<not> is_claim_source (vol_Source vol) \<Longrightarrow> volume_disk w vol = None"
  by (cases "vol_Source vol") (simp_all add: volume_disk_def)

lemma map_filter_claims:
  "List.map_filter (volume_disk w) (filter (\<lambda>vol. is_claim_source (vol_Source vol)) vols) =
     List.map_filter (volume_disk w) vols"
  by (induction vols) (simp_all add: List.map_filter_simps volume_disk_no_claim split: option.split)

lemma attached_disks_claims:
  "vw_Pods w (''agent-'' @ agentID) = Some pod \<Longrightarrow>
     attached_disks w agentID = List.map_filter (volume_disk w) (claim_volumes (pod_Spec pod))"
  by (simp add: attached_disks_def claim_volumes_def map_filter_claims)

lemma map_filter_remove_first:
  "list_all (\<lambda>x. p x = (f x = Some d)) xs \<Longrightarrow>
     List.map_filter f (remove_first p xs) = remove1 d (List.map_filter f xs)"
  by (induction xs) (auto simp: List.map_filter_simps split: option.splits)

lemma map_filter_append: "List.map_filter f (xs @ ys) = List.map_filter f xs @ List.map_filter f ys"
  by (simp add: List.map_filter_def)

lemma map_filter_updateVolumes:
  assumes "vw_Pods w (''agent-'' @ agentID) = Some pod" and "disk_consistent op w agentID diskID"
  shows "List.map_filter (volume_disk w) (claim_volumes (updateVolumes op (pod_Spec pod) diskID)) =
    attached_op op diskID (attached_disks w agentID)"
proof (cases op)
  case Add
  with assms show ?thesis
    by (simp add: claim_volumes_def map_filter_claims addVolume_def attached_disks_def map_filter_append
        List.map_filter_simps volume_disk_def split: option.splits)
next
  case Remove
  with assms show ?thesis
    by (simp add: claim_volumes_def map_filter_claims removeVolume_def attached_disks_def map_filter_remove_first)
qed

lemma recreate_outcome_attached:
  assumes "recreate_outcome c op agentID diskID w (Ok u) w'" and "disk_consistent op w agentID diskID"
  shows "attached_disks w' agentID = attached_op op diskID (attached_disks w agentID)"
proof -
  obtain cm pod pod' where w': "w' = with_pod agentID (Some pod') (with_config_map agentID cm w)"
    and pod: "vw_Pods w (''agent-'' @ agentID) = Some pod"
    and claims: "claim_volumes (pod_Spec pod') = claim_volumes (updateVolumes op (pod_Spec pod) diskID)"
    using assms(1) by (rule recreate_outcome_OkE) simp
  have "vw_Pods w' (''agent-'' @ agentID) = Some pod'" "volume_disk w' = volume_disk w"
    unfolding w' by (simp add: with_pod_def) (intro volume_disk_cong, simp add: with_pod_def with_config_map_def)
  then have "attached_disks w' agentID = List.map_filter (volume_disk w) (claim_volumes (pod_Spec pod'))"
    by (simp only: attached_disks_claims)
  also note claims
  also note map_filter_updateVolumes [OF pod assms(2)]
  finally show ?thesis .
qed

text \<open>A pod keeps naming the claims of its volumes.\<close>

lemma updateVolumes_claims:
  "vol \<in> set (claim_volumes (updateVolumes op spec diskID)) \<Longrightarrow>
     vol \<in> set (ps_Volumes spec) \<or> vol_Source vol = PersistentVolumeClaimSource (''disk-'' @ diskID)"
  by (cases op) (auto simp: claim_volumes_def addVolume_def removeVolume_def dest: subsetD [OF set_remove_first_subset])

lemma recreate_outcome_claims_named:
  assumes "recreate_outcome c op agentID diskID w (Ok u) w'" and "claims_named w"
  shows "claims_named w'"
proof -
  obtain cm pod pod' where w': "w' = with_pod agentID (Some pod') (with_config_map agentID cm w)"
    and pod: "vw_Pods w (''agent-'' @ agentID) = Some pod"
    and claims: "claim_volumes (pod_Spec pod') = claim_volumes (updateVolumes op (pod_Spec pod) diskID)"
    using assms(1) by (rule recreate_outcome_OkE) simp
  have "vol_Source vol \<noteq> PersistentVolumeClaimSource []" if "vol \<in> set (ps_Volumes (pod_Spec pod'))" for vol
  proof
    assume e: "vol_Source vol = PersistentVolumeClaimSource []"
    with that have "vol \<in> set (claim_volumes (updateVolumes op (pod_Spec pod) diskID))"
      unfolding claims [symmetric] by (simp add: claim_volumes_def)
    with updateVolumes_claims [OF this] e assms(2) pod show False by (auto simp: claims_named_def)
  qed
  with assms(2) show ?thesis
    unfolding w' claims_named_def by (auto simp: with_pod_def with_config_map_def)
qed

context volume_api
begin

lemma GetDisks_after:
  assumes "recreate_outcome c op agentID diskID (v s) (Ok u) (v s1)" and "inv s1" and "claims_named (v s)"
    and "disk_consistent op (v s) agentID diskID"
    and "GetDisks P (NewVMCID ctx agentID) s1 = (Ok ds, s2)"
  shows "ds = map (NewDiskCID ctx) (attached_op op diskID (attached_disks (v s) agentID))"
  using GetDisks_Ok [OF assms(2) recreate_outcome_claims_named [OF assms(1,3)] assms(5)]
    recreate_outcome_attached [OF assms(1,4)] by simp

lemma GetDisks_after_attach:
  assumes "inv s" and "IsValidLabelValue agentID = []" and "claims_named (v s)"
    and "disk_consistent Add (v s) agentID diskID"
    and "AttachDisk vm (NewVMCID ctx agentID) (NewDiskCID ctx diskID) s = (Ok u, s1)"
    and "GetDisks P (NewVMCID ctx agentID) s1 = (Ok ds, s2)"
  shows "ds = map (NewDiskCID ctx) (attached_disks (v s) agentID @ [diskID])"
  using GetDisks_after [OF _ _ assms(3,4,6)] recreatePod_outcome [OF assms(1,2)] assms(5)
  unfolding AttachDisk_unfold wrap_err_Ok by fastforce

lemma GetDisks_after_detach:
  assumes "inv s" and "IsValidLabelValue agentID = []" and "claims_named (v s)"
    and "disk_consistent Remove (v s) agentID diskID"
    and "DetachDisk vm (NewVMCID ctx agentID) (NewDiskCID ctx diskID) s = (Ok u, s1)"
    and "GetDisks P (NewVMCID ctx agentID) s1 = (Ok ds, s2)"
  shows "ds = map (NewDiskCID ctx) (remove1 diskID (attached_disks (v s) agentID))"
  using GetDisks_after [OF _ _ assms(3,4,6)] recreatePod_outcome [OF assms(1,2)] assms(5)
  unfolding DetachDisk_unfold wrap_err_Ok by fastforce

end

end
