(* ===== verification/Main_CPI.thy ===== *)
theory Main_CPI
  imports Dispatch Config DeleteActions MetadataActions VolumeManager
begin

text \<open>
  \<^verbatim>\<open>cmd/cpi/main.go\<close> with \<^verbatim>\<open>actions/info.go\<close> and \<^verbatim>\<open>actions/stemcell.go\<close>: one request is read from
  the standard input, its method chooses the action, the response is printed. An error that is not
  an action's own ends the process with a panic.

  \<open>world\<close> collects what the process reads besides the request: the two configuration files, and
  the calls into libraries and the operating system.
\<close>

section \<open>The actions without a cluster\<close>

definition Info :: smap where
  "Info = [(''api_version'', ''1.0'')]"

type_synonym StemcellCID = string

definition CreateStemcell :: "string \<Rightarrow> string \<Rightarrow> StemcellCID res" where
  "CreateStemcell img cloudProps_image = Ok cloudProps_image"

definition DeleteStemcell :: "StemcellCID \<Rightarrow> unit res" where
  "DeleteStemcell stemcellCID = Ok ()"

section \<open>The process\<close>

text \<open>The durations the process waits for, in nanoseconds.\<close>

definition Second :: Duration where
  "Second = 1000000000"

definition DefaultDiskReadyTimeout :: Duration where
  "DefaultDiskReadyTimeout = 600 * Second"

definition DefaultPostRecreateDelay :: Duration where
  "DefaultPostRecreateDelay = 15 * Second"

definition DefaultPodReadyTimeout :: Duration where
  "DefaultPodReadyTimeout = 300 * Second"

definition DefaultDeploymentReadyTimeout :: Duration where
  "DefaultDeploymentReadyTimeout = 300 * Second"

record 's world =
  wd_ClientProvider :: "'s provider"
  wd_AgentConfig :: AgentConfig
  wd_ParseQuantity :: "string \<Rightarrow> quantity res"
  wd_ReadFile :: "string \<Rightarrow> ('s, string) act"
  wd_NewV4 :: "('s, string) act"
  wd_Sleep :: "Duration \<Rightarrow> ('s, unit) act"

text \<open>Go's call of the action with the decoded values. The parameter types leave one shape of list.\<close>

definition bad_call :: "('s, 'a) act" where
  "bad_call = panic ''reflect: Call using wrong argument type''"

definition enc_strs :: "string list \<Rightarrow> json" where
  "enc_strs ss = JArr (map JStr ss)"

definition slice_strings :: "goval list \<Rightarrow> string list" where
  "slice_strings vs = List.map_filter (\<lambda>x. case x of VString t \<Rightarrow> Some t | _ \<Rightarrow> None) vs"

definition map_entries :: "smap option \<Rightarrow> smap" where
  "map_entries m = (case m of None \<Rightarrow> [] | Some es \<Rightarrow> es)"

definition info_func :: "'s action_func" where
  "info_func = \<lparr>af_In = [], af_IsVariadic = False,
     af_Call = (\<lambda>_. ret [ResultValue (enc_map JStr Info)])\<rparr>"

definition create_stemcell_func :: "'s action_func" where
  "create_stemcell_func = \<lparr>af_In = [TString, TStemcellProps], af_IsVariadic = False,
     af_Call = val_result (JStr []) JStr
       (\<lambda>args. case args of [VString img, VStemcellProps p] \<Rightarrow> lift_res (CreateStemcell img p) | _ \<Rightarrow> bad_call)\<rparr>"

definition delete_stemcell_func :: "'s action_func" where
  "delete_stemcell_func = \<lparr>af_In = [TString], af_IsVariadic = False,
     af_Call = err_result (\<lambda>args. case args of [VString cid] \<Rightarrow> lift_res (DeleteStemcell cid) | _ \<Rightarrow> bad_call)\<rparr>"

definition vm_creator :: "'s world \<Rightarrow> 's VMCreator" where
  "vm_creator wd = \<lparr>vmc_AgentConfig = wd_AgentConfig wd, vmc_ClientProvider = wd_ClientProvider wd,
     vmc_DeploymentReadyTimeout = DefaultDeploymentReadyTimeout\<rparr>"

definition create_vm_func :: "'s world \<Rightarrow> 's action_func" where
  "create_vm_func wd = \<lparr>af_In = [TString, TString, TVMProps, TNetworks, TSlice TString, TEnvironment],
     af_IsVariadic = False,
     af_Call = val_result (JStr []) JStr
       (\<lambda>args. case args of
          [VString agentID, VString stemcellCID, VVMProps cloudProps, VNetworks networks, VSlice diskCIDs, VEnvironment env] \<Rightarrow>
            CreateVM (wd_ParseQuantity wd) (wd_ReadFile wd)
              (vm_creator wd) agentID stemcellCID cloudProps networks (slice_strings diskCIDs) env
        | _ \<Rightarrow> bad_call)\<rparr>"

definition delete_vm_func :: "'s world \<Rightarrow> 's action_func" where
  "delete_vm_func wd = \<lparr>af_In = [TString], af_IsVariadic = False,
     af_Call = err_result (\<lambda>args. case args of [VString cid] \<Rightarrow> DeleteVM (wd_ClientProvider wd) cid | _ \<Rightarrow> bad_call)\<rparr>"

definition has_vm_func :: "'s world \<Rightarrow> 's action_func" where
  "has_vm_func wd = \<lparr>af_In = [TString], af_IsVariadic = False,
     af_Call = val_result (JBool False) JBool
       (\<lambda>args. case args of [VString cid] \<Rightarrow> HasVM (wd_ClientProvider wd) cid | _ \<Rightarrow> bad_call)\<rparr>"

definition set_vm_metadata_func :: "'s world \<Rightarrow> 's action_func" where
  "set_vm_metadata_func wd = \<lparr>af_In = [TString, TMap], af_IsVariadic = False,
     af_Call = err_result
       (\<lambda>args. case args of [VString cid, VMap m] \<Rightarrow> SetVMMetadata (wd_ClientProvider wd) cid (map_entries m) | _ \<Rightarrow> bad_call)\<rparr>"

definition disk_creator :: "'s world \<Rightarrow> 's DiskCreator" where
  "disk_creator wd = \<lparr>dc_ClientProvider = wd_ClientProvider wd, dc_GUIDGeneratorFunc = CreateGUID (wd_NewV4 wd),
     dc_DiskReadyTimeout = DefaultDiskReadyTimeout\<rparr>"

definition create_disk_func :: "'s world \<Rightarrow> 's action_func" where
  "create_disk_func wd = \<lparr>af_In = [TUint, TDiskProps, TString], af_IsVariadic = False,
     af_Call = val_result (JStr []) JStr
       (\<lambda>args. case args of
          [VUint sz, VDiskProps cloudProps, VString vmcid] \<Rightarrow>
            CreateDisk (wd_ParseQuantity wd)
              (disk_creator wd) sz cloudProps vmcid
        | _ \<Rightarrow> bad_call)\<rparr>"

definition volume_manager :: "'s world \<Rightarrow> 's VolumeManager" where
  "volume_manager wd = \<lparr>mgr_ClientProvider = wd_ClientProvider wd, mgr_Sleep = wd_Sleep wd,
     mgr_PodReadyTimeout = DefaultPodReadyTimeout, mgr_PostRecreateDelay = DefaultPostRecreateDelay\<rparr>"

definition attach_disk_func :: "'s world \<Rightarrow> 's action_func" where
  "attach_disk_func wd = \<lparr>af_In = [TString, TString], af_IsVariadic = False,
     af_Call = err_result
       (\<lambda>args. case args of [VString vmcid, VString diskCID] \<Rightarrow> AttachDisk (volume_manager wd) vmcid diskCID | _ \<Rightarrow> bad_call)\<rparr>"

definition detach_disk_func :: "'s world \<Rightarrow> 's action_func" where
  "detach_disk_func wd = \<lparr>af_In = [TString, TString], af_IsVariadic = False,
     af_Call = err_result
       (\<lambda>args. case args of [VString vmcid, VString diskCID] \<Rightarrow> DetachDisk (volume_manager wd) vmcid diskCID | _ \<Rightarrow> bad_call)\<rparr>"

definition set_disk_metadata_func :: "'s world \<Rightarrow> 's action_func" where
  "set_disk_metadata_func wd = \<lparr>af_In = [TString, TMap], af_IsVariadic = False,
     af_Call = err_result
       (\<lambda>args. case args of [VString cid, VMap m] \<Rightarrow> SetDiskMetadata (wd_ClientProvider wd) cid (map_entries m) | _ \<Rightarrow> bad_call)\<rparr>"

definition has_disk_func :: "'s world \<Rightarrow> 's action_func" where
  "has_disk_func wd = \<lparr>af_In = [TString], af_IsVariadic = False,
     af_Call = val_result (JBool False) JBool
       (\<lambda>args. case args of [VString cid] \<Rightarrow> HasDisk (wd_ClientProvider wd) cid | _ \<Rightarrow> bad_call)\<rparr>"

definition delete_disk_func :: "'s world \<Rightarrow> 's action_func" where
  "delete_disk_func wd = \<lparr>af_In = [TString], af_IsVariadic = False,
     af_Call = err_result (\<lambda>args. case args of [VString cid] \<Rightarrow> DeleteDisk (wd_ClientProvider wd) cid | _ \<Rightarrow> bad_call)\<rparr>"

definition get_disks_func :: "'s world \<Rightarrow> 's action_func" where
  "get_disks_func wd = \<lparr>af_In = [TString], af_IsVariadic = False,
     af_Call = val_result JNull enc_strs
       (\<lambda>args. case args of [VString cid] \<Rightarrow> GetDisks (wd_ClientProvider wd) cid | _ \<Rightarrow> bad_call)\<rparr>"

text \<open>The action a method names.\<close>

definition action_table :: "'s world \<Rightarrow> (string \<times> 's action_func) list" where
  "action_table wd =
     [(''info'', info_func),
      (''create_stemcell'', create_stemcell_func),
      (''delete_stemcell'', delete_stemcell_func),
      (''create_vm'', create_vm_func wd),
      (''delete_vm'', delete_vm_func wd),
      (''has_vm'', has_vm_func wd),
      (''set_vm_metadata'', set_vm_metadata_func wd),
      (''create_disk'', create_disk_func wd),
      (''attach_disk'', attach_disk_func wd),
      (''set_disk_metadata'', set_disk_metadata_func wd),
      (''has_disk'', has_disk_func wd),
      (''delete_disk'', delete_disk_func wd),
      (''detach_disk'', detach_disk_func wd),
      (''get_disks'', get_disks_func wd)]"

text \<open>The \<^verbatim>\<open>switch\<close> on the method.\<close>

definition run_method :: "'s world \<Rightarrow> Request \<Rightarrow> ('s, Response) act" where
  "run_method wd req =
     (case map_of (action_table wd) (rq_Method req) of
        Some action \<Rightarrow> Dispatch req action
      | None \<Rightarrow>
          if rq_Method req \<in> {''configure_networks'', ''reboot_vm''} then fail NotSupportedError
          else if rq_Method req \<in> {''snapshot_disk'', ''delete_snapshot''} then fail NotImplementedError
          else fail (PlainError (''Unexpected method: '' @ GoQuote (rq_Method req))))"

text \<open>\<^verbatim>\<open>main\<close>, from the payload to the text that is printed.\<close>

definition run_main :: "'s world \<Rightarrow> string \<Rightarrow> ('s, string) act" where
  "run_main wd payload =
     (case json_Unmarshal dec_Request payload of
        Ok req \<Rightarrow> catch (run_method wd req) (\<lambda>result. ret (print_json (enc_Response result))) (\<lambda>e. panic (Error e))
      | Err e \<Rightarrow> panic (Error e)
      | Panic p \<Rightarrow> panic p)"

section \<open>Answers and panics\<close>

lemma run_main_Ok:
  "run_main wd payload s = (Ok out, s') \<longleftrightarrow>
     (\<exists>req resp. json_Unmarshal dec_Request payload = Ok req \<and> run_method wd req s = (Ok resp, s') \<and>
        out = print_json (enc_Response resp))"
  by (auto simp: run_main_def catch_Ok split: res.splits)

lemma run_main_not_Err: "run_main wd payload s \<noteq> (Err e, s')"
  by (auto simp: run_main_def catch_def split: res.splits prod.splits)

lemma run_method_unknown:
  "rq_Method req \<notin> fst ` set (action_table wd) \<Longrightarrow> \<exists>e. run_method wd req s = (Err e, s)"
  by (auto simp: run_method_def map_of_eq_None_iff [symmetric] split: option.splits)

lemma actions_fixed_arity: "(verb, action) \<in> set (action_table wd) \<Longrightarrow> \<not> af_IsVariadic action"
  by (auto simp: action_table_def info_func_def create_stemcell_func_def delete_stemcell_func_def create_vm_func_def
      delete_vm_func_def has_vm_func_def set_vm_metadata_func_def create_disk_func_def attach_disk_func_def
      set_disk_metadata_func_def has_disk_func_def delete_disk_func_def detach_disk_func_def get_disks_func_def)

text \<open>Arguments an action does not take end the process before the action is called.\<close>

lemma run_main_bad_arguments:
  assumes "json_Unmarshal dec_Request input = Ok req" and "map_of (action_table wd) (rq_Method req) = Some action"
    and "\<nexists>vs. arguments_decoded action (rq_Args req) vs"
  shows "(length (rq_Args req) \<noteq> length (af_In action) \<and>
      run_main wd input s = (Panic (Error (arity_error
         (if length (rq_Args req) < length (af_In action) then ''Not enough'' else ''Too many'')
         (length (rq_Args req)) (length (af_In action)))), s)) \<or>
    (\<exists>k < length (af_In action). \<exists>e. Remarshal (rq_Args req ! k) (decode (af_In action ! k)) = Err e \<and>
      run_main wd input s = (Panic (Error (WrapError e ''Unmarshalling arg'')), s))"
proof -
  have "run_main wd input s =
      catch (Dispatch req action) (\<lambda>result. ret (print_json (enc_Response result))) (\<lambda>e. panic (Error e)) s"
    using assms(1,2) by (simp add: run_main_def run_method_def)
  then have fails: "run_main wd input s = (Panic (Error e), s)" if "Dispatch req action s = (Err e, s)" for e
    using that by (simp add: catch_def act_simps)
  have "\<not> af_IsVariadic action" by (rule actions_fixed_arity [OF map_of_SomeD [OF assms(2)]])
  then show ?thesis
    by (cases rule: Dispatch_cases [where req = req]) (use assms(3) fails in blast)+
qed

text \<open>A request for a VM, from its method and argument to the response.\<close>

lemma run_method_has_vm:
  assumes "rq_Method req = ''has_vm''" and "rq_Args req = [JStr cid]"
  shows "run_method wd req s =
    (case HasVM (wd_ClientProvider wd) cid s of
       (Ok b, s') \<Rightarrow> (Ok (response_of (JBool b) None), s')
     | (Err e, s') \<Rightarrow> (Ok (response_of (JBool False) (Some e)), s')
     | (Panic p, s') \<Rightarrow> (Panic p, s'))"
proof -
  have m: "map_of (action_table wd) ''has_vm'' = Some (has_vm_func wd)"
    by (simp add: action_table_def)
  have a: "dispatch_args (has_vm_func wd) 0 (rq_Args req) = Ok [VString cid]"
    using assms(2) by (simp add: Remarshal_id has_vm_func_def newArgValue_def)
  have call: "af_Call (has_vm_func wd) = val_result (JBool False) JBool
      (\<lambda>args. case args of [VString cid] \<Rightarrow> HasVM (wd_ClientProvider wd) cid | _ \<Rightarrow> bad_call)"
    by (simp add: has_vm_func_def)
  have n: "arity_ok (has_vm_func wd) (length (rq_Args req))"
    using assms(2) by (simp add: arity_ok_def has_vm_func_def)
  show ?thesis
    using Dispatch_val [OF n call a, of s] m assms(1) by (simp add: run_method_def)
qed

text \<open>No response carries an error type or allows a retry.\<close>

lemma run_method_untyped:
  assumes "run_method wd req s = (Ok resp, s')" and "rp_Error resp = Some e"
  shows "re_Type e = [] \<and> \<not> re_CanRetry e"
proof (cases "map_of (action_table wd) (rq_Method req)")
  case (Some action)
  then have "Dispatch req action s = (Ok resp, s')" using assms(1) by (simp add: run_method_def)
  then show ?thesis using assms(2) by (rule Dispatch_untyped)
next
  case None
  with assms(1) show ?thesis by (simp add: run_method_def split: if_splits)
qed

end
