(* ===== verification/Scenarios.thy ===== *)
theory Scenarios
  imports Main_CPI
begin

text \<open>
  Concrete inputs: the client of the unit tests on a cluster that holds one VM, one other service and
  two disks, as the repository's own tests set it up, and the runs of the actions on it. They show
  that the hypotheses of the properties hold together.
\<close>

definition meta_of :: "string \<Rightarrow> smap \<Rightarrow> ObjectMeta" where
  "meta_of n labels = zero_ObjectMeta\<lparr>meta_Name := n, meta_Namespace := ''bosh-namespace'', meta_Labels := Some labels\<rparr>"

definition vm_pod :: Pod where
  "vm_pod = \<lparr>pod_Meta = meta_of ''agent-abc'' [(agent_id_key, ''abc'')],
     pod_Spec = \<lparr>ps_Hostname = ''abc'', ps_Containers = [agent_container ''img'' zero_ResourceRequirements],
       ps_Volumes = [\<lparr>vol_Name = ''disk-d1'', vol_Source = PersistentVolumeClaimSource ''disk-d1''\<rparr>]\<rparr>,
     pod_Status = \<lparr>pst_Phase = PodRunning, pst_PodIP = ''10.0.0.7'', pst_ContainerStatuses = []\<rparr>\<rparr>"

definition vm_config :: ConfigMap where
  "vm_config = \<lparr>cm_Meta = meta_of ''agent-abc'' [(agent_id_key, ''abc'')],
     cm_Data = [(''instance_settings'', marshal_Settings (zero_Settings\<lparr>st_AgentID := ''abc'',
       st_Disks := \<lparr>Persistent = Some [(''bosh:d1'', ''/mnt/d1'')]\<rparr>\<rparr>))]\<rparr>"

definition claim_of :: "string \<Rightarrow> PersistentVolumeClaim" where
  "claim_of d = \<lparr>pvc_Meta = meta_of (''disk-'' @ d) [(disk_id_key, d)], pvc_AccessModes = [''ReadWriteMany''],
     pvc_Requests = [], pvc_Phase = ClaimBound\<rparr>"

definition service_of :: "string \<Rightarrow> string \<Rightarrow> KubeService" where
  "service_of n a = \<lparr>svc_Meta = meta_of n [(agent_id_key, a)], svc_Type = ''ClusterIP'', svc_ClusterIP = [],
     svc_Ports = [], svc_ExternalIPs = None, svc_LoadBalancerIP = [], svc_Selector = None\<rparr>"

definition ready_pod :: Pod where
  "ready_pod = vm_pod\<lparr>pod_Status := \<lparr>pst_Phase = PodRunning, pst_PodIP = [],
     pst_ContainerStatuses = [\<lparr>cs_Name = ''bosh-job'', cs_Ready = True, cs_Running = True\<rparr>]\<rparr>\<rparr>"

definition one_vm :: fake where
  "one_vm = empty_fake\<lparr>fk_Pods := [vm_pod], fk_ConfigMaps := [vm_config],
     fk_PVCs := [claim_of ''d1'', claim_of ''d2''], fk_Services := [service_of ''web'' ''abc'', service_of ''other'' ''xyz''],
     fk_PodEvents := [(100, \<lparr>ev_Type = Modified, ev_Object = Obj vm_pod\<rparr>), (2000, \<lparr>ev_Type = Modified, ev_Object = Obj ready_pod\<rparr>)],
     fk_PVCEvents := [(1000, \<lparr>ev_Type = Modified, ev_Object = Obj (claim_of ''d3'')\<rparr>)]\<rparr>"

definition test_manager :: "fake VolumeManager" where
  "test_manager = \<lparr>mgr_ClientProvider = test_provider, mgr_Sleep = (\<lambda>_. ret ()), mgr_PodReadyTimeout = 60 * Second,
     mgr_PostRecreateDelay = 0\<rparr>"

interpretation test_volumes: volume_api test_client fake_ok "fake_view ''bosh-namespace''" test_provider "''bosh''" test_manager
  by unfold_locales (simp_all add: test_manager_def idle_def)

lemma one_vm_ok: "fake_ok one_vm"
  by (simp add: fake_ok_def one_vm_def empty_fake_def store_ok_def keys_distinct_def scope_ok_def
      vm_pod_def vm_config_def claim_of_def service_of_def meta_of_def zero_ObjectMeta_def)

lemma run_has_vm: "outcome (HasVM test_provider (NewVMCID ''bosh'' ''abc'')) one_vm = Ok True"
  by code_simp

lemma run_delete_vm: "outcome (DeleteVM test_provider (NewVMCID ''bosh'' ''abc'')) one_vm = Ok ()"
  by code_simp

lemma run_attach: "outcome (AttachDisk test_manager (NewVMCID ''bosh'' ''abc'') (NewDiskCID ''bosh'' ''d2'')) one_vm = Ok ()"
  by code_simp

lemma run_detach: "outcome (DetachDisk test_manager (NewVMCID ''bosh'' ''abc'') (NewDiskCID ''bosh'' ''d1'')) one_vm = Ok ()"
  by code_simp

lemma run_get_disks: "outcome (GetDisks test_provider (NewVMCID ''bosh'' ''abc'')) one_vm = Ok [''bosh:d1'']"
  by code_simp

lemma run_has_disk: "outcome (HasDisk test_provider (NewDiskCID ''bosh'' ''d2'')) one_vm = Ok True"
  by code_simp

lemma run_delete_disk: "outcome (DeleteDisk test_provider (NewDiskCID ''bosh'' ''d2'')) one_vm = Ok ()"
  by code_simp

definition good_metadata :: smap where
  "good_metadata = [(''director'', ''d''), (''attached_at'', ''12:30:00'')]"

definition bad_metadata :: smap where
  "bad_metadata = [(''director'', ''d''), (''note'', ''not a label'')]"

lemma run_set_disk_metadata: "outcome (SetDiskMetadata test_provider (NewDiskCID ''bosh'' ''d1'') good_metadata) one_vm = Ok ()"
  by code_simp

lemma get_vm_pod: "if_Get (Pods test_client) (''agent-'' @ ''abc'') one_vm = (Ok vm_pod, one_vm)"
  by code_simp

section \<open>Creating\<close>

definition test_creator :: "fake DiskCreator" where
  "test_creator = \<lparr>dc_ClientProvider = test_provider, dc_GUIDGeneratorFunc = CreateGUID (ret ''d3''),
     dc_DiskReadyTimeout = 60 * Second\<rparr>"

definition test_quantity :: "string \<Rightarrow> quantity res" where
  "test_quantity t = Ok (Quantity t)"

definition disk_props :: CreateDiskCloudProperties where
  "disk_props = \<lparr>cd_Context = ''bosh'', cd_StorageClass = ''fast'', cd_StorageProvisioner = ''nfs''\<rparr>"

lemma run_create_disk: "outcome (CreateDisk test_quantity test_creator 20 disk_props []) one_vm = Ok ''bosh:d3''"
  by code_simp

definition test_vmc :: "fake VMCreator" where
  "test_vmc = \<lparr>vmc_AgentConfig = \<lparr>ac_Blobstore = None, ac_MessageBus = ''nats'', ac_NTPServers = []\<rparr>,
     vmc_ClientProvider = test_provider, vmc_DeploymentReadyTimeout = 60 * Second\<rparr>"

definition test_read :: "string \<Rightarrow> (fake, string) act" where
  "test_read path = ret ''contents''"

definition private_network :: Network where
  "private_network = zero_Network\<lparr>nw_Type := ''manual'', nw_IP := ''10.1.2.3'', nw_DNS := Some [''8.8.8.8'']\<rparr>"

definition vm_props :: "int32 option \<Rightarrow> VMCloudProperties" where
  "vm_props replicas = zero_VMProps\<lparr>cp_Context := ''bosh'', cp_Replicas := replicas,
     cp_Services :=
       [\<lparr>sv_Name = ''web'', sv_Type = ''NodePort'', sv_ClusterIP = [],
         sv_Ports = [\<lparr>pt_Name = ''http'', pt_NodePort = 30080, pt_Port = 80, pt_Protocol = ''TCP'', pt_TargetPort = 8080\<rparr>],
         sv_Selector = None, sv_LoadBalancerIP = [], sv_ExternalIPs = None, sv_Backend = None, sv_TLS = [], sv_Rules = []\<rparr>],
     cp_Secrets := [\<lparr>sr_Name = ''token'', sr_Type = ''Opaque'', sr_Annotations = None, sr_Data = [(''k'', ''v'')], sr_StringData = None\<rparr>],
     cp_Resources := \<lparr>rs_Limits = Some [(''memory'', ''1Gi'')], rs_Requests = None\<rparr>\<rparr>"

definition ready_deployment :: Deployment where
  "ready_deployment = \<lparr>dep_Meta = zero_ObjectMeta, dep_Replicas = Some 2, dep_TemplateLabels = None,
     dep_Template = zero_PodSpec, dep_ProgressDeadlineSeconds = None, dep_ObservedGeneration = 1, dep_AvailableReplicas = 2\<rparr>"

definition no_vm :: fake where
  "no_vm = empty_fake\<lparr>fk_DeploymentEvents := [(1000, \<lparr>ev_Type = Modified, ev_Object = Obj ready_deployment\<rparr>)]\<rparr>"

lemma no_vm_ok: "fake_ok no_vm"
  by (simp add: fake_ok_def no_vm_def empty_fake_def store_ok_def keys_distinct_def scope_ok_def)

definition create_vm :: "int32 option \<Rightarrow> (fake, string) act" where
  "create_vm replicas = CreateVM test_quantity test_read test_vmc ''abc'' ''img'' (vm_props replicas)
     [(''private'', private_network)] [] (Some [(''bosh'', JObj [])])"

lemma test_read_reader: "file_reader test_read"
  by (simp add: file_reader_def test_read_def)

lemma vm_props_named: "names_given (vm_props replicas)"
  by (simp add: names_given_def vm_props_def)

lemma run_create_vm: "outcome (create_vm None) no_vm = Ok ''bosh:abc''"
  by code_simp

lemma run_create_deployment: "outcome (create_vm (Some 2)) no_vm = Ok ''bosh:abc''"
  by code_simp

section \<open>Facts the runs rest on\<close>

lemma valid_ids:
  "IsValidLabelValue ''abc'' = []" "IsValidLabelValue ''d1'' = []" "IsValidLabelValue ''d2'' = []"
  "IsValidLabelValue ''d3'' = []"
  by code_simp+

lemma one_vm_claims: "claims_named (fake_view ''bosh-namespace'' one_vm)"
  by (simp add: claims_named_def fake_view_def one_vm_def empty_fake_def stored_def vm_pod_def meta_of_def
      zero_ObjectMeta_def)

definition nil_vm :: fake where
  "nil_vm = one_vm\<lparr>fk_Pods := [vm_pod\<lparr>pod_Meta := (pod_Meta vm_pod)\<lparr>meta_Labels := None\<rparr>\<rparr>]\<rparr>"

lemma get_nil_pod:
  "if_Get (Pods test_client) (''agent-'' @ ''abc'') nil_vm = (Ok (vm_pod\<lparr>pod_Meta := (pod_Meta vm_pod)\<lparr>meta_Labels := None\<rparr>\<rparr>), nil_vm)"
  by code_simp

lemma good_entries: "vm_entries good_metadata \<noteq> []"
  by code_simp

lemma bad_entries: "\<not> list_all valid_label (disk_entries bad_metadata)"
  by code_simp

lemma private_network_ok: "network_ok private_network"
  by (simp add: network_ok_def private_network_def zero_Network_def)

lemma some_env_ok: "env_ok (Some [(''bosh'', JObj [])])"
  by (simp add: env_ok_def canon_map_def gomap_ok_def)

lemma test_vmc_blobstore: "any_ok (ac_Blobstore (vmc_AgentConfig test_vmc))"
  by (simp add: test_vmc_def any_ok_def)

lemma test_creator_quiet: "quiet fake_ok (fake_view ''bosh-namespace'') (dc_GUIDGeneratorFunc test_creator)"
  by (simp add: test_creator_def quiet_def CreateGUID_def catch_def)

lemma test_creator_guid: "outcome (dc_GUIDGeneratorFunc test_creator) one_vm = Ok ''d3''"
  by (simp add: test_creator_def CreateGUID_def catch_def outcome_def)

section \<open>Requests\<close>

definition test_world :: "fake world" where
  "test_world = \<lparr>wd_ClientProvider = test_provider,
     wd_AgentConfig = \<lparr>ac_Blobstore = None, ac_MessageBus = ''nats'', ac_NTPServers = []\<rparr>,
     wd_ParseQuantity = test_quantity, wd_ReadFile = test_read, wd_NewV4 = ret ''d3'', wd_Sleep = (\<lambda>_. ret ())\<rparr>"

definition request :: "string \<Rightarrow> json list \<Rightarrow> Request" where
  "request method args = \<lparr>rq_Method = method, rq_Args = args, rq_DirectorUUID = []\<rparr>"

definition payload :: "string \<Rightarrow> json list \<Rightarrow> string" where
  "payload method args = print_json (JObj [(''method'', JStr method), (''arguments'', JArr args)])"

lemma read_reboot: "json_Unmarshal dec_Request (payload ''reboot_vm'' []) = Ok (request ''reboot_vm'' [])"
  by code_simp

lemma no_reboot: "''reboot_vm'' \<notin> fst ` set (action_table test_world)"
  by (simp add: action_table_def)

end
