(* ===== verification/Encode.thy ===== *)
theory Encode
  imports Requests
begin

text \<open>
  The director's side of a request: JSON forms of the arguments of the actions, and that each is read
  back by the decoders of \<open>Requests\<close> as the value it stands for. Objects have their members in the
  order of their names, so that a value passes unchanged through the untyped argument list of a
  request. A map is given by its sorted entries; an integer by its plain decimal, up to 2 to the 53rd, since
  Go passes the numbers of an untyped value through 64-bit floats.
\<close>

section \<open>Values that pass unchanged through an untyped field\<close>

lemma canonical_JNum [simp]: "canonical (JNum l) = (is_number l \<and> finite_num l \<and> reformat l = l)"
  by (simp add: canonical_def)

lemma canonical_JObj:
  assumes "sorted_wrt (<) (map fst ms)" and "list_all (\<lambda>m. canonical (snd m)) ms"
  shows "canonical (JObj ms)"
proof -
  have so: "sorted (map fst ms)" and di: "distinct (map fst ms)"
    using assms(1) strict_sorted_iff by blast+
  then have "canon_map ms"
    using assms(2) by (auto simp: canon_map_def gomap_ok_def list_all_iff)
  then have "canonical (JObj (sort_key fst ms))" by (rule canonical_sorted_map)
  then show ?thesis using so by (simp add: sort_key_id_if_sorted)
qed

section \<open>Numbers\<close>

definition enc_uint :: "64 word \<Rightarrow> json" where
  "enc_uint n = JNum (show_nat (unat n))"

definition enc_int32 :: "int32 \<Rightarrow> json" where
  "enc_int32 i = JNum (show_int (sint i))"

definition enc_int64 :: "int64 \<Rightarrow> json" where
  "enc_int64 i = JNum (show_int (sint i))"

lemma dec_uint_enc [codec_simps]: "dec_uint (enc_uint n) old = Ok n"
  using unsigned_less [of n, where 'a = nat] by (simp add: enc_uint_def)

lemma dec_int32_enc [codec_simps]: "dec_int32 (enc_int32 i) old = Ok i"
  using sint_range_size [of i] by (simp add: enc_int32_def word_size)

lemma dec_int64_enc [codec_simps]: "dec_int64 (enc_int64 i) old = Ok i"
  using sint_range_size [of i] by (simp add: enc_int64_def word_size)

lemma canonical_exact: "is_number l \<Longrightarrow> exact_int l \<Longrightarrow> canonical (JNum l)"
  using exact_int_passes by simp

lemma canonical_enc_uint [simp]: "unat n \<le> 2 ^ 53 \<Longrightarrow> canonical (enc_uint n)"
proof -
  assume "unat n \<le> 2 ^ 53"
  then have "int (unat n) \<le> int (2 ^ 53)" by (rule zle_int [THEN iffD2])
  then have "exact_int (show_nat (unat n))" using exact_int_show [of "int (unat n)"] by (simp add: show_int_def)
  then show ?thesis unfolding enc_uint_def by (intro canonical_exact) simp_all
qed

lemma canonical_enc_int64 [simp]: "\<bar>sint k\<bar> \<le> 2 ^ 53 \<Longrightarrow> canonical (enc_int64 k)"
  unfolding enc_int64_def by (intro canonical_exact) simp_all

lemma canonical_enc_int32 [simp]: "canonical (enc_int32 i)"
  using sint_range_size [of i] unfolding enc_int32_def by (intro canonical_exact) (auto simp: word_size abs_le_iff)

section \<open>Maps and lists\<close>

text \<open>The sorted entries of a map.\<close>

definition map_sorted :: "(string, 'v) gomap option \<Rightarrow> bool" where
  "map_sorted m = (case m of None \<Rightarrow> True | Some es \<Rightarrow> sorted_wrt (<) (map fst es))"

lemma enc_map_sorted: "sorted_wrt (<) (map fst es) \<Longrightarrow> enc_map enc es = JObj (map (\<lambda>(k, x). (k, enc x)) es)"
  by (simp add: enc_map_def sort_key_id_if_sorted strict_sorted_iff)

lemma canonical_enc_map:
  assumes "sorted_wrt (<) (map fst es)" and "\<And>x. x \<in> snd ` set es \<Longrightarrow> canonical (enc x)"
  shows "canonical (enc_map enc es)"
  unfolding enc_map_sorted [OF assms(1)]
  using assms by (intro canonical_JObj) (auto simp: list_all_iff comp_def case_prod_beta)

lemma canonical_enc_map_opt:
  "map_sorted m \<Longrightarrow> (\<And>es x. m = Some es \<Longrightarrow> x \<in> snd ` set es \<Longrightarrow> canonical (enc x)) \<Longrightarrow> canonical (enc_map_opt enc m)"
  by (auto simp: enc_map_opt_def map_sorted_def intro!: canonical_enc_map split: option.splits)

lemma dec_map_enc_sorted:
  assumes "sorted_wrt (<) (map fst es)" and "\<And>x. x \<in> snd ` set es \<Longrightarrow> dec (enc x) = Ok x"
  shows "dec_map dec (enc_map enc es) None = Ok (Some es)"
proof -
  have "gomap_ok es" "sort_key fst es = es"
    using assms(1) by (simp_all add: gomap_ok_def sort_key_id_if_sorted strict_sorted_iff)
  with dec_map_enc [of es dec enc] assms(2) show ?thesis by simp
qed

lemma dec_map_opt_sorted:
  "map_sorted m \<Longrightarrow> (\<And>es x. m = Some es \<Longrightarrow> x \<in> snd ` set es \<Longrightarrow> dec (enc x) = Ok x) \<Longrightarrow>
     dec_map dec (enc_map_opt enc m) None = Ok m"
  by (auto simp: enc_map_opt_def map_sorted_def intro!: dec_map_enc_sorted split: option.splits)

definition enc_smap :: "smap option \<Rightarrow> json" where
  "enc_smap = enc_map_opt JStr"

lemma canonical_enc_smap [simp]: "map_sorted m \<Longrightarrow> canonical (enc_smap m)"
  by (simp add: enc_smap_def canonical_enc_map_opt)

lemma dec_smap_enc [codec_simps]: "map_sorted m \<Longrightarrow> dec_smap (enc_smap m) None = Ok m"
  by (simp add: enc_smap_def dec_smap_def dec_map_opt_sorted)

text \<open>A field that starts as an empty map is read like one that starts as nil, null apart.\<close>

lemma dec_smap_enc_data [codec_simps]: "map_sorted (Some m) \<Longrightarrow> dec_smap (enc_smap (Some m)) (Some []) = Ok (Some m)"
  using dec_smap_enc [of "Some m"] by (simp add: enc_smap_def dec_smap_def enc_map_opt_def enc_map_def)

lemma canonical_enc_strings_opt [simp]: "canonical (enc_strings_opt ss)"
  by (cases ss) (simp_all add: enc_strings_opt_def enc_strings_def list_all_iff)

definition enc_list :: "('a \<Rightarrow> json) \<Rightarrow> 'a list \<Rightarrow> json" where
  "enc_list enc xs = JArr (map enc xs)"

lemma canonical_enc_list: "list_all (\<lambda>x. canonical (enc x)) xs \<Longrightarrow> canonical (enc_list enc xs)"
  by (simp add: enc_list_def list_all_iff)

lemma res_map_enc: "list_all (\<lambda>x. dec (enc x) = Ok x) xs \<Longrightarrow> res_map dec (map enc xs) = Ok xs"
  by (induction xs) simp_all

lemma dec_list_enc: "list_all (\<lambda>x. dec (enc x) = Ok x) xs \<Longrightarrow> dec_list dec (enc_list enc xs) = Ok xs"
  by (simp add: enc_list_def res_map_enc)

text \<open>An opaque struct is an object, or null for its zero value.\<close>

fun is_object :: "json \<Rightarrow> bool" where
  "is_object (JObj ms) = True"
| "is_object _ = False"

definition opaque_ok :: "json \<Rightarrow> bool" where
  "opaque_ok j = (canonical j \<and> (j = JNull \<or> is_object j))"

definition opaque_ptr_ok :: "json option \<Rightarrow> bool" where
  "opaque_ptr_ok j = (case j of None \<Rightarrow> True | Some j' \<Rightarrow> canonical j' \<and> is_object j')"

definition enc_opaque_ptr :: "json option \<Rightarrow> json" where
  "enc_opaque_ptr j = (case j of None \<Rightarrow> JNull | Some j' \<Rightarrow> j')"

lemma dec_opaque_ok: "opaque_ok j \<Longrightarrow> dec_opaque j = Ok j"
  by (cases j) (auto simp: opaque_ok_def)

lemma dec_opaque_ptr_enc: "opaque_ptr_ok j \<Longrightarrow> dec_opaque_ptr (enc_opaque_ptr j) = Ok j"
  by (auto simp: opaque_ptr_ok_def enc_opaque_ptr_def elim: is_object.elims split: option.splits)

lemma canonical_opaque_ptr: "opaque_ptr_ok j \<Longrightarrow> canonical (enc_opaque_ptr j)"
  by (auto simp: opaque_ptr_ok_def enc_opaque_ptr_def split: option.splits)

section \<open>Cloud properties\<close>

definition enc_DiskProps :: "CreateDiskCloudProperties \<Rightarrow> json" where
  "enc_DiskProps p = JObj [(''context'', JStr (cd_Context p)), (''storage_class'', JStr (cd_StorageClass p)),
     (''storage_provisioner'', JStr (cd_StorageProvisioner p))]"

definition enc_StemcellProps :: "string \<Rightarrow> json" where
  "enc_StemcellProps p = JObj [(''image'', JStr p)]"

definition enc_Port :: "Port \<Rightarrow> json" where
  "enc_Port p = JObj [(''name'', JStr (pt_Name p)), (''node_port'', enc_int32 (pt_NodePort p)),
     (''port'', enc_int32 (pt_Port p)), (''protocol'', JStr (pt_Protocol p)), (''target_port'', enc_int64 (pt_TargetPort p))]"

definition enc_Service :: "Service \<Rightarrow> json" where
  "enc_Service p = JObj [(''backend'', enc_opaque_ptr (sv_Backend p)), (''cluster_ip'', JStr (sv_ClusterIP p)),
     (''external_ips'', enc_strings_opt (sv_ExternalIPs p)), (''load_balancer_ip'', JStr (sv_LoadBalancerIP p)),
     (''name'', JStr (sv_Name p)), (''ports'', enc_list enc_Port (sv_Ports p)), (''rules'', enc_list (\<lambda>j. j) (sv_Rules p)),
     (''selector'', enc_smap (sv_Selector p)), (''tls'', enc_list (\<lambda>j. j) (sv_TLS p)), (''type'', JStr (sv_Type p))]"

definition enc_Secret :: "Secret \<Rightarrow> json" where
  "enc_Secret p = JObj [(''annotations'', enc_smap (sr_Annotations p)), (''data'', enc_smap (Some (sr_Data p))),
     (''name'', JStr (sr_Name p)), (''string_data'', enc_smap (sr_StringData p)), (''type'', JStr (sr_Type p))]"

definition enc_Resources :: "Resources \<Rightarrow> json" where
  "enc_Resources p = JObj [(''limits'', enc_smap (rs_Limits p)), (''requests'', enc_smap (rs_Requests p))]"

definition enc_int32_ptr :: "int32 option \<Rightarrow> json" where
  "enc_int32_ptr i = (case i of None \<Rightarrow> JNull | Some n \<Rightarrow> enc_int32 n)"

definition enc_VMProps :: "VMCloudProperties \<Rightarrow> json" where
  "enc_VMProps p = JObj [(''context'', JStr (cp_Context p)), (''replicas'', enc_int32_ptr (cp_Replicas p)),
     (''resources'', enc_Resources (cp_Resources p)), (''secrets'', enc_list enc_Secret (cp_Secrets p)),
     (''services'', enc_list enc_Service (cp_Services p))]"

text \<open>The values that have a JSON form: maps by their sorted entries, structs of client-go as objects.\<close>

definition port_ok :: "Port \<Rightarrow> bool" where
  "port_ok p = (\<bar>sint (pt_TargetPort p)\<bar> \<le> 2 ^ 53)"

definition service_ok :: "Service \<Rightarrow> bool" where
  "service_ok p = (list_all port_ok (sv_Ports p) \<and> map_sorted (sv_Selector p) \<and> opaque_ptr_ok (sv_Backend p) \<and> list_all opaque_ok (sv_TLS p) \<and>
     list_all opaque_ok (sv_Rules p))"

definition secret_ok :: "Secret \<Rightarrow> bool" where
  "secret_ok p = (map_sorted (sr_Annotations p) \<and> map_sorted (Some (sr_Data p)) \<and> map_sorted (sr_StringData p))"

definition props_ok :: "VMCloudProperties \<Rightarrow> bool" where
  "props_ok p = (list_all service_ok (cp_Services p) \<and> list_all secret_ok (cp_Secrets p) \<and>
     map_sorted (rs_Limits (cp_Resources p)) \<and> map_sorted (rs_Requests (cp_Resources p)))"

text \<open>The member names, in order, and the field each of them sets.\<close>

lemma names_sorted:
  "sorted_wrt (<) [''context'', ''storage_class'', ''storage_provisioner'']"
  "sorted_wrt (<) [''name'', ''node_port'', ''port'', ''protocol'', ''target_port'']"
  "sorted_wrt (<) [''backend'', ''cluster_ip'', ''external_ips'', ''load_balancer_ip'', ''name'', ''ports'', ''rules'',
     ''selector'', ''tls'', ''type'']"
  "sorted_wrt (<) [''annotations'', ''data'', ''name'', ''string_data'', ''type'']"
  "sorted_wrt (<) [''limits'', ''requests'']"
  "sorted_wrt (<) [''context'', ''replicas'', ''resources'', ''secrets'', ''services'']"
  "sorted_wrt (<) [''cloud_properties'', ''default'', ''dns'', ''gateway'', ''ip'', ''netmask'', ''type'']"
  by code_simp+

lemma canonical_DiskProps [simp]: "canonical (enc_DiskProps p)"
  unfolding enc_DiskProps_def by (rule canonical_JObj) (use names_sorted(1) in simp_all)

lemma canonical_StemcellProps [simp]: "canonical (enc_StemcellProps p)"
  unfolding enc_StemcellProps_def by (rule canonical_JObj) simp_all

lemma canonical_Port: "port_ok p \<Longrightarrow> canonical (enc_Port p)"
  unfolding enc_Port_def by (rule canonical_JObj) (use names_sorted(2) in \<open>simp_all add: port_ok_def\<close>)

lemma canonical_Service: "service_ok p \<Longrightarrow> canonical (enc_Service p)"
  unfolding enc_Service_def by (rule canonical_JObj)
    (use names_sorted(3) in \<open>auto simp: service_ok_def canonical_Port canonical_opaque_ptr opaque_ok_def list_all_iff intro!: canonical_enc_list\<close>)

lemma canonical_Secret: "secret_ok p \<Longrightarrow> canonical (enc_Secret p)"
  unfolding enc_Secret_def by (rule canonical_JObj) (use names_sorted(4) in \<open>simp_all add: secret_ok_def\<close>)

lemma canonical_VMProps: "props_ok p \<Longrightarrow> canonical (enc_VMProps p)"
  unfolding enc_VMProps_def enc_Resources_def
  by (rule canonical_JObj)
    (use names_sorted(5,6) in \<open>auto simp: props_ok_def enc_int32_ptr_def list_all_iff canonical_Service canonical_Secret
       intro!: canonical_enc_list canonical_JObj split: option.split\<close>)

lemmas setter_defs = set_DiskProps_def set_StemcellProps_def set_Port_def set_Service_def set_Secret_def
  set_Resources_def set_VMProps_def set_Network_def field_is_def ToLower_def lower_char_def is_upper_def

lemma setters [simp]:
  "set_DiskProps ''context'' j d = res_then (dec_string j (cd_Context d)) (\<lambda>x. Ok (d\<lparr>cd_Context := x\<rparr>))"
  "set_DiskProps ''storage_class'' j d = res_then (dec_string j (cd_StorageClass d)) (\<lambda>x. Ok (d\<lparr>cd_StorageClass := x\<rparr>))"
  "set_DiskProps ''storage_provisioner'' j d =
     res_then (dec_string j (cd_StorageProvisioner d)) (\<lambda>x. Ok (d\<lparr>cd_StorageProvisioner := x\<rparr>))"
  "set_StemcellProps ''image'' j u = dec_string j u"
  "set_Port ''name'' j p = res_then (dec_string j (pt_Name p)) (\<lambda>x. Ok (p\<lparr>pt_Name := x\<rparr>))"
  "set_Port ''node_port'' j p = res_then (dec_int32 j (pt_NodePort p)) (\<lambda>x. Ok (p\<lparr>pt_NodePort := x\<rparr>))"
  "set_Port ''port'' j p = res_then (dec_int32 j (pt_Port p)) (\<lambda>x. Ok (p\<lparr>pt_Port := x\<rparr>))"
  "set_Port ''protocol'' j p = res_then (dec_string j (pt_Protocol p)) (\<lambda>x. Ok (p\<lparr>pt_Protocol := x\<rparr>))"
  "set_Port ''target_port'' j p = res_then (dec_int64 j (pt_TargetPort p)) (\<lambda>x. Ok (p\<lparr>pt_TargetPort := x\<rparr>))"
  "set_Secret ''name'' j r = res_then (dec_string j (sr_Name r)) (\<lambda>x. Ok (r\<lparr>sr_Name := x\<rparr>))"
  "set_Secret ''type'' j r = res_then (dec_string j (sr_Type r)) (\<lambda>x. Ok (r\<lparr>sr_Type := x\<rparr>))"
  "set_Secret ''annotations'' j r = res_then (dec_smap j (sr_Annotations r)) (\<lambda>x. Ok (r\<lparr>sr_Annotations := x\<rparr>))"
  "set_Secret ''data'' j r = res_then (dec_smap j (Some (sr_Data r)))
     (\<lambda>x. Ok (r\<lparr>sr_Data := case x of None \<Rightarrow> [] | Some m \<Rightarrow> m\<rparr>))"
  "set_Secret ''string_data'' j r = res_then (dec_smap j (sr_StringData r)) (\<lambda>x. Ok (r\<lparr>sr_StringData := x\<rparr>))"
  "set_Resources ''limits'' j q = res_then (dec_smap j (rs_Limits q)) (\<lambda>x. Ok (q\<lparr>rs_Limits := x\<rparr>))"
  "set_Resources ''requests'' j q = res_then (dec_smap j (rs_Requests q)) (\<lambda>x. Ok (q\<lparr>rs_Requests := x\<rparr>))"
  by (simp_all add: setter_defs)

lemma setters_Service [simp]:
  "set_Service ''name'' j p = res_then (dec_string j (sv_Name p)) (\<lambda>x. Ok (p\<lparr>sv_Name := x\<rparr>))"
  "set_Service ''type'' j p = res_then (dec_string j (sv_Type p)) (\<lambda>x. Ok (p\<lparr>sv_Type := x\<rparr>))"
  "set_Service ''cluster_ip'' j p = res_then (dec_string j (sv_ClusterIP p)) (\<lambda>x. Ok (p\<lparr>sv_ClusterIP := x\<rparr>))"
  "set_Service ''ports'' j p = res_then (dec_list dec_Port j) (\<lambda>x. Ok (p\<lparr>sv_Ports := x\<rparr>))"
  "set_Service ''selector'' j p = res_then (dec_smap j (sv_Selector p)) (\<lambda>x. Ok (p\<lparr>sv_Selector := x\<rparr>))"
  "set_Service ''load_balancer_ip'' j p = res_then (dec_string j (sv_LoadBalancerIP p)) (\<lambda>x. Ok (p\<lparr>sv_LoadBalancerIP := x\<rparr>))"
  "set_Service ''external_ips'' j p = res_then (dec_strings j) (\<lambda>x. Ok (p\<lparr>sv_ExternalIPs := x\<rparr>))"
  "set_Service ''backend'' j p = res_then (dec_opaque_ptr j) (\<lambda>x. Ok (p\<lparr>sv_Backend := x\<rparr>))"
  "set_Service ''tls'' j p = res_then (dec_list dec_opaque j) (\<lambda>x. Ok (p\<lparr>sv_TLS := x\<rparr>))"
  "set_Service ''rules'' j p = res_then (dec_list dec_opaque j) (\<lambda>x. Ok (p\<lparr>sv_Rules := x\<rparr>))"
  by (simp_all add: setter_defs)

lemma setters_VMProps [simp]:
  "set_VMProps ''context'' j p = res_then (dec_string j (cp_Context p)) (\<lambda>x. Ok (p\<lparr>cp_Context := x\<rparr>))"
  "set_VMProps ''services'' j p = res_then (dec_list dec_Service j) (\<lambda>x. Ok (p\<lparr>cp_Services := x\<rparr>))"
  "set_VMProps ''secrets'' j p = res_then (dec_list dec_Secret j) (\<lambda>x. Ok (p\<lparr>cp_Secrets := x\<rparr>))"
  "set_VMProps ''resources'' j p = res_then (dec_struct set_Resources j (cp_Resources p)) (\<lambda>x. Ok (p\<lparr>cp_Resources := x\<rparr>))"
  "set_VMProps ''replicas'' j p = res_then (dec_int32_ptr j) (\<lambda>x. Ok (p\<lparr>cp_Replicas := x\<rparr>))"
  by (simp_all add: setter_defs)

lemma dec_DiskProps_enc [codec_simps]: "dec_DiskProps (enc_DiskProps p) = Ok p"
  by (simp add: dec_DiskProps_def enc_DiskProps_def)

lemma dec_StemcellProps_enc [codec_simps]: "dec_StemcellProps (enc_StemcellProps p) = Ok p"
  by (simp add: dec_StemcellProps_def enc_StemcellProps_def)

lemma dec_Port_enc: "dec_Port (enc_Port p) = Ok p"
  by (simp add: dec_Port_def enc_Port_def codec_simps)

lemma dec_Service_enc: "service_ok p \<Longrightarrow> dec_Service (enc_Service p) = Ok p"
  by (simp add: dec_Service_def enc_Service_def codec_simps service_ok_def dec_opaque_ptr_enc dec_opaque_ok dec_Port_enc
      dec_list_enc list_all_iff)

lemma dec_Secret_enc: "secret_ok p \<Longrightarrow> dec_Secret (enc_Secret p) = Ok p"
  by (simp add: dec_Secret_def enc_Secret_def codec_simps secret_ok_def)

lemma dec_int32_ptr_enc: "dec_int32_ptr (enc_int32_ptr i) = Ok i"
  using dec_int32_enc by (cases i) (simp_all add: enc_int32_ptr_def enc_int32_def)

lemma dec_VMProps_enc [codec_simps]: "props_ok p \<Longrightarrow> dec_VMProps (enc_VMProps p) = Ok p"
  by (simp add: dec_VMProps_def enc_VMProps_def enc_Resources_def zero_VMProps_def codec_simps props_ok_def
      dec_int32_ptr_enc dec_Service_enc dec_Secret_enc dec_list_enc list_all_iff)

section \<open>Networks and environment\<close>

definition canonical_map :: "(string, json) gomap option \<Rightarrow> bool" where
  "canonical_map m = (map_sorted m \<and> (case m of None \<Rightarrow> True | Some es \<Rightarrow> list_all (\<lambda>e. canonical (snd e)) es))"

definition dir_Network :: "Network \<Rightarrow> json" where
  "dir_Network n = JObj [(''cloud_properties'', enc_map_opt (\<lambda>j. j) (nw_CloudProperties n)),
     (''default'', enc_strings_opt (nw_Default n)), (''dns'', enc_strings_opt (nw_DNS n)),
     (''gateway'', JStr (nw_Gateway n)), (''ip'', JStr (nw_IP n)), (''netmask'', JStr (nw_Netmask n)),
     (''type'', JStr (nw_Type n))]"

definition networks_ok :: "Networks \<Rightarrow> bool" where
  "networks_ok ns = (map_sorted (Some ns) \<and> list_all (\<lambda>e. canonical_map (nw_CloudProperties (snd e))) ns)"

lemma canonical_untyped_map: "canonical_map m \<Longrightarrow> canonical (enc_map_opt (\<lambda>j. j) m)"
  by (rule canonical_enc_map_opt) (auto simp: canonical_map_def list_all_iff)

lemma dec_untyped_map_enc: "canonical_map m \<Longrightarrow> dec_untyped_map (enc_map_opt (\<lambda>j. j) m) None = Ok m"
  unfolding dec_untyped_map_def
  by (rule dec_map_opt_sorted) (auto simp: canonical_map_def canonical_def list_all_iff)

lemma setters_Network [simp]:
  "set_Network ''type'' j n = res_then (dec_string j (nw_Type n)) (\<lambda>x. Ok (n\<lparr>nw_Type := x\<rparr>))"
  "set_Network ''ip'' j n = res_then (dec_string j (nw_IP n)) (\<lambda>x. Ok (n\<lparr>nw_IP := x\<rparr>))"
  "set_Network ''netmask'' j n = res_then (dec_string j (nw_Netmask n)) (\<lambda>x. Ok (n\<lparr>nw_Netmask := x\<rparr>))"
  "set_Network ''gateway'' j n = res_then (dec_string j (nw_Gateway n)) (\<lambda>x. Ok (n\<lparr>nw_Gateway := x\<rparr>))"
  "set_Network ''dns'' j n = res_then (dec_strings j) (\<lambda>x. Ok (n\<lparr>nw_DNS := x\<rparr>))"
  "set_Network ''default'' j n = res_then (dec_strings j) (\<lambda>x. Ok (n\<lparr>nw_Default := x\<rparr>))"
  "set_Network ''cloud_properties'' j n =
     res_then (dec_untyped_map j (nw_CloudProperties n)) (\<lambda>x. Ok (n\<lparr>nw_CloudProperties := x\<rparr>))"
  by (simp_all add: setter_defs)

lemma dec_Network_dir: "canonical_map (nw_CloudProperties n) \<Longrightarrow> dec_Network (dir_Network n) = Ok n"
  by (simp add: dec_Network_def dir_Network_def zero_Network_def dec_untyped_map_enc codec_simps)

lemma canonical_Network: "canonical_map (nw_CloudProperties n) \<Longrightarrow> canonical (dir_Network n)"
  unfolding dir_Network_def by (rule canonical_JObj) (use names_sorted(7) canonical_untyped_map in simp_all)

definition dir_Networks :: "Networks \<Rightarrow> json" where
  "dir_Networks ns = enc_map dir_Network ns"

lemma canonical_Networks: "networks_ok ns \<Longrightarrow> canonical (dir_Networks ns)"
  unfolding dir_Networks_def
  by (rule canonical_enc_map) (auto simp: networks_ok_def map_sorted_def list_all_iff canonical_Network)

lemma dec_Networks_dir [codec_simps]: "networks_ok ns \<Longrightarrow> dec_Networks (dir_Networks ns) = Ok ns"
  unfolding dir_Networks_def dec_Networks_def
  by (subst dec_map_enc_sorted) (auto simp: networks_ok_def map_sorted_def list_all_iff dec_Network_dir)

lemma dec_Environment_enc [codec_simps]: "canonical_map env \<Longrightarrow> dec_Environment (enc_Environment env) = Ok env"
  by (simp add: dec_Environment_def enc_Environment_def dec_untyped_map_enc)

lemma canonical_Environment: "canonical_map env \<Longrightarrow> canonical (enc_Environment env)"
  by (simp add: enc_Environment_def canonical_untyped_map)

end
