(* ===== verification/Director.thy ===== *)
theory Director
  imports Main_CPI Encode
begin

text \<open>
  The CPI's contract with the director: the calls of the BOSH CPI protocol as a type, what each asks
  for (\<open>perform\<close>) and how the director writes it down (\<open>request_text\<close>). The theorem at the end is
  the refinement: reading a call's text, choosing the action by the method, decoding the arguments by
  the action's parameter types and printing the response come to performing the call and printing
  its answer.
\<close>

section \<open>Calls\<close>

datatype call =
    Call_info
  | Call_create_stemcell string string
  | Call_delete_stemcell string
  | Call_create_vm string string VMCloudProperties Networks "string list" Environment
  | Call_delete_vm string
  | Call_has_vm string
  | Call_set_vm_metadata string smap
  | Call_create_disk "64 word" CreateDiskCloudProperties string
  | Call_attach_disk string string
  | Call_set_disk_metadata string smap
  | Call_has_disk string
  | Call_delete_disk string
  | Call_detach_disk string string
  | Call_get_disks string

definition map_act :: "('a \<Rightarrow> 'b) \<Rightarrow> ('s, 'a) act \<Rightarrow> ('s, 'b) act" where
  "map_act f m = and_then m (\<lambda>x. ret (f x))"

text \<open>What is asked for, and the result as it is written.\<close>

fun perform :: "'s world \<Rightarrow> call \<Rightarrow> ('s, json) act" where
  "perform wd Call_info = ret (enc_map JStr Info)"
| "perform wd (Call_create_stemcell img p) = map_act JStr (lift_res (CreateStemcell img p))"
| "perform wd (Call_delete_stemcell cid) = map_act (\<lambda>_. JNull) (lift_res (DeleteStemcell cid))"
| "perform wd (Call_create_vm agentID stemcellCID p networks diskCIDs env) =
     map_act JStr (CreateVM (wd_ParseQuantity wd) (wd_ReadFile wd) (vm_creator wd) agentID stemcellCID p networks diskCIDs env)"
| "perform wd (Call_delete_vm cid) = map_act (\<lambda>_. JNull) (DeleteVM (wd_ClientProvider wd) cid)"
| "perform wd (Call_has_vm cid) = map_act JBool (HasVM (wd_ClientProvider wd) cid)"
| "perform wd (Call_set_vm_metadata cid m) = map_act (\<lambda>_. JNull) (SetVMMetadata (wd_ClientProvider wd) cid m)"
| "perform wd (Call_create_disk sz p vmcid) =
     map_act JStr (CreateDisk (wd_ParseQuantity wd) (disk_creator wd) sz p vmcid)"
| "perform wd (Call_attach_disk vmcid cid) = map_act (\<lambda>_. JNull) (AttachDisk (volume_manager wd) vmcid cid)"
| "perform wd (Call_set_disk_metadata cid m) = map_act (\<lambda>_. JNull) (SetDiskMetadata (wd_ClientProvider wd) cid m)"
| "perform wd (Call_has_disk cid) = map_act JBool (HasDisk (wd_ClientProvider wd) cid)"
| "perform wd (Call_delete_disk cid) = map_act (\<lambda>_. JNull) (DeleteDisk (wd_ClientProvider wd) cid)"
| "perform wd (Call_detach_disk vmcid cid) = map_act (\<lambda>_. JNull) (DetachDisk (volume_manager wd) vmcid cid)"
| "perform wd (Call_get_disks cid) = map_act enc_strs (GetDisks (wd_ClientProvider wd) cid)"

text \<open>The result beside an error: the zero value of the action's result type.\<close>

fun zero_result :: "call \<Rightarrow> json" where
  "zero_result (Call_create_stemcell img p) = JStr []"
| "zero_result (Call_create_vm agentID stemcellCID p networks diskCIDs env) = JStr []"
| "zero_result (Call_has_vm cid) = JBool False"
| "zero_result (Call_create_disk sz p vmcid) = JStr []"
| "zero_result (Call_has_disk cid) = JBool False"
| "zero_result _ = JNull"

text \<open>The response: the result, or the error's message. A panic is no response.\<close>

definition answer :: "json \<Rightarrow> ('s, json) act \<Rightarrow> ('s, Response) act" where
  "answer zero m = catch m (\<lambda>j. ret (response_of j None)) (\<lambda>e. ret (response_of zero (Some e)))"

section \<open>The director's text\<close>

fun call_method :: "call \<Rightarrow> string" where
  "call_method Call_info = ''info''"
| "call_method (Call_create_stemcell img p) = ''create_stemcell''"
| "call_method (Call_delete_stemcell cid) = ''delete_stemcell''"
| "call_method (Call_create_vm agentID stemcellCID p networks diskCIDs env) = ''create_vm''"
| "call_method (Call_delete_vm cid) = ''delete_vm''"
| "call_method (Call_has_vm cid) = ''has_vm''"
| "call_method (Call_set_vm_metadata cid m) = ''set_vm_metadata''"
| "call_method (Call_create_disk sz p vmcid) = ''create_disk''"
| "call_method (Call_attach_disk vmcid cid) = ''attach_disk''"
| "call_method (Call_set_disk_metadata cid m) = ''set_disk_metadata''"
| "call_method (Call_has_disk cid) = ''has_disk''"
| "call_method (Call_delete_disk cid) = ''delete_disk''"
| "call_method (Call_detach_disk vmcid cid) = ''detach_disk''"
| "call_method (Call_get_disks cid) = ''get_disks''"

fun call_args :: "call \<Rightarrow> json list" where
  "call_args Call_info = []"
| "call_args (Call_create_stemcell img p) = [JStr img, enc_StemcellProps p]"
| "call_args (Call_delete_stemcell cid) = [JStr cid]"
| "call_args (Call_create_vm agentID stemcellCID p networks diskCIDs env) =
     [JStr agentID, JStr stemcellCID, enc_VMProps p, dir_Networks networks, enc_strs diskCIDs, enc_Environment env]"
| "call_args (Call_delete_vm cid) = [JStr cid]"
| "call_args (Call_has_vm cid) = [JStr cid]"
| "call_args (Call_set_vm_metadata cid m) = [JStr cid, enc_smap (Some m)]"
| "call_args (Call_create_disk sz p vmcid) = [enc_uint sz, enc_DiskProps p, JStr vmcid]"
| "call_args (Call_attach_disk vmcid cid) = [JStr vmcid, JStr cid]"
| "call_args (Call_set_disk_metadata cid m) = [JStr cid, enc_smap (Some m)]"
| "call_args (Call_has_disk cid) = [JStr cid]"
| "call_args (Call_delete_disk cid) = [JStr cid]"
| "call_args (Call_detach_disk vmcid cid) = [JStr vmcid, JStr cid]"
| "call_args (Call_get_disks cid) = [JStr cid]"

definition request_json :: "string \<Rightarrow> call \<Rightarrow> json" where
  "request_json uuid cl = JObj [(''method'', JStr (call_method cl)), (''arguments'', JArr (call_args cl)),
     (''context'', JObj [(''director_uuid'', JStr uuid)])]"

definition request_text :: "string \<Rightarrow> call \<Rightarrow> string" where
  "request_text uuid cl = print_json (request_json uuid cl)"

text \<open>The arguments that have a JSON form.\<close>

fun call_ok :: "call \<Rightarrow> bool" where
  "call_ok (Call_create_vm agentID stemcellCID p networks diskCIDs env) =
     (props_ok p \<and> networks_ok networks \<and> canonical_map env)"
| "call_ok (Call_create_disk sz p vmcid) = (unat sz \<le> 2 ^ 53)"
| "call_ok (Call_set_vm_metadata cid m) = map_sorted (Some m)"
| "call_ok (Call_set_disk_metadata cid m) = map_sorted (Some m)"
| "call_ok _ = True"

section \<open>The request is the call\<close>

lemma canonical_args: "call_ok cl \<Longrightarrow> list_all canonical (call_args cl)"
  by (cases cl) (simp_all add: canonical_VMProps canonical_Networks canonical_Environment enc_strs_def list_all_iff)

lemma canonical_wf: "canonical j \<Longrightarrow> wf_json j"
  by (simp add: canonical_def)

lemma set_Request_names [simp]:
  "set_Request ''method'' j r = res_then (dec_string j (rq_Method r)) (\<lambda>x. Ok (r\<lparr>rq_Method := x\<rparr>))"
  "set_Request ''arguments'' j r =
     res_then (dec_list dec_untyped j) (\<lambda>x. Ok (r\<lparr>rq_Args := x\<rparr>))"
  "set_Request ''context'' j r =
     res_then (dec_struct set_Context j (rq_DirectorUUID r)) (\<lambda>x. Ok (r\<lparr>rq_DirectorUUID := x\<rparr>))"
  "set_Context ''director_uuid'' j u = dec_string j u"
  by (simp_all add: set_Request_def set_Context_def field_is_def ToLower_def lower_char_def is_upper_def)

lemma dec_list_untyped: "list_all finite_json js \<Longrightarrow> dec_list dec_untyped (JArr js) = Ok (map canon js)"
  by (induction js) (simp_all add: dec_untyped_def)

text \<open>The arguments arrive as the untyped values they are read into.\<close>

lemma read_untyped_request:
  assumes "list_all (\<lambda>j. wf_json j \<and> finite_json j) (call_args cl)"
  shows "json_Unmarshal dec_Request (request_text uuid cl) =
    Ok \<lparr>rq_Method = call_method cl, rq_Args = map canon (call_args cl), rq_DirectorUUID = uuid\<rparr>"
proof -
  have "wf_json (request_json uuid cl)"
    using assms by (auto simp: request_json_def wf_elems_iff list_all_iff)
  then have "parse_json (request_text uuid cl) = Some (request_json uuid cl)"
    unfolding request_text_def by (rule parse_print_json)
  moreover have "dec_list dec_untyped (JArr (call_args cl)) = Ok (map canon (call_args cl))"
    using assms by (intro dec_list_untyped) (simp add: list_all_iff)
  ultimately show ?thesis
    by (simp add: json_Unmarshal_def dec_Request_def request_json_def)
qed

lemma read_request:
  assumes "call_ok cl"
  shows "json_Unmarshal dec_Request (request_text uuid cl) =
    Ok \<lparr>rq_Method = call_method cl, rq_Args = call_args cl, rq_DirectorUUID = uuid\<rparr>"
proof -
  have c: "list_all canonical (call_args cl)" using assms by (rule canonical_args)
  then have "map canon (call_args cl) = call_args cl"
    by (intro map_idI) (simp add: list_all_iff canonical_def)
  with read_untyped_request [of cl] c show ?thesis by (simp add: list_all_iff canonical_def)
qed

section \<open>Running it\<close>

text \<open>An action of either shape, called with the decoded arguments, answers the call.\<close>

lemma Dispatch_Ok_args:
  "arity_ok action (length (rq_Args req)) \<Longrightarrow> dispatch_args action 0 (rq_Args req) = Ok args \<Longrightarrow>
     Dispatch req action = and_then (af_Call action args) (\<lambda>rs. lift_res (newResponse rs))"
  by (auto simp: Dispatch_def arity_ok_def Let_def fun_eq_iff and_then_def split: if_splits)

lemma run_call_val:
  assumes "perform wd cl = map_act enc a"
    and "map_of (action_table wd) (call_method cl) = Some f"
    and "arity_ok f (length js)" and "dispatch_args f 0 js = Ok args"
    and "af_Call f args = val_result (zero_result cl) enc (\<lambda>_. a) args"
  shows "run_method wd \<lparr>rq_Method = call_method cl, rq_Args = js, rq_DirectorUUID = uuid\<rparr> =
    answer (zero_result cl) (perform wd cl)"
  using assms
  by (auto simp: run_method_def Dispatch_Ok_args answer_def map_act_def val_result_def catch_def and_then_def fun_eq_iff
      newResponse_def split: prod.split res.split)

lemma run_call_err:
  assumes "perform wd cl = map_act (\<lambda>_. JNull) a" and "zero_result cl = JNull"
    and "map_of (action_table wd) (call_method cl) = Some f"
    and "arity_ok f (length js)" and "dispatch_args f 0 js = Ok args"
    and "af_Call f args = err_result (\<lambda>_. a) args"
  shows "run_method wd \<lparr>rq_Method = call_method cl, rq_Args = js, rq_DirectorUUID = uuid\<rparr> =
    answer (zero_result cl) (perform wd cl)"
  using assms
  by (auto simp: run_method_def Dispatch_Ok_args answer_def map_act_def err_result_def catch_def and_then_def fun_eq_iff
      newResponse_def split: prod.split res.split)

lemma action_of [simp]:
  "map_of (action_table wd) ''info'' = Some info_func"
  "map_of (action_table wd) ''create_stemcell'' = Some create_stemcell_func"
  "map_of (action_table wd) ''delete_stemcell'' = Some delete_stemcell_func"
  "map_of (action_table wd) ''create_vm'' = Some (create_vm_func wd)"
  "map_of (action_table wd) ''delete_vm'' = Some (delete_vm_func wd)"
  "map_of (action_table wd) ''has_vm'' = Some (has_vm_func wd)"
  "map_of (action_table wd) ''set_vm_metadata'' = Some (set_vm_metadata_func wd)"
  "map_of (action_table wd) ''create_disk'' = Some (create_disk_func wd)"
  "map_of (action_table wd) ''attach_disk'' = Some (attach_disk_func wd)"
  "map_of (action_table wd) ''set_disk_metadata'' = Some (set_disk_metadata_func wd)"
  "map_of (action_table wd) ''has_disk'' = Some (has_disk_func wd)"
  "map_of (action_table wd) ''delete_disk'' = Some (delete_disk_func wd)"
  "map_of (action_table wd) ''detach_disk'' = Some (detach_disk_func wd)"
  "map_of (action_table wd) ''get_disks'' = Some (get_disks_func wd)"
  by (simp_all add: action_table_def)

lemma Remarshal_canonical [simp]: "canonical j \<Longrightarrow> Remarshal j dec = dec j"
  by (simp add: Remarshal_id canonical_wf)

lemma canonical_enc_strs [simp]: "canonical (enc_strs ss)"
  by (simp add: enc_strs_def list_all_iff)

lemma dec_strs [simp]: "dec_list (decode TString) (enc_strs ss) = Ok (map VString ss)"
proof -
  have "res_map (decode TString) (map JStr ss) = Ok (map VString ss)"
    by (induction ss) simp_all
  then show ?thesis by (simp add: enc_strs_def)
qed

lemma slice_strings_map [simp]: "slice_strings (map VString ss) = ss"
  by (induction ss) (simp_all add: slice_strings_def List.map_filter_simps)

lemmas func_defs = info_func_def create_stemcell_func_def delete_stemcell_func_def create_vm_func_def
  delete_vm_func_def has_vm_func_def set_vm_metadata_func_def create_disk_func_def attach_disk_func_def
  set_disk_metadata_func_def has_disk_func_def delete_disk_func_def detach_disk_func_def get_disks_func_def

lemmas call_simps = func_defs arity_ok_def newArgValue_def codec_simps canonical_VMProps canonical_Networks
  canonical_Environment val_result_def err_result_def map_entries_def

lemma run_call:
  assumes "call_ok cl"
  shows "run_method wd \<lparr>rq_Method = call_method cl, rq_Args = call_args cl, rq_DirectorUUID = uuid\<rparr> =
    answer (zero_result cl) (perform wd cl)"
proof (cases cl)
  case Call_info
  then show ?thesis
    by (simp add: run_method_def Dispatch_def func_defs answer_def newResponse_def fun_eq_iff and_then_def catch_def)
next
  case (Call_create_stemcell img p)
  show ?thesis unfolding Call_create_stemcell
    by (rule run_call_val [OF perform.simps(2), where f = create_stemcell_func and args = "[VString img, VStemcellProps p]"]) (simp_all add: call_simps)
next
  case (Call_delete_stemcell cid)
  show ?thesis unfolding Call_delete_stemcell
    by (rule run_call_err [OF perform.simps(3), where f = delete_stemcell_func and args = "[VString cid]"]) (simp_all add: call_simps)
next
  case (Call_create_vm agentID stemcellCID p networks diskCIDs env)
  show ?thesis using assms unfolding Call_create_vm
    by (intro run_call_val [OF perform.simps(4), where f = "create_vm_func wd" and args = "[VString agentID, VString stemcellCID, VVMProps p,
        VNetworks networks, VSlice (map VString diskCIDs), VEnvironment env]"]) (simp_all add: call_simps)
next
  case (Call_delete_vm cid)
  show ?thesis unfolding Call_delete_vm
    by (rule run_call_err [OF perform.simps(5), where f = "delete_vm_func wd" and args = "[VString cid]"]) (simp_all add: call_simps)
next
  case (Call_has_vm cid)
  show ?thesis unfolding Call_has_vm
    by (rule run_call_val [OF perform.simps(6), where f = "has_vm_func wd" and args = "[VString cid]"]) (simp_all add: call_simps)
next
  case (Call_set_vm_metadata cid m)
  show ?thesis using assms unfolding Call_set_vm_metadata
    by (intro run_call_err [OF perform.simps(7), where f = "set_vm_metadata_func wd" and args = "[VString cid, VMap (Some m)]"]) (simp_all add: call_simps)
next
  case (Call_create_disk sz p vmcid)
  show ?thesis using assms unfolding Call_create_disk
    by (intro run_call_val [OF perform.simps(8), where f = "create_disk_func wd" and args = "[VUint sz, VDiskProps p, VString vmcid]"])
      (simp_all add: call_simps)
next
  case (Call_attach_disk vmcid cid)
  show ?thesis unfolding Call_attach_disk
    by (rule run_call_err [OF perform.simps(9), where f = "attach_disk_func wd" and args = "[VString vmcid, VString cid]"]) (simp_all add: call_simps)
next
  case (Call_set_disk_metadata cid m)
  show ?thesis using assms unfolding Call_set_disk_metadata
    by (intro run_call_err [OF perform.simps(10), where f = "set_disk_metadata_func wd" and args = "[VString cid, VMap (Some m)]"]) (simp_all add: call_simps)
next
  case (Call_has_disk cid)
  show ?thesis unfolding Call_has_disk
    by (rule run_call_val [OF perform.simps(11), where f = "has_disk_func wd" and args = "[VString cid]"]) (simp_all add: call_simps)
next
  case (Call_delete_disk cid)
  show ?thesis unfolding Call_delete_disk
    by (rule run_call_err [OF perform.simps(12), where f = "delete_disk_func wd" and args = "[VString cid]"]) (simp_all add: call_simps)
next
  case (Call_detach_disk vmcid cid)
  show ?thesis unfolding Call_detach_disk
    by (rule run_call_err [OF perform.simps(13), where f = "detach_disk_func wd" and args = "[VString vmcid, VString cid]"]) (simp_all add: call_simps)
next
  case (Call_get_disks cid)
  show ?thesis unfolding Call_get_disks
    by (rule run_call_val [OF perform.simps(14), where f = "get_disks_func wd" and args = "[VString cid]"]) (simp_all add: call_simps)
qed

text \<open>The whole process on a call's text.\<close>

definition print_answer :: "('s, Response) act \<Rightarrow> ('s, string) act" where
  "print_answer m = and_then m (\<lambda>resp. ret (print_json (enc_Response resp)))"

lemma answer_not_Err: "answer zero m s \<noteq> (Err e, t)"
  by (auto simp: answer_def catch_def split: prod.splits res.splits)

lemma run_main_request:
  assumes "json_Unmarshal dec_Request text = Ok req" and "run_method wd req = answer zero m"
  shows "run_main wd text = print_answer (answer zero m)"
proof
  fix s
  obtain r t where a: "answer zero m s = (r, t)" by fastforce
  then have "r \<noteq> Err e" for e
    using answer_not_Err [of zero m s e t] by auto
  then show "run_main wd text s = print_answer (answer zero m) s"
    using a by (cases r) (auto simp: run_main_def assms catch_def print_answer_def and_then_def)
qed

lemma run_main_call:
  "call_ok cl \<Longrightarrow> run_main wd (request_text uuid cl) = print_answer (answer (zero_result cl) (perform wd cl))"
  by (rule run_main_request [OF read_request run_call])

section \<open>What the director reads\<close>

lemma wf_perform: "perform wd cl s = (Ok j, s') \<Longrightarrow> wf_json j"
  by (cases cl) (auto simp: map_act_def and_then_Ok enc_strs_def wf_elems_iff wf_enc_map lift_res_def)

lemma parse_response: "wf_json (rp_Result resp) \<Longrightarrow> parse_json (print_json (enc_Response resp)) = Some (enc_Response resp)"
  by (rule parse_print_json) (simp add: enc_Response_def enc_ResponseError_def split: option.split)

lemma call_answered:
  assumes "call_ok cl" and "run_main wd (request_text uuid cl) s = (Ok out, s')"
  shows "\<exists>r. perform wd cl s = (r, s') \<and>
    (case r of
       Ok j \<Rightarrow> parse_json out = Some (JObj [(''result'', j), (''error'', JNull), (''log'', JStr [])])
     | Err e \<Rightarrow> parse_json out = Some (JObj [(''result'', zero_result cl),
         (''error'', JObj [(''type'', JStr []), (''message'', JStr (Error e)), (''ok_to_retry'', JBool False)]),
         (''log'', JStr [])])
     | Panic p \<Rightarrow> False)"
proof -
  have zero: "wf_json (zero_result cl)" by (cases cl) simp_all
  obtain r t where p: "perform wd cl s = (r, t)" by fastforce
  show ?thesis
  proof (cases r)
    case (Ok j)
    with p have "wf_json j" by (auto dest: wf_perform)
    with assms p Ok show ?thesis
      using parse_response [of "response_of j None"]
      by (simp add: run_main_call print_answer_def answer_def and_then_def catch_def response_of_def enc_Response_def)
  next
    case (Err e)
    with assms p zero show ?thesis
      using parse_response [of "response_of (zero_result cl) (Some e)"]
      by (simp add: run_main_call print_answer_def answer_def and_then_def catch_def response_of_def enc_Response_def
          enc_ResponseError_def)
  next
    case (Panic q)
    with assms p show ?thesis
      by (simp add: run_main_call print_answer_def answer_def and_then_def catch_def)
  qed
qed

text \<open>A request for a VM: when the process ends normally, it prints whether a pod with the agent's id
  exists, or an error, and the cluster is as before.\<close>

lemma has_vm_call:
  assumes "provided_api c ok v P ctx" and "ok s" and "IsValidLabelValue agentID = []" and "wd_ClientProvider wd = P"
    and "run_main wd (request_text uuid (Call_has_vm (NewVMCID ctx agentID))) s = (Ok out, s')"
  shows "s' = s \<and>
    (parse_json out = Some (JObj [(''result'', JBool (pod_exists (v s) agentID)), (''error'', JNull), (''log'', JStr [])]) \<or>
     (\<exists>m. parse_json out = Some (JObj [(''result'', JBool False),
        (''error'', JObj [(''type'', JStr []), (''message'', JStr m), (''ok_to_retry'', JBool False)]), (''log'', JStr [])])))"
proof -
  obtain r t where h: "HasVM P (NewVMCID ctx agentID) s = (r, t)" by fastforce
  have t: "t = s" using provided_api.HasVM_state [OF assms(1) h] .
  show ?thesis
    using call_answered [OF _ assms(5)] h t assms(4) provided_api.HasVM_iff [OF assms(1-3), of _ s]
    by (cases r) (auto simp: map_act_def and_then_def)
qed

end
