(* ===== verification/DiskSize.thy ===== *)
theory DiskSize
  imports Director
begin

text \<open>
  What becomes of a disk size on its way from the director to the action. The request's arguments are
  untyped, so \<^verbatim>\<open>main\<close> reads the size into a 64-bit float, \<^verbatim>\<open>Dispatch\<close> writes the float and reads the
  text into the \<^verbatim>\<open>uint\<close> the action takes. Up to 2 to the 53rd nothing is lost; above, the size is
  rounded, and the largest ones no longer fit.
\<close>

definition received_size :: "64 word \<Rightarrow> 64 word option" where
  "received_size sz = (case Remarshal (canon (enc_uint sz)) (\<lambda>j. dec_uint j 0) of Ok m \<Rightarrow> Some m | _ \<Rightarrow> None)"

lemma real_unat_64: "real (unat (sz :: 64 word)) < 2 powi 64"
proof -
  have "unat sz < 2 ^ 64" using unsigned_less [of sz, where 'a = nat] by simp
  then have "real (unat sz) < real (2 ^ 64)" by (rule of_nat_less_iff [THEN iffD2])
  then show ?thesis by simp
qed

lemmas nearest_float_word = nearest_float_64 [OF of_nat_0_le_iff real_unat_64]

lemma finite_enc_uint: "finite_json (enc_uint sz)"
  using nearest_float_word [of sz] by (auto simp: enc_uint_def finite_num_def ParseFloat_show_nat)

lemma canon_enc_uint: "canon (enc_uint sz) = JNum (reformat (show_nat (unat sz)))"
  by (simp add: enc_uint_def)

lemma canonical_canon_enc_uint: "canonical (canon (enc_uint sz))"
  using finite_enc_uint by (intro canon_ok(1)) (simp_all add: enc_uint_def)

lemma received_size_small: "unat sz \<le> 2 ^ 53 \<Longrightarrow> received_size sz = Some sz"
  using canonical_enc_uint [of sz] by (simp add: received_size_def canonical_def dec_uint_enc Remarshal_id)

lemma dec_uint_SomeD:
  "dec_uint (JNum l) old = Ok m \<Longrightarrow> ParseUint l = Some (unat m)"
  by (auto simp: type_error_def unat_of_nat split: option.splits if_splits)

lemma received_size_near:
  assumes "received_size sz = Some m"
  shows "\<bar>int (unat m) - int (unat sz)\<bar> \<le> 2 ^ 11"
proof -
  let ?l = "reformat (show_nat (unat sz))"
  have "dec_uint (JNum ?l) 0 = Ok m"
    using assms canonical_canon_enc_uint [of sz]
    by (auto simp: received_size_def canon_enc_uint split: res.splits)
  then have "ParseUint ?l = Some (unat m)" by (rule dec_uint_SomeD)
  then have same: "nearest_float (real (unat m)) = nearest_float (real (unat sz))"
    using ParseFloat_digits [of ?l] by (simp add: ParseFloat_reformat ParseFloat_show_nat)
  obtain d where d: "nearest_float (real (unat sz)) = Some d" "\<bar>real (unat sz) - value_of d\<bar> \<le> 2 ^ 10"
    using nearest_float_word [of sz] by blast
  moreover have "\<bar>real (unat m) - value_of d\<bar> \<le> 2 ^ 10"
    using nearest_float_word [of m] same d(1) by (metis option.inject)
  ultimately have "\<bar>real (unat m) - real (unat sz)\<bar> \<le> 2 ^ 10 + 2 ^ 10" by linarith
  then have "real_of_int \<bar>int (unat m) - int (unat sz)\<bar> \<le> real_of_int (2 ^ 11)" by simp
  then show ?thesis by (rule of_int_le_iff [THEN iffD1])
qed

text \<open>The whole process on a request for a disk of any size.\<close>

definition size_error :: error where
  "size_error = WrapError (PlainError ''json: cannot unmarshal value into Go value'') ''Unmarshalling arg''"

lemma received_size_None: "received_size sz = None \<Longrightarrow> dec_uint (canon (enc_uint sz)) 0 = type_error"
  using canonical_canon_enc_uint [of sz]
  by (auto simp: received_size_def canon_enc_uint type_error_def split: res.splits option.splits if_splits)

lemma received_size_Some: "received_size sz = Some m \<Longrightarrow> dec_uint (canon (enc_uint sz)) 0 = Ok m"
  using canonical_canon_enc_uint [of sz] by (auto simp: received_size_def split: res.splits)

lemma read_create_disk:
  "json_Unmarshal dec_Request (request_text uuid (Call_create_disk sz p vmcid)) =
     Ok \<lparr>rq_Method = ''create_disk'', rq_Args = [canon (enc_uint sz), enc_DiskProps p, JStr vmcid],
        rq_DirectorUUID = uuid\<rparr>"
proof -
  have p: "canonical (enc_DiskProps p)" by (simp add: call_simps)
  then have "list_all (\<lambda>j. wf_json j \<and> finite_json j) (call_args (Call_create_disk sz p vmcid))"
    using finite_enc_uint [of sz] by (simp add: canonical_def enc_uint_def)
  from read_untyped_request [OF this] p show ?thesis by (simp add: canonical_def)
qed

lemma run_sized_disk:
  "run_main wd (request_text uuid (Call_create_disk sz p vmcid)) =
     (case received_size sz of
        Some m \<Rightarrow> print_answer (answer (JStr []) (perform wd (Call_create_disk m p vmcid)))
      | None \<Rightarrow> panic (Error size_error))"
proof (cases "received_size sz")
  case None
  then show ?thesis
    using received_size_None [OF None]
    by (simp add: run_main_def read_create_disk run_method_def Dispatch_def call_simps canonical_canon_enc_uint
        catch_def fun_eq_iff size_error_def type_error_def)
next
  case (Some m)
  have "run_method wd \<lparr>rq_Method = ''create_disk'', rq_Args = [canon (enc_uint sz), enc_DiskProps p, JStr vmcid],
      rq_DirectorUUID = uuid\<rparr> = answer (JStr []) (perform wd (Call_create_disk m p vmcid))"
    using run_call_val [OF perform.simps(8), of wd m p vmcid "create_disk_func wd"
        "[canon (enc_uint sz), enc_DiskProps p, JStr vmcid]" "[VUint m, VDiskProps p, VString vmcid]" uuid]
      received_size_Some [OF Some]
    by (simp add: call_simps canonical_canon_enc_uint)
  then show ?thesis
    using Some run_main_request [OF read_create_disk [of uuid sz p vmcid]] by simp
qed

section \<open>Sizes that are rounded\<close>

lemma floorlog_numeral:
  "floorlog 2 (numeral n) = floorlog 2 (numeral n div 2) + 1"
  "floorlog 10 (numeral n) = floorlog 10 (numeral n div 10) + 1"
  "floorlog 2 (Suc 0) = 1" "floorlog 10 (Suc 0) = 1"
  by (simp_all add: compute_floorlog [of _ "numeral n"] compute_floorlog [of _ "Suc 0"] floorlog_eq_zero_iff)

lemmas float_eval = float_of_dec_def float_of_frac_def float_exp_def carry_def in_range_def round_even_def floorlog_numeral Let_def

lemma float_values:
  "float_of_dec 9007199254740993 0 = Some (4503599627370496, 1)"
  "float_of_dec 18446744073709551615 0 = Some (4503599627370496, 12)"
  "float_of_dec 18446744073709551 3 = Some (4503599627370496, 12)"
  "float_of_dec 18446744073709552 3 = Some (4503599627370496, 12)"
  "leading_place (4503599627370496, 12) = 19"
  by (simp_all add: float_eval over_ten_def leading_place_def)

lemma received_size_rounded: "received_size 9007199254740993 = Some 9007199254740992"
proof -
  have n: "unat (9007199254740993 :: 64 word) = 9007199254740993" by simp
  have "ParseFloat (show_nat 9007199254740993) = Some (4503599627370496, 1)"
    using float_values(1) by (simp add: ParseFloat_show_nat float_of_dec_nearest)
  moreover have "FormatFloat (4503599627370496, 1) = show_nat 9007199254740992"
    by (rule FormatFloat_int) (simp_all add: float_ok_def value_of_def)
  ultimately have "reformat (show_nat 9007199254740993) = show_nat 9007199254740992"
    by (simp add: reformat_def)
  then have "canon (enc_uint 9007199254740993) = enc_uint 9007199254740992"
    by (simp add: canon_enc_uint enc_uint_def)
  then show ?thesis
    using canonical_canon_enc_uint [of 9007199254740993] by (simp add: received_size_def dec_uint_enc)
qed

text \<open>The largest size is read as the float 2 to the 64th, whose shortest text is past the range.\<close>

lemma digit_chars:
  "(char_of (49 :: nat) :: char) = CHR ''1''" "(char_of (50 :: nat) :: char) = CHR ''2''"
  "(char_of (51 :: nat) :: char) = CHR ''3''" "(char_of (52 :: nat) :: char) = CHR ''4''"
  "(char_of (53 :: nat) :: char) = CHR ''5''" "(char_of (54 :: nat) :: char) = CHR ''6''"
  "(char_of (55 :: nat) :: char) = CHR ''7''" "(char_of (56 :: nat) :: char) = CHR ''8''"
  "(char_of (57 :: nat) :: char) = CHR ''9''"
  by code_simp+

lemma no_short_text:
  assumes "4 \<le> t"
  shows "decimal_at (4503599627370496, 12) t = None"
proof (rule ccontr)
  assume "decimal_at (4503599627370496, 12) t \<noteq> None"
  then obtain k where "decimal_at (4503599627370496, 12) t = Some k" by blast
  then have k: "float_of_dec k t = Some (4503599627370496, 12)" by (rule decimal_at_reads)
  define c where "c = k * 10 ^ nat t"
  have f: "nearest_float (real c) = Some (4503599627370496, 12)"
    using k assms by (simp add: float_of_dec_nearest c_def power_int_def)
  have "(10::nat) ^ 4 dvd 10 ^ nat t" using assms by (intro le_imp_power_dvd) simp
  then have "10 ^ 4 dvd c" unfolding c_def by (rule dvd_mult)
  then obtain j where j: "c = 10000 * j" by (auto elim: dvdE)
  have gap: "j \<le> 1844674407370955 \<or> 1844674407370956 \<le> j" by linarith
  show False
  proof (cases "c < 18446744073709551616")
    case True
    then have "real c < 2 powi 64" by simp
    from nearest_float_64 [OF _ this] f have "\<bar>real c - 18446744073709551616\<bar> \<le> 1024"
      by (simp add: value_of_def)
    then have "18446744073709550592 \<le> real c" by linarith
    then have "18446744073709550592 \<le> c" by simp
    with True gap show False unfolding j by linarith
  next
    case False
    have "\<not> 18446744073709555712 \<le> c"
    proof
      assume "18446744073709555712 \<le> c"
      then have "value_of (4503599627370497, 12) \<le> real c" by (simp add: value_of_def)
      moreover have "float_ok (4503599627370497, 12)" by (simp add: float_ok_def)
      ultimately have "value_of (4503599627370497, 12) \<le> value_of (4503599627370496, 12)"
        using nearest_float_mono [OF f] by blast
      then show False by (simp add: value_of_def)
    qed
    with False gap show False unfolding j by linarith
  qed
qed

lemma text_of_2_64: "reformat (show_nat 18446744073709551615) = show_nat 18446744073709552000"
proof -
  let ?d = "(4503599627370496, 12) :: float64"
  have at3: "decimal_at ?d 3 = Some 18446744073709552"
    using float_values(3,4) by (simp add: decimal_at_def over_ten_def round_even_def Let_def)
  have "decimal_from k ?d 0 = (18446744073709552, 3)" if "3 \<le> k" for k
    using that
  proof (induction k rule: dec_induct)
    case base
    show ?case using at3 by (simp add: numeral_3_eq_3)
  next
    case (step k)
    then show ?case using no_short_text [of "int (Suc k)"] by simp
  qed
  then have s: "shortest ?d = (18446744073709552, 3)" by (simp add: shortest_def float_values(5))
  have z: "strip_zeros 18446744073709552 3 = (18446744073709552, 3)" by (subst strip_zeros.simps) simp
  have n: "show_nat 18446744073709552 = ''18446744073709552''"
    by (simp add: show_nat.simps digit_chars)
  have "replicate 3 CHR ''0'' = ''000''" by (simp add: numeral_3_eq_3)
  then have "FormatFloat ?d = ''18446744073709552000''"
    by (simp add: FormatFloat_def s z n format_digits_def)
  also have "\<dots> = show_nat 18446744073709552000" by (simp add: show_nat.simps digit_chars)
  finally have "FormatFloat ?d = show_nat 18446744073709552000" .
  moreover have "ParseFloat (show_nat 18446744073709551615) = Some ?d"
    using float_values(2) by (simp add: ParseFloat_show_nat float_of_dec_nearest)
  ultimately show ?thesis by (simp add: reformat_def)
qed

lemma received_size_too_large: "received_size 18446744073709551615 = None"
proof -
  have "unat (18446744073709551615 :: 64 word) = 18446744073709551615" by simp
  then have "canon (enc_uint 18446744073709551615) = JNum (show_nat 18446744073709552000)"
    by (simp only: canon_enc_uint text_of_2_64)
  then show ?thesis
    using canonical_canon_enc_uint [of 18446744073709551615] by (simp add: received_size_def type_error_def)
qed

end
