(* ===== verification/Startup.thy ===== *)
theory Startup
  imports Main_CPI
begin

text \<open>
  The start of the process: \<^verbatim>\<open>main\<close> of \<^verbatim>\<open>cmd/cpi/main.go\<close> with its flags, \<^verbatim>\<open>loadKubeConfig\<close> and
  \<^verbatim>\<open>loadAgentConfig\<close>, and the JSON form of the two configuration files (the struct tags of
  \<^verbatim>\<open>config/kubernetes.go\<close> and \<^verbatim>\<open>config/agent.go\<close>). The files, the standard streams and client-go's
  loader are parameters; the provider every action uses is made from the loaded configuration.
\<close>

section \<open>The configuration files\<close>

text \<open>A pointer: null is nil, anything else a new value.\<close>

fun dec_ptr :: "(json \<Rightarrow> 'a res) \<Rightarrow> json \<Rightarrow> 'a option res" where
  "dec_ptr dec JNull = Ok None"
| "dec_ptr dec j = res_then (dec j) (\<lambda>x. Ok (Some x))"

definition set_Cluster :: "string \<Rightarrow> json \<Rightarrow> Cluster \<Rightarrow> Cluster res" where
  "set_Cluster k j c =
     (if field_is ''server'' k then res_then (dec_string j (kc_Server c)) (\<lambda>x. Ok (c\<lparr>kc_Server := x\<rparr>))
      else if field_is ''insecure_skip_tls_verify'' k then
        res_then (dec_bool j (kc_InsecureSkipTLSVerify c)) (\<lambda>x. Ok (c\<lparr>kc_InsecureSkipTLSVerify := x\<rparr>))
      else if field_is ''certificate_authority_data'' k then
        res_then (dec_string j (kc_CertificateAuthorityData c)) (\<lambda>x. Ok (c\<lparr>kc_CertificateAuthorityData := x\<rparr>))
      else Ok c)"

definition dec_Cluster :: "json \<Rightarrow> Cluster res" where
  "dec_Cluster j = dec_struct set_Cluster j
     \<lparr>kc_Server = [], kc_InsecureSkipTLSVerify = False, kc_CertificateAuthorityData = []\<rparr>"

definition set_AuthInfo :: "string \<Rightarrow> json \<Rightarrow> AuthInfo \<Rightarrow> AuthInfo res" where
  "set_AuthInfo k j a =
     (if field_is ''client_certificate_data'' k then
        res_then (dec_string j (au_ClientCertificateData a)) (\<lambda>x. Ok (a\<lparr>au_ClientCertificateData := x\<rparr>))
      else if field_is ''client_key_data'' k then
        res_then (dec_string j (au_ClientKeyData a)) (\<lambda>x. Ok (a\<lparr>au_ClientKeyData := x\<rparr>))
      else if field_is ''token'' k then res_then (dec_string j (au_Token a)) (\<lambda>x. Ok (a\<lparr>au_Token := x\<rparr>))
      else if field_is ''username'' k then res_then (dec_string j (au_Username a)) (\<lambda>x. Ok (a\<lparr>au_Username := x\<rparr>))
      else if field_is ''password'' k then res_then (dec_string j (au_Password a)) (\<lambda>x. Ok (a\<lparr>au_Password := x\<rparr>))
      else if field_is ''auth_provider'' k then
        res_then (dec_string j (au_AuthProvider a)) (\<lambda>x. Ok (a\<lparr>au_AuthProvider := x\<rparr>))
      else if field_is ''idp_issuer_url'' k then
        res_then (dec_string j (au_IdpIssuerURL a)) (\<lambda>x. Ok (a\<lparr>au_IdpIssuerURL := x\<rparr>))
      else if field_is ''client_secret'' k then
        res_then (dec_string j (au_ClientSecret a)) (\<lambda>x. Ok (a\<lparr>au_ClientSecret := x\<rparr>))
      else if field_is ''client_id'' k then res_then (dec_string j (au_ClientID a)) (\<lambda>x. Ok (a\<lparr>au_ClientID := x\<rparr>))
      else if field_is ''refresh_token'' k then
        res_then (dec_string j (au_RefreshToken a)) (\<lambda>x. Ok (a\<lparr>au_RefreshToken := x\<rparr>))
      else Ok a)"

definition dec_AuthInfo :: "json \<Rightarrow> AuthInfo res" where
  "dec_AuthInfo j = dec_struct set_AuthInfo j
     \<lparr>au_ClientCertificateData = [], au_ClientKeyData = [], au_Token = [], au_Username = [], au_Password = [],
      au_AuthProvider = [], au_IdpIssuerURL = [], au_ClientSecret = [], au_ClientID = [], au_RefreshToken = []\<rparr>"

definition set_KubeContext :: "string \<Rightarrow> json \<Rightarrow> KubeContext \<Rightarrow> KubeContext res" where
  "set_KubeContext k j c =
     (if field_is ''cluster'' k then res_then (dec_string j (kx_Cluster c)) (\<lambda>x. Ok (c\<lparr>kx_Cluster := x\<rparr>))
      else if field_is ''user'' k then res_then (dec_string j (kx_AuthInfo c)) (\<lambda>x. Ok (c\<lparr>kx_AuthInfo := x\<rparr>))
      else if field_is ''namespace'' k then res_then (dec_string j (kx_Namespace c)) (\<lambda>x. Ok (c\<lparr>kx_Namespace := x\<rparr>))
      else Ok c)"

definition dec_KubeContext :: "json \<Rightarrow> KubeContext res" where
  "dec_KubeContext j = dec_struct set_KubeContext j \<lparr>kx_Cluster = [], kx_AuthInfo = [], kx_Namespace = []\<rparr>"

text \<open>A map of pointers; the source only ranges over it, so nil and empty are one.\<close>

definition dec_pointers :: "(json \<Rightarrow> 'a res) \<Rightarrow> json \<Rightarrow> (string, 'a option) gomap \<Rightarrow> (string, 'a option) gomap res" where
  "dec_pointers dec j old =
     res_then (dec_map (dec_ptr dec) j (Some old)) (\<lambda>m. Ok (case m of None \<Rightarrow> [] | Some es \<Rightarrow> es))"

definition set_Kubernetes :: "string \<Rightarrow> json \<Rightarrow> Kubernetes \<Rightarrow> Kubernetes res" where
  "set_Kubernetes k j c =
     (if field_is ''clusters'' k then
        res_then (dec_pointers dec_Cluster j (kb_Clusters c)) (\<lambda>x. Ok (c\<lparr>kb_Clusters := x\<rparr>))
      else if field_is ''users'' k then
        res_then (dec_pointers dec_AuthInfo j (kb_AuthInfos c)) (\<lambda>x. Ok (c\<lparr>kb_AuthInfos := x\<rparr>))
      else if field_is ''contexts'' k then
        res_then (dec_pointers dec_KubeContext j (kb_Contexts c)) (\<lambda>x. Ok (c\<lparr>kb_Contexts := x\<rparr>))
      else if field_is ''current_context'' k then
        res_then (dec_string j (kb_CurrentContext c)) (\<lambda>x. Ok (c\<lparr>kb_CurrentContext := x\<rparr>))
      else Ok c)"

definition dec_Kubernetes :: "json \<Rightarrow> Kubernetes res" where
  "dec_Kubernetes j = dec_struct set_Kubernetes j
     \<lparr>kb_Clusters = [], kb_AuthInfos = [], kb_Contexts = [], kb_CurrentContext = []\<rparr>"

definition set_Agent :: "string \<Rightarrow> json \<Rightarrow> AgentConfig \<Rightarrow> AgentConfig res" where
  "set_Agent k j a =
     (if field_is ''blobstore'' k then res_then (dec_any j) (\<lambda>x. Ok (a\<lparr>ac_Blobstore := x\<rparr>))
      else if field_is ''mbus'' k then res_then (dec_string j (ac_MessageBus a)) (\<lambda>x. Ok (a\<lparr>ac_MessageBus := x\<rparr>))
      else if field_is ''ntp'' k then res_then (dec_strings j) (\<lambda>x. Ok (a\<lparr>ac_NTPServers := go_slice x\<rparr>))
      else Ok a)"

definition dec_Agent :: "json \<Rightarrow> AgentConfig res" where
  "dec_Agent j = dec_struct set_Agent j \<lparr>ac_Blobstore = None, ac_MessageBus = [], ac_NTPServers = []\<rparr>"

text \<open>\<^verbatim>\<open>Decode\<close> of a new \<^verbatim>\<open>json.Decoder\<close>: the first value of the text; what follows it is not looked
  at. Text without a value is the error \<^verbatim>\<open>io.EOF\<close>.\<close>

definition json_Decode :: "(json \<Rightarrow> 'a res) \<Rightarrow> string \<Rightarrow> 'a res" where
  "json_Decode dec text =
     (if skip_ws text = [] then Err (PlainError ''EOF'')
      else (case pvalue (2 * length text + 2) text of None \<Rightarrow> syntax_error | Some (j, r) \<Rightarrow> dec j))"

section \<open>The operating system and the flags\<close>

text \<open>A file is opened, read and closed; the errors of closing are not looked at.\<close>

record ('f, 's) os =
  os_Open :: "string \<Rightarrow> ('s, 'f) act"
  os_Read :: "'f \<Rightarrow> ('s, string) act"
  os_Close :: "'f \<Rightarrow> ('s, unit) act"
  os_Stdin :: "('s, string) act"
  os_Stdout :: "string \<Rightarrow> ('s, unit) act"
  os_Stderr :: "string \<Rightarrow> ('s, unit) act"

record flags =
  fl_agentConfig :: string
  fl_kubeConfig :: string
  fl_debug :: bool

text \<open>The libraries the actions call, beside the cluster.\<close>

record 's libs =
  lb_ParseQuantity :: "string \<Rightarrow> quantity res"
  lb_ReadFile :: "string \<Rightarrow> ('s, string) act"
  lb_NewV4 :: "('s, string) act"
  lb_Sleep :: "Duration \<Rightarrow> ('s, unit) act"

text \<open>A deferred call: it runs whatever the outcome, its own outcome is dropped.\<close>

definition deferred :: "('s, unit) act \<Rightarrow> ('s, 'a) act \<Rightarrow> ('s, 'a) act" where
  "deferred cl m s = (case m s of (r, s') \<Rightarrow> (r, snd (cl s')))"

definition load_file :: "('f, 's) os \<Rightarrow> string \<Rightarrow> string \<Rightarrow> (json \<Rightarrow> 'a res) \<Rightarrow> string \<Rightarrow> ('s, 'a) act" where
  "load_file os opening decoding dec path =
     and_then (wrap_err (opening @ path) (os_Open os path)) (\<lambda>file.
       deferred (os_Close os file)
         (wrap_err decoding (and_then (os_Read os file) (\<lambda>text. lift_res (json_Decode dec text)))))"

definition loadKubeConfig :: "('f, 's) os \<Rightarrow> string \<Rightarrow> ('s, Kubernetes) act" where
  "loadKubeConfig os path = load_file os ''Opening kubeConfigFile '' ''Decoding kubeConfigFile'' dec_Kubernetes path"

definition loadAgentConfig :: "('f, 's) os \<Rightarrow> string \<Rightarrow> ('s, AgentConfig) act" where
  "loadAgentConfig os path = load_file os ''Loading agentConfigFile '' ''Decoding agentConfigFile'' dec_Agent path"

definition debugJSON :: "('f, 's) os \<Rightarrow> flags \<Rightarrow> string \<Rightarrow> string \<Rightarrow> ('s, unit) act" where
  "debugJSON os fl stem text =
     (if fl_debug fl then os_Stderr os ([CHR ''{'', CHR '' '', dquote] @ stem @ [dquote] @ '': '' @ text @ '' }'' @ [CHR 0x0A])
      else ret ())"

section \<open>main\<close>

text \<open>\<^verbatim>\<open>if err != nil { panic(err) }\<close>.\<close>

definition or_panic :: "('s, 'a) act \<Rightarrow> ('a \<Rightarrow> ('s, 'b) act) \<Rightarrow> ('s, 'b) act" where
  "or_panic m f = catch m f (\<lambda>e. panic (Error e))"

definition world_of :: "('rest, 's) loader \<Rightarrow> 's libs \<Rightarrow> api_Config \<Rightarrow> AgentConfig \<Rightarrow> 's world" where
  "world_of ld lb cfg agentConf =
     \<lparr>wd_ClientProvider = Provider_New ld cfg, wd_AgentConfig = agentConf, wd_ParseQuantity = lb_ParseQuantity lb,
      wd_ReadFile = lb_ReadFile lb, wd_NewV4 = lb_NewV4 lb, wd_Sleep = lb_Sleep lb\<rparr>"

text \<open>The text of the response is printed as it is; an error of writing it is not looked at, nor is one
  of the debug output.\<close>

definition best_effort :: "('s, unit) act \<Rightarrow> ('s, unit) act" where
  "best_effort m = catch m ret (\<lambda>_. ret ())"

definition main_cpi :: "('rest, 's) loader \<Rightarrow> 's libs \<Rightarrow> ('f, 's) os \<Rightarrow> flags \<Rightarrow> ('s, unit) act" where
  "main_cpi ld lb os fl =
     or_panic (loadKubeConfig os (fl_kubeConfig fl)) (\<lambda>kubeConf.
     or_panic (loadAgentConfig os (fl_agentConfig fl)) (\<lambda>agentConf.
     or_panic (os_Stdin os) (\<lambda>payload.
     and_then (best_effort (debugJSON os fl ''request'' payload)) (\<lambda>_.
     or_panic (lift_res (json_Unmarshal dec_Request payload)) (\<lambda>req.
     and_then (lift_res (ClientConfig kubeConf)) (\<lambda>cfg.
     or_panic (run_method (world_of ld lb cfg agentConf) req) (\<lambda>result.
       let response = print_json (enc_Response result)
       in and_then (best_effort (debugJSON os fl ''response'' response)) (\<lambda>_.
            best_effort (os_Stdout os response)))))))))"

section \<open>What is read\<close>

text \<open>A file that holds exactly one value is read as \<^verbatim>\<open>json.Unmarshal\<close> reads it; text after the first
  value is ignored.\<close>

lemma json_Decode_Unmarshal:
  assumes "parse_json text = Some j"
  shows "json_Decode dec text = dec j"
proof -
  have "skip_ws text \<noteq> []"
  proof
    assume e: "skip_ws text = []"
    have "2 * length text + 2 = Suc (2 * length text + 1)" by simp
    then have "pvalue (2 * length text + 2) text = None"
      using e by (simp only: pvalue.simps) simp
    then show False using assms by (simp add: parse_json_def)
  qed
  then show ?thesis
    using assms by (auto simp: json_Decode_def parse_json_def split: option.splits prod.splits if_splits)
qed

lemma json_Decode_no_panic: "(\<And>j. dec j \<noteq> Panic p) \<Longrightarrow> json_Decode dec text \<noteq> Panic p"
  by (auto simp: json_Decode_def syntax_error_def split: option.splits prod.splits)

lemma dec_ptr_None: "dec_ptr dec j = Ok None \<longleftrightarrow> j = JNull"
  by (cases j) (auto simp: res_then_Ok)

lemma dec_ptr_no_panic: "(\<And>j. dec j \<noteq> Panic p) \<Longrightarrow> dec_ptr dec j \<noteq> Panic p"
  by (cases j) (auto simp: res_then_Panic)

lemma dec_pointers_no_panic: "(\<And>j p. dec j \<noteq> Panic p) \<Longrightarrow> dec_pointers dec j old \<noteq> Panic q"
  by (auto simp: dec_pointers_def res_then_Panic dec_map_no_panic dec_ptr_no_panic)

lemma dec_any_record_no_panic:
  "dec_Cluster j \<noteq> Panic p" "dec_AuthInfo j \<noteq> Panic p" "dec_KubeContext j \<noteq> Panic p"
  unfolding dec_Cluster_def dec_AuthInfo_def dec_KubeContext_def
  by (rule dec_struct_no_panic; simp add: set_Cluster_def set_AuthInfo_def set_KubeContext_def res_then_Panic dec_bool_no_panic)+

lemma dec_Kubernetes_no_panic: "dec_Kubernetes j \<noteq> Panic p"
  unfolding dec_Kubernetes_def
  by (rule dec_struct_no_panic)
    (simp add: set_Kubernetes_def res_then_Panic dec_pointers_no_panic dec_any_record_no_panic)

lemma dec_Agent_no_panic: "dec_Agent j \<noteq> Panic p"
  unfolding dec_Agent_def
  by (rule dec_struct_no_panic) (simp add: set_Agent_def res_then_Panic dec_strings_no_panic)

section \<open>How the process starts\<close>

lemma or_panic_eval [act_simps]:
  "m s = (Ok x, s') \<Longrightarrow> or_panic m f s = f x s'"
  "m s = (Err e, s') \<Longrightarrow> or_panic m f s = (Panic (Error e), s')"
  "m s = (Panic p, s') \<Longrightarrow> or_panic m f s = (Panic p, s')"
  by (simp_all add: or_panic_def catch_def)

lemma load_file_open_error:
  "os_Open os path s = (Err e, s') \<Longrightarrow>
     load_file os opening decoding dec path s = (Err (WrapError e (opening @ path)), s')"
  by (simp add: load_file_def act_simps)

lemma load_file_result:
  assumes "os_Open os path s = (Ok f, s1)" and "os_Read os f s1 = (Ok text, s2)"
  shows "load_file os opening decoding dec path s =
    (res_wrap decoding (json_Decode dec text), snd (os_Close os f s2))"
  using assms by (simp add: load_file_def deferred_def act_simps and_then_def wrap_err_def res_wrap_def)

text \<open>With the configuration read and no debug output, \<^verbatim>\<open>main\<close> prints what \<^const>\<open>run_main\<close> answers
  to the payload.\<close>

lemma main_cpi_run:
  assumes "loadKubeConfig os (fl_kubeConfig fl) s = (Ok kubeConf, s1)"
    and "loadAgentConfig os (fl_agentConfig fl) s1 = (Ok agentConf, s2)"
    and "os_Stdin os s2 = (Ok payload, s3)" and "\<not> fl_debug fl" and "ClientConfig kubeConf = Ok cfg"
  shows "main_cpi ld lb os fl s =
    and_then (run_main (world_of ld lb cfg agentConf) payload) (\<lambda>response. best_effort (os_Stdout os response)) s3"
  using assms
  by (auto simp: main_cpi_def run_main_def or_panic_def debugJSON_def best_effort_def catch_def and_then_def Let_def
      split: res.splits prod.splits)

text \<open>A configuration that cannot be loaded ends the process before its input is read.\<close>

lemma main_cpi_kube_error:
  "loadKubeConfig os (fl_kubeConfig fl) s = (Err e, s') \<Longrightarrow> main_cpi ld lb os fl s = (Panic (Error e), s')"
  by (simp add: main_cpi_def act_simps)

lemma main_cpi_agent_error:
  "loadKubeConfig os (fl_kubeConfig fl) s = (Ok kubeConf, s1) \<Longrightarrow>
     loadAgentConfig os (fl_agentConfig fl) s1 = (Err e, s') \<Longrightarrow> main_cpi ld lb os fl s = (Panic (Error e), s')"
  by (simp add: main_cpi_def act_simps)

text \<open>A nil entry of the configuration is met only after the request has been read.\<close>

lemma main_cpi_nil_entry:
  assumes "loadKubeConfig os (fl_kubeConfig fl) s = (Ok kubeConf, s1)"
    and "loadAgentConfig os (fl_agentConfig fl) s1 = (Ok agentConf, s2)"
    and "os_Stdin os s2 = (Ok payload, s3)" and "\<not> fl_debug fl"
    and "json_Unmarshal dec_Request payload = Ok req" and "ClientConfig kubeConf = Panic p"
  shows "main_cpi ld lb os fl s = (Panic p, s3)"
  using assms by (simp add: main_cpi_def debugJSON_def best_effort_def catch_def act_simps)

end
