(* ===== verification/Fakes.thy ===== *)
theory Fakes
  imports CID
begin

text \<open>
  The recording fakes of the unit tests, \<^verbatim>\<open>kubecluster/fakes/client_provider.go\<close> and
  \<^verbatim>\<open>client_context.go\<close>. A fake answers from a stub or from preset results and keeps two logs of its
  calls: the arguments per method and the invocations of all methods. First each method as the code of
  one goroutine, then the locks: a step relation in which any number of goroutines call methods, ask
  for counts and list the invocations. A stub is a function of the arguments. \<^verbatim>\<open>RLock\<close> waits for a
  writer that holds the mutex; that it also waits for a writer in the queue is added in \<open>FakeLocks\<close>.
\<close>

section \<open>The logs\<close>

type_synonym invocations = "(string, string list list) gomap"

definition recordInvocation :: "string \<Rightarrow> string list \<Rightarrow> invocations option \<Rightarrow> invocations option" where
  "recordInvocation key args inv_map =
     (let m = (case inv_map of None \<Rightarrow> [] | Some es \<Rightarrow> es);
          calls = (case gget key m of None \<Rightarrow> [] | Some cs \<Rightarrow> cs)
      in Some (gput key (calls @ [args]) m))"

definition recorded :: "string \<Rightarrow> invocations option \<Rightarrow> string list list" where
  "recorded key inv_map =
     (case inv_map of None \<Rightarrow> [] | Some m \<Rightarrow> (case gget key m of None \<Rightarrow> [] | Some cs \<Rightarrow> cs))"

lemma recorded_None [simp]: "recorded key None = []"
  by (simp add: recorded_def)

lemma recorded_recordInvocation [simp]:
  "recorded k (recordInvocation key args i) = (if k = key then recorded k i @ [args] else recorded k i)"
  by (auto simp: recorded_def recordInvocation_def Let_def split: option.splits)

section \<open>The fake provider\<close>

text \<open>\<^verbatim>\<open>New\<close> gives a client and an error; \<open>'c\<close> is the client, nil being one of its values.\<close>

record 'c ClientProvider =
  NewStub :: "(string \<Rightarrow> 'c \<times> error option) option"
  newArgsForCall :: "string list"
  newReturns :: "'c \<times> error option"
  cp_invocations :: "invocations option"

definition ClientProvider_New :: "string \<Rightarrow> 'c ClientProvider \<Rightarrow> ('c \<times> error option) \<times> 'c ClientProvider" where
  "ClientProvider_New ctx fk =
     (let fk' = fk\<lparr>newArgsForCall := newArgsForCall fk @ [ctx],
                   cp_invocations := recordInvocation ''New'' [ctx] (cp_invocations fk)\<rparr>
      in ((case NewStub fk' of Some stub \<Rightarrow> stub ctx | None \<Rightarrow> newReturns fk'), fk'))"

definition NewCallCount :: "'c ClientProvider \<Rightarrow> nat" where
  "NewCallCount fk = length (newArgsForCall fk)"

definition NewArgsForCall :: "int \<Rightarrow> 'c ClientProvider \<Rightarrow> string res" where
  "NewArgsForCall i fk =
     (if 0 \<le> i \<and> i < int (length (newArgsForCall fk)) then Ok (newArgsForCall fk ! nat i) else Panic index_panic)"

definition NewReturns :: "'c \<Rightarrow> error option \<Rightarrow> 'c ClientProvider \<Rightarrow> 'c ClientProvider" where
  "NewReturns result1 result2 fk = fk\<lparr>NewStub := None, newReturns := (result1, result2)\<rparr>"

definition ClientProvider_Invocations :: "'c ClientProvider \<Rightarrow> invocations option" where
  "ClientProvider_Invocations fk = cp_invocations fk"

text \<open>A test's calls of \<^verbatim>\<open>New\<close>, one after the other, and their answers.\<close>

fun New_calls :: "string list \<Rightarrow> 'c ClientProvider \<Rightarrow> ('c \<times> error option) list \<times> 'c ClientProvider" where
  "New_calls [] fk = ([], fk)"
| "New_calls (ctx # ctxs) fk =
     (let (answer, fk') = ClientProvider_New ctx fk; (answers, fk'') = New_calls ctxs fk'
      in (answer # answers, fk''))"

lemma New_calls_log:
  "newArgsForCall (snd (New_calls ctxs fk)) = newArgsForCall fk @ ctxs"
  "recorded ''New'' (cp_invocations (snd (New_calls ctxs fk))) =
     recorded ''New'' (cp_invocations fk) @ map (\<lambda>c. [c]) ctxs"
  by (induction ctxs arbitrary: fk) (simp_all add: ClientProvider_New_def Let_def case_prod_beta)

lemma New_calls_answers:
  "fst (New_calls ctxs fk) = map (\<lambda>c. case NewStub fk of Some stub \<Rightarrow> stub c | None \<Rightarrow> newReturns fk) ctxs"
  by (induction ctxs arbitrary: fk) (simp_all add: ClientProvider_New_def Let_def case_prod_beta split: option.split)

section \<open>The fake of the client's context\<close>

record ClientContext =
  ContextStub :: "(unit \<Rightarrow> string) option"
  contextArgsForCall :: "unit list"
  contextReturns :: string
  NamespaceStub :: "(unit \<Rightarrow> string) option"
  namespaceArgsForCall :: "unit list"
  namespaceReturns :: string
  cc_invocations :: "invocations option"

definition ClientContext_Context :: "ClientContext \<Rightarrow> string \<times> ClientContext" where
  "ClientContext_Context fk =
     (let fk' = fk\<lparr>contextArgsForCall := contextArgsForCall fk @ [()],
                   cc_invocations := recordInvocation ''Context'' [] (cc_invocations fk)\<rparr>
      in ((case ContextStub fk' of Some stub \<Rightarrow> stub () | None \<Rightarrow> contextReturns fk'), fk'))"

definition ContextCallCount :: "ClientContext \<Rightarrow> nat" where
  "ContextCallCount fk = length (contextArgsForCall fk)"

definition ContextReturns :: "string \<Rightarrow> ClientContext \<Rightarrow> ClientContext" where
  "ContextReturns result1 fk = fk\<lparr>ContextStub := None, contextReturns := result1\<rparr>"

definition ClientContext_Namespace :: "ClientContext \<Rightarrow> string \<times> ClientContext" where
  "ClientContext_Namespace fk =
     (let fk' = fk\<lparr>namespaceArgsForCall := namespaceArgsForCall fk @ [()],
                   cc_invocations := recordInvocation ''Namespace'' [] (cc_invocations fk)\<rparr>
      in ((case NamespaceStub fk' of Some stub \<Rightarrow> stub () | None \<Rightarrow> namespaceReturns fk'), fk'))"

definition NamespaceCallCount :: "ClientContext \<Rightarrow> nat" where
  "NamespaceCallCount fk = length (namespaceArgsForCall fk)"

definition NamespaceReturns :: "string \<Rightarrow> ClientContext \<Rightarrow> ClientContext" where
  "NamespaceReturns result1 fk = fk\<lparr>NamespaceStub := None, namespaceReturns := result1\<rparr>"

definition ClientContext_Invocations :: "ClientContext \<Rightarrow> invocations option" where
  "ClientContext_Invocations fk = cc_invocations fk"

text \<open>The two logs of a fake agree, and the methods of the context fake do not disturb each other's.\<close>

definition context_logs_agree :: "ClientContext \<Rightarrow> bool" where
  "context_logs_agree fk \<longleftrightarrow>
     recorded ''Context'' (cc_invocations fk) = replicate (ContextCallCount fk) [] \<and>
     recorded ''Namespace'' (cc_invocations fk) = replicate (NamespaceCallCount fk) []"

lemma context_logs_agree_calls:
  "context_logs_agree fk \<Longrightarrow> context_logs_agree (snd (ClientContext_Context fk))"
  "context_logs_agree fk \<Longrightarrow> context_logs_agree (snd (ClientContext_Namespace fk))"
  "context_logs_agree fk \<Longrightarrow> context_logs_agree (ContextReturns x fk)"
  "context_logs_agree fk \<Longrightarrow> context_logs_agree (NamespaceReturns x fk)"
  by (simp_all add: context_logs_agree_def ClientContext_Context_def ClientContext_Namespace_def Let_def
      ContextCallCount_def NamespaceCallCount_def ContextReturns_def NamespaceReturns_def replicate_append_same)

section \<open>The locks\<close>

text \<open>Where a goroutine is. \<open>m\<close> names the method: its mutex and its log.\<close>

datatype phase =
    Idle
  | Calling string "string list" \<comment> \<open>about to lock the method's mutex\<close>
  | Locked string "string list" \<comment> \<open>holds it\<close>
  | Appended string "string list" \<comment> \<open>the arguments are logged; about to lock the mutex of the invocations\<close>
  | Recording string "string list" \<comment> \<open>holds both\<close>
  | Recorded string "string list" \<comment> \<open>holds the method's mutex only\<close>
  | Answering string "string list" \<comment> \<open>holds none; the stub or the preset results are read\<close>
  | Counting string \<comment> \<open>about to read-lock the method's mutex\<close>
  | Reading string
  | Counted string nat
  | Listing "string list" \<comment> \<open>about to read-lock the mutex of the invocations; the methods still to lock\<close>
  | Taking "string list" "string list" \<comment> \<open>the methods read-locked, and those still to lock\<close>

fun writes :: "string \<Rightarrow> phase \<Rightarrow> bool" where
  "writes m (Locked k a) = (k = m)"
| "writes m (Appended k a) = (k = m)"
| "writes m (Recording k a) = (k = m)"
| "writes m (Recorded k a) = (k = m)"
| "writes m _ = False"

fun reads :: "string \<Rightarrow> phase \<Rightarrow> bool" where
  "reads m (Reading k) = (k = m)"
| "reads m (Counted k n) = (k = m)"
| "reads m (Taking ks todo) = (m \<in> set ks)"
| "reads m _ = False"

fun inv_writes :: "phase \<Rightarrow> bool" where
  "inv_writes (Recording k a) = True"
| "inv_writes _ = False"

fun inv_reads :: "phase \<Rightarrow> bool" where
  "inv_reads (Taking ks todo) = True"
| "inv_reads _ = False"

type_synonym logs = "(string \<Rightarrow> string list list) \<times> invocations option"

text \<open>One step of a goroutine, given the phases of all.\<close>

inductive thread_step :: "phase list \<Rightarrow> phase \<times> logs \<Rightarrow> phase \<times> logs \<Rightarrow> bool" for ths where
  call: "thread_step ths (Idle, l) (Calling m a, l)"
| lock: "list_all (\<lambda>p. \<not> writes m p \<and> \<not> reads m p) ths \<Longrightarrow> thread_step ths (Calling m a, l) (Locked m a, l)"
| append: "thread_step ths (Locked m a, args, i) (Appended m a, args(m := args m @ [a]), i)"
| lock_invocations: "list_all (\<lambda>p. \<not> inv_writes p \<and> \<not> inv_reads p) ths \<Longrightarrow>
    thread_step ths (Appended m a, l) (Recording m a, l)"
| record_call: "thread_step ths (Recording m a, args, i) (Recorded m a, args, recordInvocation m a i)"
| unlock: "thread_step ths (Recorded m a, l) (Answering m a, l)"
| answer: "thread_step ths (Answering m a, l) (Idle, l)"
| ask_count: "thread_step ths (Idle, l) (Counting m, l)"
| read_lock: "list_all (\<lambda>p. \<not> writes m p) ths \<Longrightarrow> thread_step ths (Counting m, l) (Reading m, l)"
| count: "thread_step ths (Reading m, args, i) (Counted m (length (args m)), args, i)"
| give_count: "thread_step ths (Counted m n, l) (Idle, l)"
| ask_list: "thread_step ths (Idle, l) (Listing ms, l)"
| read_lock_invocations: "list_all (\<lambda>p. \<not> inv_writes p) ths \<Longrightarrow> thread_step ths (Listing ms, l) (Taking [] ms, l)"
| read_lock_next: "list_all (\<lambda>p. \<not> writes m p) ths \<Longrightarrow>
    thread_step ths (Taking ks (m # ms), l) (Taking (m # ks) ms, l)"
| give_list: "thread_step ths (Taking ks [], l) (Idle, l)"

inductive_simps thread_step_simps [simp]:
  "thread_step ths (Appended m a, l) q"
  "thread_step ths (Taking ks ms, l) q"

text \<open>Goroutines take turns in any order.\<close>

inductive fake_step :: "phase list \<times> logs \<Rightarrow> phase list \<times> logs \<Rightarrow> bool" where
  turn: "thread_step (us @ p # vs) (p, l) (p', l') \<Longrightarrow> fake_step (us @ p # vs, l) (us @ p' # vs, l')"

definition fake_start :: "nat \<Rightarrow> phase list \<times> logs" where
  "fake_start n = (replicate n Idle, \<lambda>_. [], None)"

section \<open>What the locks guarantee\<close>

text \<open>The arguments a goroutine has logged with the method and not yet with the invocations.\<close>

fun pending :: "string \<Rightarrow> phase \<Rightarrow> string list list" where
  "pending m (Appended k a) = (if k = m then [a] else [])"
| "pending m (Recording k a) = (if k = m then [a] else [])"
| "pending m _ = []"

definition exclusive :: "string \<Rightarrow> phase list \<Rightarrow> bool" where
  "exclusive m ths \<longleftrightarrow> length (filter (writes m) ths) \<le> 1 \<and>
     (list_ex (reads m) ths \<longrightarrow> filter (writes m) ths = [])"

fun fake_inv :: "phase list \<times> logs \<Rightarrow> bool" where
  "fake_inv (ths, args, i) \<longleftrightarrow>
     (\<forall>m. exclusive m ths \<and> args m = recorded m i @ concat (map (pending m) ths))"

lemma no_writes_no_pending: "list_all (\<lambda>p. \<not> writes m p) ths \<Longrightarrow> concat (map (pending m) ths) = []"
proof (induction ths)
  case (Cons p ths)
  then show ?case by (cases p) auto
qed simp

lemma exclusive_frame:
  "exclusive m (us @ p # vs) \<Longrightarrow> (writes m q \<Longrightarrow> writes m p) \<Longrightarrow> (reads m q \<Longrightarrow> reads m p) \<Longrightarrow> exclusive m (us @ q # vs)"
  by (auto simp: exclusive_def filter_empty_conv list_ex_iff split: if_splits)

lemma exclusive_lock: "list_all (\<lambda>p. \<not> writes m p \<and> \<not> reads m p) (us @ p # vs) \<Longrightarrow> \<not> reads m q \<Longrightarrow> exclusive m (us @ q # vs)"
  by (auto simp: exclusive_def list_all_iff list_ex_iff filter_empty_conv)

lemma exclusive_read: "list_all (\<lambda>p. \<not> writes m p) (us @ p # vs) \<Longrightarrow> \<not> writes m q \<Longrightarrow> exclusive m (us @ q # vs)"
  by (auto simp: exclusive_def list_all_iff filter_empty_conv)

text \<open>The one goroutine that holds the method's mutex is the only one with pending arguments.\<close>

lemma writer_alone:
  assumes "exclusive m (us @ p # vs)" and "writes m p"
  shows "concat (map (pending m) us) = []" and "concat (map (pending m) vs) = []"
proof -
  have "list_all (\<lambda>p. \<not> writes m p) us" and "list_all (\<lambda>p. \<not> writes m p) vs"
    using assms by (auto simp: exclusive_def list_all_iff filter_empty_conv)
  then show "concat (map (pending m) us) = []" and "concat (map (pending m) vs) = []"
    by (auto dest: no_writes_no_pending)
qed

lemma thread_step_exclusive:
  assumes "thread_step (us @ p # vs) (p, l) (p', l')" and "exclusive m (us @ p # vs)"
  shows "exclusive m (us @ p' # vs)"
  using assms
proof (cases rule: thread_step.cases)
  case (lock k a)
  then show ?thesis
    using assms(2) exclusive_frame [OF assms(2), of p'] exclusive_lock [of m us p vs p'] by (cases "k = m") auto
next
  case (read_lock k)
  then show ?thesis
    using assms(2) exclusive_frame [OF assms(2), of p'] exclusive_read [of m us p vs p'] by (cases "k = m") auto
next
  case (read_lock_next k ks ms)
  then show ?thesis
    using assms(2) exclusive_frame [OF assms(2), of p'] exclusive_read [of m us p vs p'] by (cases "k = m") auto
qed (auto intro: exclusive_frame [OF assms(2)])

lemma fake_inv_step: "fake_step s s' \<Longrightarrow> fake_inv s \<Longrightarrow> fake_inv s'"
proof (induction rule: fake_step.induct)
  case (turn us p vs l p' l')
  obtain args i args' i' where l: "l = (args, i)" "l' = (args', i')" by fastforce
  have ex: "exclusive m (us @ p # vs)" and lg: "args m = recorded m i @ concat (map (pending m) (us @ p # vs))" for m
    using turn(2) l by simp_all
  have "args' m = recorded m i' @ concat (map (pending m) (us @ p' # vs))" for m
    using turn(1) l lg [of m] writer_alone [OF ex, of m]
    by (cases rule: thread_step.cases) (auto split: if_splits simp del: concat_eq_Nil_conv)
  moreover have "exclusive m (us @ p' # vs)" for m
    using thread_step_exclusive [OF turn(1) ex] .
  ultimately show ?case using l by simp
qed

lemma fake_inv_start: "fake_inv (fake_start n)"
  by (simp add: fake_start_def exclusive_def filter_empty_conv list_ex_iff)

lemma fake_inv_reachable: "fake_step\<^sup>*\<^sup>* (fake_start n) s \<Longrightarrow> fake_inv s"
  by (induction rule: rtranclp_induct) (auto simp: fake_inv_start intro: fake_inv_step)

text \<open>The logs of a fake provider, as the step relation has them.\<close>

definition provider_logs :: "'c ClientProvider \<Rightarrow> logs" where
  "provider_logs fk = ((\<lambda>_. [])(''New'' := map (\<lambda>c. [c]) (newArgsForCall fk)), cp_invocations fk)"

lemma one_turn: "thread_step (us @ p # vs) (p, l) (p', l') \<Longrightarrow> fake_step\<^sup>*\<^sup>* (us @ p # vs, l) (us @ p' # vs, l')"
  by (rule r_into_rtranclp) (rule turn)

lemma call_alone:
  assumes "list_all (\<lambda>p. \<not> writes m p \<and> \<not> reads m p \<and> \<not> inv_writes p \<and> \<not> inv_reads p) (us @ vs)"
  shows "fake_step\<^sup>*\<^sup>* (us @ Calling m a # vs, args, i)
    (us @ Answering m a # vs, args(m := args m @ [a]), recordInvocation m a i)"
proof -
  have free: "list_all (\<lambda>p. \<not> writes m p \<and> \<not> reads m p) (us @ Calling m a # vs)"
    "list_all (\<lambda>p. \<not> inv_writes p \<and> \<not> inv_reads p) (us @ Appended m a # vs)"
    using assms by (auto simp: list_all_iff)
  let ?args = "args(m := args m @ [a])"
  have "fake_step\<^sup>*\<^sup>* (us @ Calling m a # vs, args, i) (us @ Locked m a # vs, args, i)"
    by (rule one_turn [OF lock [OF free(1)]])
  also have "fake_step\<^sup>*\<^sup>* \<dots> (us @ Appended m a # vs, ?args, i)"
    by (rule one_turn [OF append])
  also have "fake_step\<^sup>*\<^sup>* \<dots> (us @ Recording m a # vs, ?args, i)"
    by (rule one_turn [OF lock_invocations [OF free(2)]])
  also have "fake_step\<^sup>*\<^sup>* \<dots> (us @ Recorded m a # vs, ?args, recordInvocation m a i)"
    by (rule one_turn [OF record_call])
  also have "fake_step\<^sup>*\<^sup>* \<dots> (us @ Answering m a # vs, ?args, recordInvocation m a i)"
    by (rule one_turn [OF unlock])
  finally show ?thesis .
qed

lemma provider_call_refines:
  assumes "list_all (\<lambda>p. \<not> writes ''New'' p \<and> \<not> reads ''New'' p \<and> \<not> inv_writes p \<and> \<not> inv_reads p) (us @ vs)"
  shows "fake_step\<^sup>*\<^sup>* (us @ Calling ''New'' [ctx] # vs, provider_logs fk)
    (us @ Answering ''New'' [ctx] # vs, provider_logs (snd (ClientProvider_New ctx fk)))"
proof -
  have "provider_logs (snd (ClientProvider_New ctx fk)) =
    ((fst (provider_logs fk))(''New'' := fst (provider_logs fk) ''New'' @ [[ctx]]),
     recordInvocation ''New'' [ctx] (snd (provider_logs fk)))"
    by (simp add: provider_logs_def ClientProvider_New_def Let_def)
  then show ?thesis
    using call_alone [OF assms, of "[ctx]" "fst (provider_logs fk)" "snd (provider_logs fk)"] by simp
qed

text \<open>Two goroutines, one in \<^verbatim>\<open>New\<close> and one in \<^verbatim>\<open>Invocations\<close>, which take the two mutexes in opposite
  orders.\<close>

definition deadlocked :: "string \<Rightarrow> phase list \<times> logs" where
  "deadlocked ctx = ([Appended ''New'' [ctx], Taking [] [''New'']], (\<lambda>_. [])(''New'' := [[ctx]]), None)"

lemma deadlocked_reachable: "fake_step\<^sup>*\<^sup>* (fake_start 2) (deadlocked ctx)"
proof -
  let ?l = "((\<lambda>_. [])(''New'' := [[ctx]]), None) :: logs"
  have s1: "fake_step\<^sup>*\<^sup>* (fake_start 2) ([Calling ''New'' [ctx], Idle], \<lambda>_. [], None)"
    using one_turn [OF call, of "[]" "[Idle]"] by (simp add: fake_start_def numeral_2_eq_2)
  have s2: "fake_step\<^sup>*\<^sup>* ([Calling ''New'' [ctx], Idle], \<lambda>_. [], None) ([Locked ''New'' [ctx], Idle], \<lambda>_. [], None)"
    using one_turn [OF lock, of "''New''" "[]" "[ctx]" "[Idle]"] by simp
  have s3: "fake_step\<^sup>*\<^sup>* ([Locked ''New'' [ctx], Idle], \<lambda>_. [], None) ([Appended ''New'' [ctx], Idle], ?l)"
    using one_turn [OF append, of "[]" "''New''" "[ctx]" "[Idle]" "\<lambda>_. []" None] by simp
  have s4: "fake_step\<^sup>*\<^sup>* ([Appended ''New'' [ctx], Idle], ?l) ([Appended ''New'' [ctx], Listing [''New'']], ?l)"
    using one_turn [OF ask_list, of "[Appended ''New'' [ctx]]" "[]"] by simp
  have s5: "fake_step\<^sup>*\<^sup>* ([Appended ''New'' [ctx], Listing [''New'']], ?l) (deadlocked ctx)"
    using one_turn [OF read_lock_invocations, of "[Appended ''New'' [ctx]]" "[''New'']" "[]" ?l]
    by (simp add: deadlocked_def)
  show ?thesis
    by (rule rtranclp_trans [OF s1 rtranclp_trans [OF s2 rtranclp_trans [OF s3 rtranclp_trans [OF s4 s5]]]])
qed

lemma deadlocked_stuck: "\<not> fake_step (deadlocked ctx) s"
  unfolding deadlocked_def by (auto elim!: fake_step.cases simp: Cons_eq_append_conv)

end
