(* ===== verification/FakeLocks.thy ===== *)
theory FakeLocks
  imports Fakes
begin

text \<open>
  The mutexes of the recording fakes as \<^verbatim>\<open>sync.RWMutex\<close> has them: a goroutine that wants to lock one
  first queues for it, and a read lock waits for a queued writer as it does for one that holds the
  mutex. Every run is one of \<open>Fakes\<close> with the queueing left out, so what holds of those holds here.
  Goroutines that only call and count can always finish; one that lists and one that calls can still
  block each other.
\<close>

section \<open>The queue\<close>

datatype mutex = MethodMutex string | InvocationsMutex

text \<open>The mutex a goroutine is about to lock, and the one it is about to read-lock.\<close>

fun to_lock :: "phase \<Rightarrow> mutex option" where
  "to_lock (Calling m a) = Some (MethodMutex m)"
| "to_lock (Appended m a) = Some InvocationsMutex"
| "to_lock _ = None"

fun to_read :: "phase \<Rightarrow> mutex option" where
  "to_read (Counting m) = Some (MethodMutex m)"
| "to_read (Listing ms) = Some InvocationsMutex"
| "to_read (Taking ks (m # ms)) = Some (MethodMutex m)"
| "to_read _ = None"

text \<open>A goroutine's phase, and whether it is in the queue of the mutex it is about to lock.\<close>

type_synonym thread = "phase \<times> bool"

definition queued_for :: "mutex option \<Rightarrow> thread \<Rightarrow> bool" where
  "queued_for x t = (snd t \<and> x \<noteq> None \<and> to_lock (fst t) = x)"

inductive rw_step :: "thread list \<times> logs \<Rightarrow> thread list \<times> logs \<Rightarrow> bool" where
  queue: "to_lock p \<noteq> None \<Longrightarrow> rw_step (us @ (p, False) # vs, l) (us @ (p, True) # vs, l)"
| run: "thread_step (map fst (us @ (p, q) # vs)) (p, l) (p', l') \<Longrightarrow> (to_lock p \<noteq> None) = q \<Longrightarrow>
    list_all (\<lambda>t. \<not> queued_for (to_read p) t) (us @ vs) \<Longrightarrow>
    rw_step (us @ (p, q) # vs, l) (us @ (p', False) # vs, l')"

definition rw_start :: "nat \<Rightarrow> thread list \<times> logs" where
  "rw_start n = (replicate n (Idle, False), \<lambda>_. [], None)"

definition phases :: "thread list \<times> logs \<Rightarrow> phase list \<times> logs" where
  "phases s = (map fst (fst s), snd s)"

lemma rw_step_phases: "rw_step s t \<Longrightarrow> phases t = phases s \<or> fake_step (phases s) (phases t)"
proof (induction rule: rw_step.induct)
  case (run us p q vs l p' l')
  then have "fake_step (map fst us @ p # map fst vs, l) (map fst us @ p' # map fst vs, l')"
    by (intro fake_step.turn) simp
  then show ?case by (simp add: phases_def)
qed (simp add: phases_def)

lemma rw_run_phases: "rw_step\<^sup>*\<^sup>* s t \<Longrightarrow> fake_step\<^sup>*\<^sup>* (phases s) (phases t)"
proof (induction rule: rtranclp_induct)
  case (step t u)
  from rw_step_phases [OF step(2)] step(3) show ?case
    by (metis rtranclp.rtrancl_into_rtrancl)
qed simp

lemma phases_start: "phases (rw_start n) = fake_start n"
  by (simp add: phases_def rw_start_def fake_start_def)

lemma rw_inv_reachable: "rw_step\<^sup>*\<^sup>* (rw_start n) s \<Longrightarrow> fake_inv (phases s)"
  using rw_run_phases [of "rw_start n" s] by (simp add: phases_start fake_inv_reachable)

section \<open>Progress\<close>

fun listing :: "phase \<Rightarrow> bool" where
  "listing (Listing ms) = True"
| "listing (Taking ks ms) = True"
| "listing _ = False"

text \<open>The steps a goroutine has still to take.\<close>

fun steps_left :: "thread \<Rightarrow> nat" where
  "steps_left (Calling m a, q) = (if q then 7 else 8)"
| "steps_left (Locked m a, q) = 6"
| "steps_left (Appended m a, q) = (if q then 4 else 5)"
| "steps_left (Recording m a, q) = 3"
| "steps_left (Recorded m a, q) = 2"
| "steps_left (Answering m a, q) = 1"
| "steps_left (Counting m, q) = 3"
| "steps_left (Reading m, q) = 2"
| "steps_left (Counted m n, q) = 1"
| "steps_left _ = 0"

definition quiet_threads :: "thread list \<Rightarrow> bool" where
  "quiet_threads ths = list_all (\<lambda>t. \<not> listing (fst t) \<and> (snd t \<longrightarrow> to_lock (fst t) \<noteq> None)) ths"

definition work_left :: "thread list \<Rightarrow> nat" where
  "work_left ths = sum_list (map steps_left ths)"

text \<open>A goroutine that can go on whatever the others do.\<close>

fun free_running :: "phase \<Rightarrow> bool" where
  "free_running (Locked m a) = True"
| "free_running (Recording m a) = True"
| "free_running (Recorded m a) = True"
| "free_running (Answering m a) = True"
| "free_running (Reading m) = True"
| "free_running (Counted m n) = True"
| "free_running _ = False"

lemma queued_for_None [simp]: "\<not> queued_for None t"
  by (simp add: queued_for_def)

text \<open>One goroutine's step towards its end.\<close>

definition advances :: "thread list \<Rightarrow> logs \<Rightarrow> thread list \<Rightarrow> logs \<Rightarrow> bool" where
  "advances ths l ths' l' = (rw_step (ths, l) (ths', l') \<and> quiet_threads ths' \<and> work_left ths' < work_left ths \<and>
     length ths' = length ths)"

lemma advances_queue:
  "quiet_threads (us @ (p, False) # vs) \<Longrightarrow> to_lock p \<noteq> None \<Longrightarrow> advances (us @ (p, False) # vs) l (us @ (p, True) # vs) l"
  unfolding advances_def using rw_step.queue [of p us vs l]
  by (cases p) (auto simp: quiet_threads_def work_left_def)

lemma advances_run:
  assumes "quiet_threads (us @ (p, q) # vs)" and "thread_step (map fst (us @ (p, q) # vs)) (p, l) (p', l')"
    and "(to_lock p \<noteq> None) = q" and "list_all (\<lambda>t. \<not> queued_for (to_read p) t) (us @ vs)"
    and "steps_left (p', False) < steps_left (p, q)" and "\<not> listing p'"
  shows "advances (us @ (p, q) # vs) l (us @ (p', False) # vs) l'"
  unfolding advances_def using assms rw_step.run [OF assms(2-4)]
  by (auto simp: quiet_threads_def work_left_def)

lemma free_running_step:
  assumes "free_running p"
  shows "to_lock p = None \<and> to_read p = None \<and>
    (\<exists>p' l'. thread_step ths (p, l) (p', l') \<and> steps_left (p', False) < steps_left (p, False) \<and> \<not> listing p')"
proof -
  obtain args i where l: "l = (args, i)" by fastforce
  show ?thesis
  proof (cases p)
    case (Locked m a)
    then show ?thesis using thread_step.append [of ths m a args i] unfolding l by fastforce
  next
    case (Recording m a)
    then show ?thesis using thread_step.record_call [of ths m a args i] unfolding l by fastforce
  next
    case (Recorded m a)
    then show ?thesis using thread_step.unlock [of ths m a l] by fastforce
  next
    case (Answering m a)
    then show ?thesis using thread_step.answer [of ths m a l] by fastforce
  next
    case (Reading m)
    then show ?thesis using thread_step.count [of ths m args i] unfolding l by fastforce
  next
    case (Counted m n)
    then show ?thesis using thread_step.give_count [of ths m n l] by fastforce
  qed (use assms in simp_all)
qed

lemma free_running_advances:
  assumes "quiet_threads (us @ (p, q) # vs)" and "free_running p"
  shows "\<exists>ths' l'. advances (us @ (p, q) # vs) l ths' l'"
proof -
  obtain p' l' where p: "to_lock p = None" "to_read p = None" "\<not> listing p'"
      "thread_step (map fst (us @ (p, q) # vs)) (p, l) (p', l')" "steps_left (p', False) < steps_left (p, False)"
    using free_running_step [OF assms(2)] by blast
  then have "\<not> q" using assms(1) by (simp add: quiet_threads_def)
  with p have "advances (us @ (p, q) # vs) l (us @ (p', False) # vs) l'"
    by (intro advances_run [OF assms(1)]) (simp_all add: list_all_iff)
  then show ?thesis by blast
qed

text \<open>When nobody is free running, a queued writer of the invocations can go on; when there is none, a
  queued writer of a method; when there is none, a reader.\<close>

lemma progress:
  assumes quiet: "quiet_threads ths" and busy: "\<exists>t \<in> set ths. fst t \<noteq> Idle"
  shows "\<exists>ths' l'. advances ths l ths' l'"
proof -
  obtain args i where l: "l = (args, i)" by fastforce
  have split: "\<exists>us vs. ths = us @ t # vs" if "t \<in> set ths" for t
    using that by (meson split_list)
  consider (free) p q where "(p, q) \<in> set ths" "free_running p"
    | (joins) p where "(p, False) \<in> set ths" "to_lock p \<noteq> None"
    | (stuck) "\<forall>t \<in> set ths. \<not> free_running (fst t) \<and> (to_lock (fst t) \<noteq> None \<longrightarrow> snd t)"
    by (metis prod.collapse)
  then show ?thesis
  proof cases
    case free
    then show ?thesis using split [OF free(1)] free_running_advances quiet by metis
  next
    case joins
    then show ?thesis using split [OF joins(1)] advances_queue quiet by metis
  next
    case stuck
    have idle: "\<not> writes m (fst t)" if "t \<in> set ths" "\<forall>k b. fst t \<noteq> Appended k b" for t m
      using stuck that by (cases "fst t") auto
    have noread: "\<not> reads m (fst t) \<and> \<not> inv_reads (fst t) \<and> \<not> inv_writes (fst t)" if "t \<in> set ths" for t m
      using stuck quiet that by (cases "fst t") (auto simp: quiet_threads_def list_all_iff)
    consider (appended) m a where "(Appended m a, True) \<in> set ths"
      | (calling) m a where "(Calling m a, True) \<in> set ths" "\<forall>k b q. (Appended k b, q) \<notin> set ths"
      | (counting) m q where "(Counting m, q) \<in> set ths" "\<forall>k b q. (Appended k b, q) \<notin> set ths \<and> (Calling k b, q) \<notin> set ths"
    proof -
      have queued: "(Appended k b, q) \<in> set ths \<Longrightarrow> q" "(Calling k b, q) \<in> set ths \<Longrightarrow> q" for k b q
        using stuck by force+
      show thesis
      proof (cases "\<exists>k b q. (Appended k b, q) \<in> set ths \<or> (Calling k b, q) \<in> set ths")
        case True
        then show ?thesis using that(1,2) queued by (metis (full_types))
      next
        case False
        obtain p q where t: "(p, q) \<in> set ths" "p \<noteq> Idle" using busy by force
        then have "\<not> listing p" "\<not> free_running p"
          using quiet stuck by (auto simp: quiet_threads_def list_all_iff)
        with t False that(3) show ?thesis by (cases p) auto
      qed
    qed
    then show ?thesis
    proof cases
      case appended
      obtain us vs where ths: "ths = us @ (Appended m a, True) # vs" using split [OF appended] by blast
      have "thread_step (map fst ths) (Appended m a, l) (Recording m a, l)"
        using noread by (intro thread_step.lock_invocations) (auto simp: list_all_iff)
      then have "advances ths l (us @ (Recording m a, False) # vs) l"
        unfolding ths by (rule advances_run [OF quiet [unfolded ths]]) (simp_all add: list_all_iff)
      then show ?thesis by blast
    next
      case calling
      obtain us vs where ths: "ths = us @ (Calling m a, True) # vs" using split [OF calling(1)] by blast
      have "thread_step (map fst ths) (Calling m a, l) (Locked m a, l)"
        using noread idle calling(2) by (intro thread_step.lock) (fastforce simp: list_all_iff)
      then have "advances ths l (us @ (Locked m a, False) # vs) l"
        unfolding ths by (rule advances_run [OF quiet [unfolded ths]]) (simp_all add: list_all_iff)
      then show ?thesis by blast
    next
      case counting
      have q: "\<not> q" using quiet counting(1) by (auto simp: quiet_threads_def list_all_iff)
      obtain us vs where ths: "ths = us @ (Counting m, q) # vs" using split [OF counting(1)] by blast
      have "thread_step (map fst ths) (Counting m, l) (Reading m, l)"
        using idle counting(2) by (intro thread_step.read_lock) (fastforce simp: list_all_iff)
      moreover have "list_all (\<lambda>t. \<not> queued_for (to_read (Counting m)) t) (us @ vs)"
        using counting(2) unfolding ths by (auto simp: list_all_iff queued_for_def elim!: to_lock.elims)
      ultimately have "advances ths l (us @ (Reading m, False) # vs) l"
        unfolding ths using q by (intro advances_run [OF quiet [unfolded ths]]) simp_all
      then show ?thesis by blast
    qed
  qed
qed

lemma all_idle: "quiet_threads ths \<Longrightarrow> \<forall>t \<in> set ths. fst t = Idle \<Longrightarrow> ths = replicate (length ths) (Idle, False)"
  by (rule replicate_length_same [symmetric]) (auto simp: quiet_threads_def list_all_iff prod_eq_iff)

text \<open>Callers and counters can always finish.\<close>

lemma quiet_threads_finish:
  "quiet_threads ths \<Longrightarrow> \<exists>l'. rw_step\<^sup>*\<^sup>* (ths, l) (replicate (length ths) (Idle, False), l')"
proof (induction "work_left ths" arbitrary: ths l rule: less_induct)
  case less
  show ?case
  proof (cases "\<exists>t \<in> set ths. fst t \<noteq> Idle")
    case True
    obtain ths' l' where "advances ths l ths' l'" using progress [OF less.prems True] by blast
    then have step: "rw_step (ths, l) (ths', l')" and next_state: "quiet_threads ths'" "work_left ths' < work_left ths" "length ths' = length ths"
      by (simp_all add: advances_def)
    obtain l'' where "rw_step\<^sup>*\<^sup>* (ths', l') (replicate (length ths') (Idle, False), l'')"
      using less.hyps [OF next_state(2,1)] by blast
    then have "rw_step\<^sup>*\<^sup>* (ths, l) (replicate (length ths) (Idle, False), l'')"
      unfolding next_state(3) by (rule converse_rtranclp_into_rtranclp [of rw_step, OF step])
    then show ?thesis by blast
  next
    case False
    then have "ths = replicate (length ths) (Idle, False)" using all_idle [OF less.prems] by blast
    then have "rw_step\<^sup>*\<^sup>* (ths, l) (replicate (length ths) (Idle, False), l)" by simp
    then show ?thesis by blast
  qed
qed

section \<open>The deadlock\<close>

lemma rw_run:
  "thread_step (map fst (us @ (p, q) # vs)) (p, l) (p', l') \<Longrightarrow> (to_lock p \<noteq> None) = q \<Longrightarrow>
     list_all (\<lambda>t. \<not> queued_for (to_read p) t) (us @ vs) \<Longrightarrow>
     rw_step\<^sup>*\<^sup>* (us @ (p, q) # vs, l) (us @ (p', False) # vs, l')"
  by (rule r_into_rtranclp) (rule rw_step.run)

definition rw_deadlocked :: "string \<Rightarrow> thread list \<times> logs" where
  "rw_deadlocked ctx =
     ([(Appended ''New'' [ctx], True), (Taking [] [''New''], False)], (\<lambda>_. [])(''New'' := [[ctx]]), None)"

lemma rw_deadlocked_reachable: "rw_step\<^sup>*\<^sup>* (rw_start 2) (rw_deadlocked ctx)"
proof -
  let ?l = "((\<lambda>_. [])(''New'' := [[ctx]]), None) :: logs"
  let ?none = "(\<lambda>_. [], None) :: logs"
  have s1: "rw_step\<^sup>*\<^sup>* (rw_start 2) ([(Calling ''New'' [ctx], False), (Idle, False)], ?none)"
    using rw_run [of "[]" Idle False "[(Idle, False)]", OF thread_step.call] by (simp add: rw_start_def numeral_2_eq_2)
  have s2: "rw_step\<^sup>*\<^sup>* ([(Calling ''New'' [ctx], False), (Idle, False)], ?none) ([(Calling ''New'' [ctx], True), (Idle, False)], ?none)"
    using r_into_rtranclp [of rw_step, OF rw_step.queue, of "Calling ''New'' [ctx]" "[]" "[(Idle, False)]"] by simp
  have s3: "rw_step\<^sup>*\<^sup>* ([(Calling ''New'' [ctx], True), (Idle, False)], ?none) ([(Locked ''New'' [ctx], False), (Idle, False)], ?none)"
    using rw_run [of "[]" "Calling ''New'' [ctx]" True "[(Idle, False)]", OF thread_step.lock] by simp
  have s4: "rw_step\<^sup>*\<^sup>* ([(Locked ''New'' [ctx], False), (Idle, False)], ?none) ([(Appended ''New'' [ctx], False), (Idle, False)], ?l)"
    using rw_run [of "[]" "Locked ''New'' [ctx]" False "[(Idle, False)]" ?none, OF thread_step.append] by simp
  have s5: "rw_step\<^sup>*\<^sup>* ([(Appended ''New'' [ctx], False), (Idle, False)], ?l)
      ([(Appended ''New'' [ctx], False), (Listing [''New''], False)], ?l)"
    using rw_run [of "[(Appended ''New'' [ctx], False)]" Idle False "[]", OF thread_step.ask_list] by simp
  have s6: "rw_step\<^sup>*\<^sup>* ([(Appended ''New'' [ctx], False), (Listing [''New''], False)], ?l)
      ([(Appended ''New'' [ctx], False), (Taking [] [''New''], False)], ?l)"
    using rw_run [of "[(Appended ''New'' [ctx], False)]" "Listing [''New'']" False "[]", OF thread_step.read_lock_invocations]
    by (simp add: queued_for_def)
  have s7: "rw_step\<^sup>*\<^sup>* ([(Appended ''New'' [ctx], False), (Taking [] [''New''], False)], ?l) (rw_deadlocked ctx)"
    using r_into_rtranclp [of rw_step, OF rw_step.queue, of "Appended ''New'' [ctx]" "[]" "[(Taking [] [''New''], False)]"]
    by (simp add: rw_deadlocked_def)
  show ?thesis
    by (rule rtranclp_trans [OF s1 rtranclp_trans [OF s2 rtranclp_trans [OF s3 rtranclp_trans [OF s4
      rtranclp_trans [OF s5 rtranclp_trans [OF s6 s7]]]]]])
qed

lemma rw_deadlocked_stuck: "\<not> rw_step (rw_deadlocked ctx) s"
  unfolding rw_deadlocked_def by (auto elim!: rw_step.cases simp: Cons_eq_append_conv)

end
