(* ===== verification/IntegrationHelpers.thy ===== *)
theory IntegrationHelpers
  imports Startup
begin

text \<open>
  \<^verbatim>\<open>integration/test_assets/integration_helpers.go\<close>: what the integration tests use to reach a real
  cluster, over the commands they run. The commands, the environment, the file system, the template
  engine, YAML and HTTP are parameters; the JSON decoders of the API objects too, whose fields are
  those of the vendored client-go. A failed \<^verbatim>\<open>Expect\<close> of the test framework ends the test: a panic.
\<close>

section \<open>Commands\<close>

text \<open>A command that is run to its end (\<^verbatim>\<open>Run\<close>, \<^verbatim>\<open>Output\<close>), or whose output is piped: the pipe is made,
  the process \<open>'p\<close> started, its output read and its end waited for.\<close>

record ('p, 's) shell =
  sh_Run :: "string list \<Rightarrow> ('s, unit) act"
  sh_Output :: "string list \<Rightarrow> ('s, string) act"
  sh_StdoutPipe :: "string list \<Rightarrow> ('s, unit) act"
  sh_Start :: "string list \<Rightarrow> ('s, 'p) act"
  sh_Read :: "'p \<Rightarrow> ('s, string) act"
  sh_Wait :: "'p \<Rightarrow> ('s, unit) act"

definition wait_failure :: error where
  "wait_failure = PlainError ''Failure in Wait() when executing external command''"

text \<open>The body most helpers share: the first JSON value a command prints, then its end.\<close>

definition query_json :: "('p, 's) shell \<Rightarrow> (json \<Rightarrow> 'a res) \<Rightarrow> string list \<Rightarrow> ('s, 'a) act" where
  "query_json sh dec cmd =
     and_then (sh_StdoutPipe sh cmd) (\<lambda>_.
     and_then (sh_Start sh cmd) (\<lambda>proc.
     and_then (and_then (sh_Read sh proc) (\<lambda>text. lift_res (json_Decode dec text))) (\<lambda>value.
       catch (sh_Wait sh proc) (\<lambda>_. ret value) (\<lambda>_. fail wait_failure))))"

section \<open>Connecting\<close>

text \<open>\<^verbatim>\<open>strings.Contains\<close>.\<close>

fun Contains :: "string \<Rightarrow> string \<Rightarrow> bool" where
  "Contains [] sub = (sub = [])"
| "Contains (c # cs) sub = (take (length sub) (c # cs) = sub \<or> Contains cs sub)"

definition must_be_set :: "string \<Rightarrow> error" where
  "must_be_set var = PlainError (var @ '' must be set'')"

definition ConnectCluster :: "('p, 's) shell \<Rightarrow> (string \<Rightarrow> string) \<Rightarrow> ('s, unit) act" where
  "ConnectCluster sh Getenv =
     (let bxAPI = Getenv ''BX_API''; bxAPIKey = Getenv ''BX_API_KEY''; clusterName = Getenv ''CLUSTER_NAME'';
          slUsername = Getenv ''SL_USERNAME''; slAPIKey = Getenv ''SL_API_KEY''
      in if bxAPI = [] then fail (must_be_set ''BX_API'')
         else if bxAPIKey = [] then fail (must_be_set ''BX_API_KEY'')
         else if clusterName = [] then fail (must_be_set ''CLUSTER_NAME'')
         else if slUsername = [] then fail (must_be_set ''SL_USERNAME'')
         else if slAPIKey = [] then fail (must_be_set ''SL_API_KEY'')
         else
           and_then (wrap_err ''Logging in to Bluemix CLI''
             (sh_Run sh [''bx'', ''login'', ''-a'', bxAPI, ''--apikey'', bxAPIKey])) (\<lambda>_.
           and_then (wrap_err ''Initializing the IBM Bluemix Container Service plug-in''
             (sh_Run sh [''bx'', ''cs'', ''init''])) (\<lambda>_.
           and_then (wrap_err ''Setting Softlayer Credentials''
             (sh_Run sh [''bx'', ''cs'', ''credentials-set'', ''--infrastructure-username'', slUsername,
                         ''--infrastructure-api-key'', slAPIKey])) (\<lambda>_.
           and_then (wrap_err ''Listing Clusters'' (sh_Output sh [''bx'', ''cs'', ''clusters''])) (\<lambda>listing.
             if \<not> Contains listing clusterName then fail (PlainError (''Cannot find cluster '' @ clusterName))
             else if Getenv ''KUBECONFIG'' = []
             then fail (PlainError ''You must set the KUBECONFIG environment variable before running the tests'')
             else ret ())))))"

section \<open>Paths\<close>

text \<open>\<^verbatim>\<open>filepath.Join\<close>: the non-empty elements with a slash between them, cleaned lexically.\<close>

fun clean_elems :: "bool \<Rightarrow> string list \<Rightarrow> string list \<Rightarrow> string list" where
  "clean_elems rooted [] acc = rev acc"
| "clean_elems rooted (e # es) acc =
     (if e = ''..'' then
        (if acc \<noteq> [] \<and> hd acc \<noteq> ''..'' then clean_elems rooted es (tl acc)
         else if rooted then clean_elems rooted es acc else clean_elems rooted es (e # acc))
      else clean_elems rooted es (e # acc))"

definition path_Clean :: "string \<Rightarrow> string" where
  "path_Clean p =
     (let rooted = (p \<noteq> [] \<and> hd p = CHR ''/'');
          out = Join (clean_elems rooted (filter (\<lambda>e. e \<noteq> [] \<and> e \<noteq> ''.'') (Split p CHR ''/'')) []) ''/''
      in if rooted then CHR ''/'' # out else if out = [] then ''.'' else out)"

definition path_Join :: "string list \<Rightarrow> string" where
  "path_Join elems =
     (let es = filter (\<lambda>e. e \<noteq> []) elems in if es = [] then [] else path_Clean (Join es ''/''))"

section \<open>Running the CPI\<close>

text \<open>\<open>StdinPipe\<close>, \<open>Write\<close> and \<open>Close\<close> come before the process is started.\<close>

record 's piped =
  pi_StdinPipe :: "string list \<Rightarrow> ('s, unit) act"
  pi_Write :: "string \<Rightarrow> ('s, unit) act"
  pi_Close :: "('s, unit) act"
  pi_Output :: "string list \<Rightarrow> ('s, string) act"

definition RunCpi :: "'s piped \<Rightarrow> string \<Rightarrow> string \<Rightarrow> string \<Rightarrow> string \<Rightarrow> ('s, string) act" where
  "RunCpi pd rootCpiPath configPath agentPath jsonPayload =
     (let cmd = [path_Join [rootCpiPath, ''out/cpi''], ''--kubeConfig'', configPath,
                 ''-agentConfig'', path_Join [rootCpiPath, agentPath]]
      in and_then (pi_StdinPipe pd cmd) (\<lambda>_.
         and_then (pi_Write pd jsonPayload) (\<lambda>_.
         and_then (pi_Close pd) (\<lambda>_. pi_Output pd cmd))))"

section \<open>Templates\<close>

record cpiTemplate =
  ct_Context :: string
  ct_DiskID :: string
  ct_AgentID :: string
  ct_Replicas :: string
  ct_StorageClass :: string
  ct_StorageProvisioner :: string

text \<open>The template engine: a template is read from a file and executed on a value.\<close>

record ('t, 'v, 's) templates =
  tp_ParseFiles :: "string \<Rightarrow> string \<Rightarrow> ('s, 't) act"
  tp_Execute :: "'t \<Rightarrow> 'v \<Rightarrow> ('s, string) act"

definition cpi_template :: "smap \<Rightarrow> cpiTemplate" where
  "cpi_template replacementMap =
     (let field = (\<lambda>k. gget_str k (Some replacementMap))
      in \<lparr>ct_Context = field ''context'', ct_DiskID = field ''diskID'', ct_AgentID = field ''agentID'',
          ct_Replicas = field ''replicas'', ct_StorageClass = field ''storageClass'',
          ct_StorageProvisioner = field ''storageProvisioner''\<rparr>)"

definition GenerateCpiJsonPayload :: "('t, cpiTemplate, 's) templates \<Rightarrow> string \<Rightarrow> string \<Rightarrow> smap \<Rightarrow> ('s, string) act" where
  "GenerateCpiJsonPayload tp methodName rootTemplatePath replacementMap =
     (let fname = methodName @ ''.json'';
          methodPath = path_Join [rootTemplatePath, ''integration/test_assets/cpi_methods'', fname]
      in and_then (tp_ParseFiles tp fname methodPath) (\<lambda>t. tp_Execute tp t (cpi_template replacementMap)))"

record KubeConfigTemplate =
  kt_ClusterName :: string
  kt_Cert :: string
  kt_User :: string
  kt_APIServer :: string
  kt_RefreshToken :: string
  kt_Token :: string

record KubeConfigCluster =
  kcc_Name :: string
  kcc_Server :: string
  kcc_CertificateAuthority :: string

record KubeConfigUser =
  kcu_Name :: string
  kcu_ProviderName :: string
  kcu_ClientID :: string
  kcu_ClientSecret :: string
  kcu_IDToken :: string
  kcu_IdpIssuerURL :: string
  kcu_RefreshToken :: string

record KubeConfigContext =
  kcx_Name :: string
  kcx_Cluster :: string
  kcx_User :: string
  kcx_Namespace :: string

record KubeConfig =
  kf_Kind :: string
  kf_APIVersion :: string
  kf_Clusters :: "KubeConfigCluster list"
  kf_Users :: "KubeConfigUser list"
  kf_Contexts :: "KubeConfigContext list"
  kf_CurrentContext :: string

text \<open>The loops over clusters and users keep the fields of the last one.\<close>

definition last_field :: "('a \<Rightarrow> string) \<Rightarrow> 'a list \<Rightarrow> string" where
  "last_field f xs = foldl (\<lambda>_ x. f x) [] xs"

text \<open>\<open>tf_TempFile\<close> makes a file of a new name, \<open>tf_Write\<close> writes to it. \<^verbatim>\<open>yaml.Unmarshal\<close> gives what
  it leaves in the struct: its error is not looked at.\<close>

record 's tempfiles =
  tf_TempFile :: "('s, string) act"
  tf_Write :: "string \<Rightarrow> string \<Rightarrow> ('s, unit) act"

definition kube_template :: "KubeConfig \<Rightarrow> string \<Rightarrow> KubeConfigTemplate" where
  "kube_template conf cert =
     \<lparr>kt_ClusterName = kf_CurrentContext conf, kt_Cert = GoQuote cert, kt_User = [],
      kt_APIServer = last_field kcc_Server (kf_Clusters conf),
      kt_RefreshToken = last_field kcu_RefreshToken (kf_Users conf),
      kt_Token = last_field kcu_IDToken (kf_Users conf)\<rparr>"

definition cert_path :: "(string \<Rightarrow> string) \<Rightarrow> KubeConfig \<Rightarrow> string" where
  "cert_path Getenv conf =
     Getenv ''HOME'' @ ''/.bluemix/plugins/container-service/clusters/'' @ kf_CurrentContext conf @ ''/'' @
     last_field kcc_CertificateAuthority (kf_Clusters conf)"

definition CreateTmpConfigFile ::
    "('t, KubeConfigTemplate, 's) templates \<Rightarrow> 's tempfiles \<Rightarrow> (string \<Rightarrow> ('s, string) act) \<Rightarrow> (string \<Rightarrow> KubeConfig) \<Rightarrow>
     (string \<Rightarrow> string) \<Rightarrow> string \<Rightarrow> string \<Rightarrow> string \<Rightarrow> ('s, string) act" where
  "CreateTmpConfigFile tp tf ReadFile yaml_Unmarshal Getenv rootTemplatePath configPath kubeConfig =
     and_then (ReadFile kubeConfig) (\<lambda>configBytes.
       let conf = yaml_Unmarshal configBytes
       in and_then (ReadFile (cert_path Getenv conf)) (\<lambda>certBytes.
          and_then (tp_ParseFiles tp ''config.json'' (path_Join [rootTemplatePath, configPath])) (\<lambda>t.
          and_then (tf_TempFile tf) (\<lambda>fname.
          and_then (tp_Execute tp t (kube_template conf certBytes)) (\<lambda>out.
          and_then (tf_Write tf fname out) (\<lambda>_. ret fname))))))"

section \<open>Namespaces\<close>

text \<open>\<^verbatim>\<open>Expect(err).NotTo(HaveOccurred())\<close>.\<close>

definition expect_ok :: "('s, 'a) act \<Rightarrow> ('s, 'a) act" where
  "expect_ok m = catch m ret (\<lambda>e. panic (''Expected error not to have occurred: '' @ Error e))"

definition namespaceExists :: "('p, 's) shell \<Rightarrow> (json \<Rightarrow> KubeNamespace list res) \<Rightarrow> string \<Rightarrow> ('s, bool) act" where
  "namespaceExists sh dec ns =
     (let cmd = [''kubectl'', ''get'', ''namespaces'', ''-o'', ''json'']
      in and_then (expect_ok (sh_StdoutPipe sh cmd)) (\<lambda>_.
         and_then (expect_ok (sh_Start sh cmd)) (\<lambda>proc.
         and_then (expect_ok (and_then (sh_Read sh proc) (\<lambda>text. lift_res (json_Decode dec text)))) (\<lambda>items.
         and_then (expect_ok (sh_Wait sh proc)) (\<lambda>_.
           ret (list_ex (\<lambda>n. meta_Name (ns_Meta n) = ns) items))))))"

definition CreateNamespace :: "('p, 's) shell \<Rightarrow> (json \<Rightarrow> KubeNamespace list res) \<Rightarrow> string \<Rightarrow> ('s, unit) act" where
  "CreateNamespace sh dec ns =
     and_then (namespaceExists sh dec ns) (\<lambda>there.
       if \<not> there then and_then (expect_ok (sh_Output sh [''kubectl'', ''create'', ''ns'', ns])) (\<lambda>_. ret ()) else ret ())"

definition DeleteNamespace :: "('p, 's) shell \<Rightarrow> (json \<Rightarrow> KubeNamespace list res) \<Rightarrow> string \<Rightarrow> ('s, unit) act" where
  "DeleteNamespace sh dec ns =
     and_then (namespaceExists sh dec ns) (\<lambda>there.
       if there then best_effort (sh_Run sh [''kubectl'', ''delete'', ''ns'', ns]) else ret ())"

section \<open>Counting and fetching\<close>

definition set_KubeObj :: "string \<Rightarrow> json \<Rightarrow> json list \<Rightarrow> json list res" where
  "set_KubeObj k j items = (if field_is ''Items'' k then dec_list dec_untyped j else Ok items)"

definition Count :: "('p, 's) shell \<Rightarrow> string list \<Rightarrow> ('s, nat) act" where
  "Count sh commandArray =
     (if commandArray = [] then panic index_panic
      else and_then (query_json sh (\<lambda>j. dec_struct set_KubeObj j []) commandArray) (\<lambda>items. ret (length items)))"

definition kubectl_get :: "string \<Rightarrow> string list \<Rightarrow> string list" where
  "kubectl_get namespace what = [''kubectl'', ''-n'', namespace, ''get''] @ what @ [''-o'', ''json'']"

definition PodCount :: "('p, 's) shell \<Rightarrow> string \<Rightarrow> ('s, nat) act" where
  "PodCount sh namespace = Count sh (kubectl_get namespace [''po''])"

definition ServiceCount :: "('p, 's) shell \<Rightarrow> string \<Rightarrow> ('s, nat) act" where
  "ServiceCount sh namespace = Count sh (kubectl_get namespace [''svc''])"

definition SecretCount :: "('p, 's) shell \<Rightarrow> string \<Rightarrow> ('s, nat) act" where
  "SecretCount sh namespace = Count sh (kubectl_get namespace [''secrets''])"

definition IngressCount :: "('p, 's) shell \<Rightarrow> string \<Rightarrow> ('s, nat) act" where
  "IngressCount sh namespace = Count sh (kubectl_get namespace [''ing''])"

fun replicas_of :: "string \<Rightarrow> Deployment list \<Rightarrow> int32 res" where
  "replicas_of vmcid [] = Err (PlainError (''could not find deployment agent-'' @ vmcid))"
| "replicas_of vmcid (d # ds) =
     (if meta_Name (dep_Meta d) = ''agent-'' @ vmcid
      then (case dep_Replicas d of None \<Rightarrow> Panic nil_deref_panic | Some n \<Rightarrow> Ok n)
      else replicas_of vmcid ds)"

definition ReplicaCount :: "('p, 's) shell \<Rightarrow> (json \<Rightarrow> Deployment list res) \<Rightarrow> string \<Rightarrow> string \<Rightarrow> ('s, int32) act" where
  "ReplicaCount sh dec namespace vmcid =
     and_then (query_json sh dec (kubectl_get namespace [''deployments''])) (\<lambda>items. lift_res (replicas_of vmcid items))"

definition GetServiceByName :: "('p, 's) shell \<Rightarrow> (json \<Rightarrow> KubeService res) \<Rightarrow> string \<Rightarrow> string \<Rightarrow> ('s, KubeService) act" where
  "GetServiceByName sh dec namespace serviceName = query_json sh dec (kubectl_get namespace [''svc'', serviceName])"

definition GetSecretByName :: "('p, 's) shell \<Rightarrow> (json \<Rightarrow> KubeSecret res) \<Rightarrow> string \<Rightarrow> string \<Rightarrow> ('s, KubeSecret) act" where
  "GetSecretByName sh dec namespace secretName = query_json sh dec (kubectl_get namespace [''secret'', secretName])"

definition Pvcs :: "('p, 's) shell \<Rightarrow> (json \<Rightarrow> PersistentVolumeClaim list res) \<Rightarrow> string \<Rightarrow> ('s, PersistentVolumeClaim list) act" where
  "Pvcs sh dec namespace = query_json sh dec (kubectl_get namespace [''pvc''])"

definition GetPvcByName ::
    "('p, 's) shell \<Rightarrow> (json \<Rightarrow> PersistentVolumeClaim res) \<Rightarrow> string \<Rightarrow> string \<Rightarrow> ('s, PersistentVolumeClaim) act" where
  "GetPvcByName sh dec pvcName namespace = query_json sh dec (kubectl_get namespace [''pvc'', pvcName])"

definition GetPodByName :: "('p, 's) shell \<Rightarrow> (json \<Rightarrow> Pod res) \<Rightarrow> string \<Rightarrow> string \<Rightarrow> ('s, Pod) act" where
  "GetPodByName sh dec podName namespace = query_json sh dec (kubectl_get namespace [''pod'', podName])"

definition GetPodListByAgentId :: "('p, 's) shell \<Rightarrow> (json \<Rightarrow> Pod list res) \<Rightarrow> string \<Rightarrow> string \<Rightarrow> ('s, Pod list) act" where
  "GetPodListByAgentId sh dec namespace agentId =
     query_json sh dec (kubectl_get namespace [''pods'', ''-l'', ''bosh.cloudfoundry.org/agent-id='' @ agentId])"

definition GetIngressByName :: "('p, 's) shell \<Rightarrow> (json \<Rightarrow> Ingress res) \<Rightarrow> string \<Rightarrow> string \<Rightarrow> ('s, Ingress) act" where
  "GetIngressByName sh dec namespace ingressName = query_json sh dec (kubectl_get namespace [''ing'', ingressName])"

text \<open>\<^verbatim>\<open>http.Get\<close>, of whose response only the status code is used, is a parameter; beside an error
  the code is 500.\<close>

definition GetHTTPStatusCode :: "(string \<Rightarrow> ('s, int) act) \<Rightarrow> string \<Rightarrow> ('s, int \<times> error option) act" where
  "GetHTTPStatusCode http_Get url = catch (http_Get url) (\<lambda>code. ret (code, None)) (\<lambda>e. ret (500, Some e))"

section \<open>What the helpers promise\<close>

lemma Contains_iff: "Contains t sub \<longleftrightarrow> (\<exists>pre post. t = pre @ sub @ post)"
proof (induction t)
  case (Cons c cs)
  have "take (length sub) (c # cs) = sub \<longleftrightarrow> (\<exists>post. c # cs = sub @ post)"
    by (metis append_eq_conv_conj append_take_drop_id)
  then show ?case
    using Cons by (auto simp: Cons_eq_append_conv)
qed auto

lemma last_field_snoc: "last_field f (xs @ [x]) = f x"
  by (simp add: last_field_def)

text \<open>The five variables that are needed before a command runs.\<close>

definition cluster_variables :: "string list" where
  "cluster_variables = [''BX_API'', ''BX_API_KEY'', ''CLUSTER_NAME'', ''SL_USERNAME'', ''SL_API_KEY'']"

lemma ConnectCluster_unset:
  assumes "v \<in> set cluster_variables" and "Getenv v = []"
  shows "\<exists>u \<in> set cluster_variables. Getenv u = [] \<and> ConnectCluster sh Getenv s = (Err (must_be_set u), s)"
  using assms unfolding cluster_variables_def ConnectCluster_def Let_def by auto

lemma ConnectCluster_Ok:
  assumes "ConnectCluster sh Getenv s = (Ok u, s')"
  shows "(\<forall>v \<in> set (''KUBECONFIG'' # cluster_variables). Getenv v \<noteq> []) \<and>
    (\<exists>t listing. sh_Output sh [''bx'', ''cs'', ''clusters''] t = (Ok listing, s') \<and> Contains listing (Getenv ''CLUSTER_NAME''))"
  using assms unfolding cluster_variables_def ConnectCluster_def Let_def
  by (auto simp: act_Ok split: if_splits)

lemma query_json_Ok:
  "query_json sh dec cmd s = (Ok x, s') \<longleftrightarrow>
     (\<exists>s1 proc s2 text s3 u. sh_StdoutPipe sh cmd s = (Ok (), s1) \<and> sh_Start sh cmd s1 = (Ok proc, s2) \<and>
        sh_Read sh proc s2 = (Ok text, s3) \<and> json_Decode dec text = Ok x \<and> sh_Wait sh proc s3 = (Ok u, s'))"
  by (auto simp: query_json_def act_Ok)

text \<open>A command whose output cannot be decoded is not waited for: the process stays.\<close>

lemma query_json_undecodable:
  assumes "sh_StdoutPipe sh cmd s = (Ok u, s1)" and "sh_Start sh cmd s1 = (Ok proc, s2)"
    and "sh_Read sh proc s2 = (Ok text, s3)" and "json_Decode dec text = Err e"
  shows "query_json sh dec cmd s = (Err e, s3)"
  using assms by (simp add: query_json_def act_simps)

lemma replicas_of_find:
  "replicas_of vmcid ds =
     (case find (\<lambda>d. meta_Name (dep_Meta d) = ''agent-'' @ vmcid) ds of
        None \<Rightarrow> Err (PlainError (''could not find deployment agent-'' @ vmcid))
      | Some d \<Rightarrow> (case dep_Replicas d of None \<Rightarrow> Panic nil_deref_panic | Some n \<Rightarrow> Ok n))"
  by (induction ds) auto

lemma expect_ok_Ok: "expect_ok m s = (Ok x, s') \<longleftrightarrow> m s = (Ok x, s')"
  by (auto simp: expect_ok_def catch_Ok)

lemma expect_ok_not_Err: "expect_ok m s \<noteq> (Err e, s')"
  by (auto simp: expect_ok_def catch_def split: prod.splits res.splits)

lemma namespaceExists_Ok:
  assumes "namespaceExists sh dec ns s = (Ok b, s')"
  shows "\<exists>s2 proc text s3 items. sh_Read sh proc s2 = (Ok text, s3) \<and> json_Decode dec text = Ok items \<and>
    b = (ns \<in> (\<lambda>n. meta_Name (ns_Meta n)) ` set items)"
proof -
  obtain items s2 proc out s3 where "sh_Read sh proc s2 = (Ok out, s3)" and "json_Decode dec out = Ok items"
    and "b = list_ex (\<lambda>n. meta_Name (ns_Meta n) = ns) items"
    using assms by (auto simp: namespaceExists_def Let_def act_Ok expect_ok_Ok)
  then show ?thesis
    by (auto simp: list_ex_iff image_iff eq_commute)
qed

lemma namespaceExists_not_Err: "namespaceExists sh dec ns s \<noteq> (Err e, s')"
  by (simp add: namespaceExists_def Let_def act_Err expect_ok_not_Err)

end
