(* ===== verification/RunScenarios.thy ===== *)
theory RunScenarios
  imports Scenarios DiskSize Startup FakeLocks IntegrationHelpers
begin

text \<open>
  Concrete inputs for the properties that span components: an action after another one, and a process
  started on two configuration files with the client of the unit tests behind its loader.
\<close>

lemma run_created_vm: "outcome (HasVM test_provider ''bosh:abc'') (final (create_vm None) no_vm) = Ok True"
  by code_simp

definition kube_text :: string where
  "kube_text = print_json (JObj
     [(''clusters'', JObj [(''c'', JObj [(''server'', JStr ''https://k8s'')])]),
      (''users'', JObj [(''u'', JObj [(''token'', JStr ''t'')])]),
      (''contexts'', JObj [(''bosh'', JObj [(''cluster'', JStr ''c''), (''user'', JStr ''u''),
                                          (''namespace'', JStr ''bosh-namespace'')])]),
      (''current_context'', JStr ''bosh'')])"

definition agent_text :: string where
  "agent_text = print_json (JObj [(''mbus'', JStr ''nats''), (''ntp'', JArr [JStr ''pool''])])"

definition test_os :: "string \<Rightarrow> (string, fake) os" where
  "test_os input = \<lparr>os_Open = (\<lambda>p. if p = ''kube.json'' then ret kube_text else if p = ''agent.json'' then ret agent_text
       else fail (PlainError ''no such file'')),
     os_Read = ret, os_Close = (\<lambda>_. ret ()), os_Stdin = ret input, os_Stdout = (\<lambda>_. ret ()), os_Stderr = (\<lambda>_. ret ())\<rparr>"

definition test_flags :: flags where
  "test_flags = \<lparr>fl_agentConfig = ''agent.json'', fl_kubeConfig = ''kube.json'', fl_debug = False\<rparr>"

definition test_loader :: "(unit, fake) loader" where
  "test_loader = \<lparr>ld_ClientConfig = (\<lambda>_ _. Ok ()), ld_NewForConfig = (\<lambda>_. Ok fake_clientset),
     ld_Namespace = (\<lambda>cfg ctx. case gget ctx (ccf_Contexts cfg) of
        Some x \<Rightarrow> Ok (acx_Namespace x) | None \<Rightarrow> Err (PlainError ''no such context''))\<rparr>"

definition test_libs :: "fake libs" where
  "test_libs = \<lparr>lb_ParseQuantity = test_quantity, lb_ReadFile = test_read, lb_NewV4 = ret ''d3'', lb_Sleep = (\<lambda>_. ret ())\<rparr>"

definition test_kube_conf :: Kubernetes where
  "test_kube_conf =
     \<lparr>kb_Clusters = [(''c'', Some \<lparr>kc_Server = ''https://k8s'', kc_InsecureSkipTLSVerify = False, kc_CertificateAuthorityData = []\<rparr>)],
      kb_AuthInfos = [(''u'', Some \<lparr>au_ClientCertificateData = [], au_ClientKeyData = [], au_Token = ''t'', au_Username = [],
        au_Password = [], au_AuthProvider = [], au_IdpIssuerURL = [], au_ClientSecret = [], au_ClientID = [], au_RefreshToken = []\<rparr>)],
      kb_Contexts = [(''bosh'', Some \<lparr>kx_Cluster = ''c'', kx_AuthInfo = ''u'', kx_Namespace = ''bosh-namespace''\<rparr>)],
      kb_CurrentContext = ''bosh''\<rparr>"

definition test_agent_conf :: AgentConfig where
  "test_agent_conf = \<lparr>ac_Blobstore = None, ac_MessageBus = ''nats'', ac_NTPServers = [''pool'']\<rparr>"

definition test_api_config :: api_Config where
  "test_api_config =
     \<lparr>ccf_Clusters = [(''c'', \<lparr>acl_Server = ''https://k8s'', acl_InsecureSkipTLSVerify = False, acl_CertificateAuthorityData = None\<rparr>)],
      ccf_AuthInfos = [(''u'', \<lparr>aai_ClientCertificateData = None, aai_ClientKeyData = None, aai_Token = ''t'', aai_Username = [],
        aai_Password = [], aai_AuthProvider = None\<rparr>)],
      ccf_Contexts = [(''bosh'', \<lparr>acx_Cluster = ''c'', acx_AuthInfo = ''u'', acx_Namespace = ''bosh-namespace''\<rparr>)],
      ccf_CurrentContext = ''bosh''\<rparr>"

lemma load_test_kube: "loadKubeConfig (test_os input) (fl_kubeConfig test_flags) s = (Ok test_kube_conf, s)"
proof -
  have "json_Decode dec_Kubernetes kube_text = Ok test_kube_conf" by code_simp
  then show ?thesis
    by (simp add: loadKubeConfig_def load_file_result [of _ _ _ kube_text s kube_text s] test_os_def test_flags_def)
qed

lemma load_test_agent: "loadAgentConfig (test_os input) (fl_agentConfig test_flags) s = (Ok test_agent_conf, s)"
proof -
  have "json_Decode dec_Agent agent_text = Ok test_agent_conf" by code_simp
  then show ?thesis
    by (simp add: loadAgentConfig_def load_file_result [of _ _ _ agent_text s agent_text s] test_os_def test_flags_def)
qed

lemma test_client_config: "ClientConfig test_kube_conf = Ok test_api_config"
  by code_simp

lemma has_vm_input: "json_Unmarshal dec_Request (payload ''has_vm'' [JStr ''bosh:abc'']) = Ok (request ''has_vm'' [JStr ''bosh:abc''])"
  by code_simp

section \<open>Calls of the director\<close>

definition create_call :: call where
  "create_call = Call_create_vm ''abc'' ''img'' (vm_props (Some 2)) [(''private'', private_network)] [''bosh:d1'']
     (Some [(''bosh'', JObj [])])"

lemma create_call_ok: "call_ok create_call"
  by code_simp

lemma run_has_vm_call:
  "outcome (run_main test_world (request_text ''director'' (Call_has_vm ''bosh:abc''))) one_vm =
     Ok (print_json (JObj [(''result'', JBool True), (''error'', JNull), (''log'', JStr [])]))"
  by code_simp

section \<open>Disks after a change\<close>

lemma one_vm_disks:
  "disk_consistent Add (fake_view ''bosh-namespace'' one_vm) ''abc'' ''d2''"
  "disk_consistent Remove (fake_view ''bosh-namespace'' one_vm) ''abc'' ''d1''"
  by code_simp+

lemma run_get_disks_attached:
  "outcome (GetDisks test_provider (NewVMCID ''bosh'' ''abc''))
     (final (AttachDisk test_manager (NewVMCID ''bosh'' ''abc'') (NewDiskCID ''bosh'' ''d2'')) one_vm) = Ok [''bosh:d1'', ''bosh:d2'']"
  by code_simp

lemma run_get_disks_detached:
  "outcome (GetDisks test_provider (NewVMCID ''bosh'' ''abc''))
     (final (DetachDisk test_manager (NewVMCID ''bosh'' ''abc'') (NewDiskCID ''bosh'' ''d1'')) one_vm) = Ok []"
  by code_simp

section \<open>Waiting\<close>

lemma one_vm_events:
  "if_Watch (Pods test_client) lo one_vm = (Ok (fk_PodEvents one_vm), one_vm)" "sorted (map fst (fk_PodEvents one_vm))"
  by (simp_all add: test_client_def fake_iface_def kind_defs one_vm_def)

lemma one_vm_disk_events:
  "if_Watch (PersistentVolumeClaims test_client) lo one_vm = (Ok (fk_PVCEvents one_vm), one_vm)"
  "sorted (map fst (fk_PVCEvents one_vm))"
  by (simp_all add: test_client_def fake_iface_def kind_defs one_vm_def)

text \<open>A cluster that binds a new claim only after the minute a disk is waited for.\<close>

definition slow_vm :: fake where
  "slow_vm = one_vm\<lparr>fk_PVCEvents :=
     [(1000, \<lparr>ev_Type = Modified, ev_Object = Obj ((claim_of ''d3'')\<lparr>pvc_Phase := ''Pending''\<rparr>)\<rparr>),
      (90000000000, \<lparr>ev_Type = Modified, ev_Object = Obj (claim_of ''d3'')\<rparr>)]\<rparr>"

lemma slow_vm_ok: "fake_ok slow_vm"
  using one_vm_ok by (simp add: fake_ok_def slow_vm_def)

definition slow_claim :: PersistentVolumeClaim where
  "slow_claim = new_claim (Namespace test_client) ''d3'' disk_props (Quantity ''20Gi'')"

definition slow_created :: fake where
  "slow_created = final (if_Create (PersistentVolumeClaims test_client) slow_claim) slow_vm"

lemma slow_vm_create: "if_Create (PersistentVolumeClaims test_client) slow_claim slow_vm = (Ok slow_claim, slow_created)"
proof -
  have "outcome (if_Create (PersistentVolumeClaims test_client) slow_claim) slow_vm = Ok slow_claim" by code_simp
  then show ?thesis unfolding slow_created_def by (rule outcome_final)
qed

lemma slow_vm_watch:
  "if_Watch (PersistentVolumeClaims test_client) lo slow_created = (Ok (fk_PVCEvents slow_vm), slow_created)"
proof -
  have "fk_PVCEvents slow_created = fk_PVCEvents slow_vm" by code_simp
  then show ?thesis by (simp add: test_client_def fake_iface_def kind_defs)
qed

lemma slow_vm_events:
  "sorted (map fst (fk_PVCEvents slow_vm))"
  "list_all (\<lambda>(arrival, ev). arrival < sint (dc_DiskReadyTimeout test_creator) \<longrightarrow> unbound_change ev) (fk_PVCEvents slow_vm)"
  by code_simp+

section \<open>Arguments that do not fit\<close>

lemma read_has_vm_none: "json_Unmarshal dec_Request (payload ''has_vm'' []) = Ok (request ''has_vm'' [])"
  by code_simp

section \<open>The integration tests' shell\<close>

definition test_shell :: "(unit, nat) shell" where
  "test_shell = \<lparr>sh_Run = (\<lambda>_. ret ()), sh_Output = (\<lambda>_. ret ''name: kube-1''), sh_StdoutPipe = (\<lambda>_. ret ()),
     sh_Start = (\<lambda>_. ret ()), sh_Read = (\<lambda>_. ret []), sh_Wait = (\<lambda>_. ret ())\<rparr>"

definition test_env :: "string \<Rightarrow> string" where
  "test_env var = (if var = ''CLUSTER_NAME'' then ''kube-1'' else ''value'')"

lemma run_connect: "outcome (ConnectCluster test_shell test_env) 0 = Ok ()"
  by code_simp

end
