(* ===== verification/Spec2Isabelle.thy ===== *)
theory Spec2Isabelle
  imports RunScenarios
begin

text \<open>
  A model of the BOSH cloud provider interface for Kubernetes. A director sends one JSON request per
  process on the standard input; \<^verbatim>\<open>cmd/cpi/main.go\<close> chooses the action by the request's method, the
  action reads and writes objects of a cluster through client-go, and the response is printed.

  \<^bold>\<open>Parts and theories\<close>

  \<^item> \<^verbatim>\<open>Prelude\<close>: Go strings, Go maps as association lists (in the order a \<^verbatim>\<open>range\<close> loop visits them).
  \<^item> \<^verbatim>\<open>Errors\<close>: error values (with the wrapping of bosh-utils), outcomes \<open>Ok\<close>, \<open>Err\<close> and \<open>Panic\<close>, and
    operations as functions of the world they run in. \<open>and_then\<close> and \<open>wrap_err\<close> are Go's early return.
  \<^item> \<^verbatim>\<open>Validation\<close>, \<^verbatim>\<open>Labels\<close>: the vendored label validation and the selector parser the actions call
    (\<^verbatim>\<open>pkg/util/validation\<close>, \<^verbatim>\<open>pkg/labels/selector.go\<close>).
  \<^item> \<^verbatim>\<open>Json\<close>, \<^verbatim>\<open>Settings\<close>: JSON text and values, the struct tags of \<^verbatim>\<open>agent/settings.go\<close>,
    \<^verbatim>\<open>cpi/types.go\<close> and \<^verbatim>\<open>config/agent.go\<close>, \<^verbatim>\<open>cpi/remarshal.go\<close>.
  \<^item> \<^verbatim>\<open>Numbers\<close>, \<^verbatim>\<open>Float64\<close>, \<^verbatim>\<open>FloatText\<close>: number literals. An untyped JSON value holds its numbers as 64-bit
    floats: reading one is rounding to the nearest (\<open>float_of_dec\<close>, shown to agree with \<open>nearest_float\<close> over
    the reals), writing one is the shortest text that reads back (\<open>FormatFloat\<close>). What is written reads back
    as the same float, and integers of up to 53 bits come out as they went in.
  \<^item> \<^verbatim>\<open>KubeTypes\<close>, \<^verbatim>\<open>Client\<close>: the API objects and \<^verbatim>\<open>kubecluster/client.go\<close>. A client is a record of
    operations; the locales \<open>resource\<close>, \<open>kube_api\<close> and \<open>provided_api\<close> state what the proofs rely on:
    a successful call has done what the API documents, to its own resource only, and a failed one
    nothing.
  \<^item> \<^verbatim>\<open>Tracker\<close>: the in-memory cluster of the unit tests (\<^verbatim>\<open>kubecluster/fakes/client.go\<close> over client-go's
    object tracker), shown to keep that contract; every locale is interpreted on it.
  \<^item> \<^verbatim>\<open>Config\<close>: \<^verbatim>\<open>config/kubernetes.go\<close> and \<^verbatim>\<open>kubecluster/provider.go\<close>.
  \<^item> \<^verbatim>\<open>CID\<close>, \<^verbatim>\<open>WaitLoop\<close>: \<^verbatim>\<open>actions/util.go\<close> and the \<^verbatim>\<open>select\<close> loops that wait for a watched object: the
    first deciding event that arrives in time gives the result (\<open>wait_loop_find\<close>, \<open>before_timer_sorted\<close>).
  \<^item> \<^verbatim>\<open>FindActions\<close>, \<^verbatim>\<open>DeleteActions\<close>, \<^verbatim>\<open>MetadataActions\<close>, \<^verbatim>\<open>CreateDisk\<close>, \<^verbatim>\<open>VolumeManager\<close>,
    \<^verbatim>\<open>CreateVM\<close>: the files of \<^verbatim>\<open>actions/\<close>, one definition per Go function, and what each promises
    over any lawful client.
  \<^item> \<^verbatim>\<open>Requests\<close>, \<^verbatim>\<open>Dispatch\<close>, \<^verbatim>\<open>Main_CPI\<close>: the JSON form of the arguments, \<^verbatim>\<open>cpi/dispatch.go\<close>,
    \<^verbatim>\<open>cpi/errors.go\<close> and \<^verbatim>\<open>cmd/cpi/main.go\<close> with the actions that need no cluster. Decoding an argument
    never panics, and an action is only called on arguments of its parameters' number and types
    (\<open>Dispatch_cases\<close>).
  \<^item> \<^verbatim>\<open>Encode\<close>, \<^verbatim>\<open>Director\<close>: the other side of the protocol. The fourteen calls of the director are a
    type, \<open>perform\<close> is what each asks for, \<open>request_text\<close> how it is written down. Leaf encoders are shown
    to be read back by the decoders of \<^verbatim>\<open>Requests\<close>, field by field, and the process to refine \<open>perform\<close>. \<^verbatim>\<open>DiskSize\<close> follows a disk size through the untyped
    arguments, for every value of its type.
  \<^item> \<^verbatim>\<open>Startup\<close>: the whole of \<^verbatim>\<open>main\<close>: flags, the two configuration files and their JSON form, debug
    output, standard input and output, around the dispatch of \<^verbatim>\<open>Main_CPI\<close>.
  \<^item> \<^verbatim>\<open>Fakes\<close>: the recording fakes \<^verbatim>\<open>kubecluster/fakes/client_provider.go\<close> and \<^verbatim>\<open>client_context.go\<close>: their
    methods, and their mutexes as a step relation over any number of goroutines. \<^verbatim>\<open>FakeLocks\<close> adds the
    queues of \<^verbatim>\<open>sync.RWMutex\<close>: a simulation carries the invariant over, and a measure shows that callers
    can always finish.
  \<^item> \<^verbatim>\<open>IntegrationHelpers\<close>: \<^verbatim>\<open>integration/test_assets/integration_helpers.go\<close> over the commands it runs.
  \<^item> \<^verbatim>\<open>Scenarios\<close>, \<^verbatim>\<open>RunScenarios\<close>: concrete clusters and runs of the actions, evaluated by the kernel. They witness the
    hypotheses of the properties below.

  \<^bold>\<open>How the state corresponds\<close>

  An action has the type \<open>('s, 'a) act\<close>: \<open>'s\<close> is whatever lies behind the API. A property looks at it
  through \<open>v s\<close>, the record \<open>cluster\<close> of the objects of the client's namespace by kind and name; \<open>ok\<close>
  is the well-formedness of the store. \<open>outcome m s\<close> is what a call returns and \<open>final m s\<close> the
  state it leaves, on every path, errors and panics included.

  \<^bold>\<open>Parameters\<close>

  The calls of client-go, \<^verbatim>\<open>resource.ParseQuantity\<close>, \<^verbatim>\<open>ioutil.ReadFile\<close>, \<^verbatim>\<open>uuid.NewV4\<close>, the clock's
  \<^verbatim>\<open>Sleep\<close> and the configuration loading of clientcmd are arguments of the definitions. A watch
  yields events with the time at which each arrives, counted from the start of the caller's timer;
  \<open>timed_wait\<close> receives those that arrive before the timeout (\<^verbatim>\<open>PodReadyTimeout\<close> and its like, 64-bit
  nanoseconds; \<^verbatim>\<open>main\<close> sets 300 and 600 seconds), and \<open>select_step\<close> has the runs in which \<^verbatim>\<open>select\<close> picks
  another ready branch.

  \<^bold>\<open>Fuel\<close>

  The JSON value parser spends a unit of fuel per nested call. Every parser leaves a shorter text, so
  two units a byte and one more give the result that any larger amount gives (\<open>parse_json_fuel\<close>), for
  every text. The selector parser's loop spends one unit a round; each round consumes a token, and more
  units than tokens change nothing (\<open>Parse_fuel\<close>). A float is written with one more digit at a time until
  the text reads back, at the latest with its exact expansion (\<open>decimal_from\<close>). All other recursion terminates by itself.

  \<^bold>\<open>Not modelled\<close>

  The errors of closing a file and of writing to the standard streams have no effect in the source and
  none here.
  The template engine, YAML, HTTP and the JSON decoders of client-go's types are parameters of the
  integration helpers. \<^verbatim>\<open>PersistentVolumes\<close> is never called by the program. Untyped JSON
  values are kept as the values they are encoded to again, and the text of an error about one that does not
  fit its type names no type. The fields of
  ingress backends, TLS entries and rules are opaque; strings are bytes, and case mapping is ASCII.
\<close>

section \<open>Calls of the director\<close>

text \<open>C1. Each of the fourteen calls, written down by a director with numbers of at most 2 to the 53rd and read by the process, is performed with exactly the values the director gave, and its result or its error is what is printed.\<close>

theorem director_call_runs:
  assumes "call_ok cl"
  shows "run_main wd (request_text uuid cl) = print_answer (answer (zero_result cl) (perform wd cl))"
  using assms by (rule run_main_call)

theorem director_call_runs_witness:
  "run_main test_world (request_text ''director'' create_call) =
    print_answer (answer (zero_result create_call) (perform test_world create_call))"
  by (rule director_call_runs [OF create_call_ok])

text \<open>C2. A process that ends normally has performed the director's call, and parsing its output gives the result, or the error's message beside the zero result.\<close>

theorem director_reads_answer:
  assumes "call_ok cl" and "outcome (run_main wd (request_text uuid cl)) s = Ok out"
  shows "final (run_main wd (request_text uuid cl)) s = final (perform wd cl) s \<and>
    (case outcome (perform wd cl) s of
       Ok j \<Rightarrow> parse_json out = Some (JObj [(''result'', j), (''error'', JNull), (''log'', JStr [])])
     | Err e \<Rightarrow> parse_json out = Some (JObj [(''result'', zero_result cl),
         (''error'', JObj [(''type'', JStr []), (''message'', JStr (Error e)), (''ok_to_retry'', JBool False)]),
         (''log'', JStr [])])
     | Panic p \<Rightarrow> False)"
  using call_answered [OF assms(1) outcome_final [OF assms(2)]] by (auto simp: outcome_def final_def)

theorem director_reads_answer_witness:
  "final (run_main test_world (request_text ''director'' (Call_has_vm ''bosh:abc''))) one_vm = final (perform test_world (Call_has_vm ''bosh:abc'')) one_vm \<and>
    (case outcome (perform test_world (Call_has_vm ''bosh:abc'')) one_vm of
       Ok j \<Rightarrow> parse_json (print_json (JObj [(''result'', JBool True), (''error'', JNull), (''log'', JStr [])])) =
         Some (JObj [(''result'', j), (''error'', JNull), (''log'', JStr [])])
     | Err e \<Rightarrow> parse_json (print_json (JObj [(''result'', JBool True), (''error'', JNull), (''log'', JStr [])])) =
         Some (JObj [(''result'', zero_result (Call_has_vm ''bosh:abc'')),
           (''error'', JObj [(''type'', JStr []), (''message'', JStr (Error e)), (''ok_to_retry'', JBool False)]),
           (''log'', JStr [])])
     | Panic p \<Rightarrow> False)"
  by (rule director_reads_answer [OF _ run_has_vm_call]) simp

text \<open>C3. A disk of any size the director can ask for is created with a size at most 2048 off, since the request's numbers pass through 64-bit floats, unless the size is beyond 2 to the 53rd and no longer fits: then the process panics.\<close>

theorem disk_size_received:
  "case received_size sz of
     Some m \<Rightarrow> run_main wd (request_text uuid (Call_create_disk sz p vmcid)) =
         print_answer (answer (JStr []) (perform wd (Call_create_disk m p vmcid))) \<and>
       \<bar>int (unat m) - int (unat sz)\<bar> \<le> 2 ^ 11
   | None \<Rightarrow> run_main wd (request_text uuid (Call_create_disk sz p vmcid)) = panic (Error size_error) \<and> 2 ^ 53 < unat sz"
  using run_sized_disk [of wd uuid sz p vmcid] received_size_near [of sz] received_size_small [of sz]
  by (cases "unat sz \<le> 2 ^ 53") (auto split: option.split)

text \<open>C4. A size just above 2 to the 53rd is rounded, and the largest size is refused by a panic although its type admits it.\<close>

theorem disk_size_lost:
  "run_main wd (request_text uuid (Call_create_disk 9007199254740993 p vmcid)) =
     print_answer (answer (JStr []) (perform wd (Call_create_disk 9007199254740992 p vmcid))) \<and>
   run_main wd (request_text uuid (Call_create_disk 18446744073709551615 p vmcid)) = panic (Error size_error)"
  by (simp only: run_sized_disk received_size_rounded received_size_too_large option.simps)

section \<open>Volumes\<close>

text \<open>C5. A disk attach that succeeds leaves the agent's stored settings with the disk's mount point under its CID and every other disk as it was.\<close>

theorem attach_records_disk:
  assumes "volume_api c ok v P ctx vm" and "ok s" and "IsValidLabelValue agentID = []"
    and "outcome (AttachDisk vm (NewVMCID ctx agentID) (NewDiskCID ctx diskID)) s = Ok u"
  shows "\<exists>m. persistent_disks (v s) agentID = Some m \<and>
    persistent_disks (v (final (AttachDisk vm (NewVMCID ctx agentID) (NewDiskCID ctx diskID)) s)) agentID =
      Some (m(NewDiskCID ctx diskID \<mapsto> ''/mnt/'' @ diskID))"
  using volume_api.AttachDisk_Ok [OF assms(1-3) outcome_final [OF assms(4)]] by simp

theorem attach_records_disk_witness:
  "\<exists>m. persistent_disks (fake_view ''bosh-namespace'' one_vm) ''abc'' = Some m \<and>
    persistent_disks (fake_view ''bosh-namespace'' (final (AttachDisk test_manager (NewVMCID ''bosh'' ''abc'') (NewDiskCID ''bosh'' ''d2'')) one_vm)) ''abc'' =
      Some (m(NewDiskCID ''bosh'' ''d2'' \<mapsto> ''/mnt/'' @ ''d2''))"
  by (rule attach_records_disk [OF test_volumes.volume_api_axioms one_vm_ok valid_ids(1) run_attach])

text \<open>C6. A disk detach that succeeds removes exactly the disk's entry from the agent's stored settings.\<close>

theorem detach_forgets_disk:
  assumes "volume_api c ok v P ctx vm" and "ok s" and "IsValidLabelValue agentID = []"
    and "outcome (DetachDisk vm (NewVMCID ctx agentID) (NewDiskCID ctx diskID)) s = Ok u"
  shows "\<exists>m. persistent_disks (v s) agentID = Some m \<and>
    persistent_disks (v (final (DetachDisk vm (NewVMCID ctx agentID) (NewDiskCID ctx diskID)) s)) agentID =
      Some (m(NewDiskCID ctx diskID := None))"
  using volume_api.DetachDisk_Ok [OF assms(1-3) outcome_final [OF assms(4)]] by simp

theorem detach_forgets_disk_witness:
  "\<exists>m. persistent_disks (fake_view ''bosh-namespace'' one_vm) ''abc'' = Some m \<and>
    persistent_disks (fake_view ''bosh-namespace'' (final (DetachDisk test_manager (NewVMCID ''bosh'' ''abc'') (NewDiskCID ''bosh'' ''d1'')) one_vm)) ''abc'' =
      Some (m(NewDiskCID ''bosh'' ''d1'' := None))"
  by (rule detach_forgets_disk [OF test_volumes.volume_api_axioms one_vm_ok valid_ids(1) run_detach])

text \<open>C7. After an attach that succeeds, the query for the VM's disks that answers reports the disks from before and then the new one, when the disk's claim carries its id.\<close>

theorem get_disks_after_attach:
  assumes "volume_api c ok v P ctx vm" and "ok s" and "IsValidLabelValue agentID = []" and "claims_named (v s)"
    and "disk_consistent Add (v s) agentID diskID"
    and "outcome (AttachDisk vm (NewVMCID ctx agentID) (NewDiskCID ctx diskID)) s = Ok u"
    and "outcome (GetDisks P (NewVMCID ctx agentID))
      (final (AttachDisk vm (NewVMCID ctx agentID) (NewDiskCID ctx diskID)) s) = Ok ds"
  shows "ds = map (NewDiskCID ctx) (attached_disks (v s) agentID @ [diskID])"
  using volume_api.GetDisks_after_attach [OF assms(1-5) outcome_final [OF assms(6)] outcome_final [OF assms(7)]] .

theorem get_disks_after_attach_witness:
  "[''bosh:d1'', ''bosh:d2''] = map (NewDiskCID ''bosh'') (attached_disks (fake_view ''bosh-namespace'' one_vm) ''abc'' @ [''d2''])"
  by (rule get_disks_after_attach [OF test_volumes.volume_api_axioms one_vm_ok valid_ids(1) one_vm_claims one_vm_disks(1)
        run_attach run_get_disks_attached])

text \<open>C8. After a detach that succeeds, the query for the VM's disks that answers reports the disks from before without the one detached, when the disk's volume is the one named after it.\<close>

theorem get_disks_after_detach:
  assumes "volume_api c ok v P ctx vm" and "ok s" and "IsValidLabelValue agentID = []" and "claims_named (v s)"
    and "disk_consistent Remove (v s) agentID diskID"
    and "outcome (DetachDisk vm (NewVMCID ctx agentID) (NewDiskCID ctx diskID)) s = Ok u"
    and "outcome (GetDisks P (NewVMCID ctx agentID))
      (final (DetachDisk vm (NewVMCID ctx agentID) (NewDiskCID ctx diskID)) s) = Ok ds"
  shows "ds = map (NewDiskCID ctx) (remove1 diskID (attached_disks (v s) agentID))"
  using volume_api.GetDisks_after_detach [OF assms(1-5) outcome_final [OF assms(6)] outcome_final [OF assms(7)]] .

theorem get_disks_after_detach_witness:
  "[] = map (NewDiskCID ''bosh'') (remove1 ''d1'' (attached_disks (fake_view ''bosh-namespace'' one_vm) ''abc''))"
  by (rule get_disks_after_detach [OF test_volumes.volume_api_axioms one_vm_ok valid_ids(1) one_vm_claims one_vm_disks(2)
        run_detach run_get_disks_detached])

text \<open>C9. Whatever an attach returns, the cluster is in one of four states: untouched, the config map rewritten, the config map rewritten and the pod lost, or both replaced. The step named in the error says which, only the last one can be a success, and the VM has lost its pod exactly when creating it anew failed.\<close>

theorem attach_stages:
  assumes "volume_api c ok v P ctx vm" and "ok s" and "IsValidLabelValue agentID = []"
  shows "\<exists>r. outcome (AttachDisk vm (NewVMCID ctx agentID) (NewDiskCID ctx diskID)) s =
      res_wrap ''Recreating pod to attach disk'' r \<and>
    recreate_outcome c Add agentID diskID (v s) r
      (v (final (AttachDisk vm (NewVMCID ctx agentID) (NewDiskCID ctx diskID)) s)) \<and>
    (vw_Pods (v s) (''agent-'' @ agentID) \<noteq> None \<longrightarrow>
      (vw_Pods (v (final (AttachDisk vm (NewVMCID ctx agentID) (NewDiskCID ctx diskID)) s)) (''agent-'' @ agentID) = None \<longleftrightarrow>
       (\<exists>e. r = Err (WrapError e ''Recreating pod''))))"
  using volume_api.AttachDisk_result [OF assms run_pair [of "AttachDisk vm (NewVMCID ctx agentID) (NewDiskCID ctx diskID)"]]
    recreate_outcome_pod by blast

theorem attach_stages_witness:
  "\<exists>r. outcome (AttachDisk test_manager (NewVMCID ''bosh'' ''abc'') (NewDiskCID ''bosh'' ''d2'')) one_vm =
      res_wrap ''Recreating pod to attach disk'' r \<and>
    recreate_outcome test_client Add ''abc'' ''d2'' (fake_view ''bosh-namespace'' one_vm) r
      (fake_view ''bosh-namespace'' (final (AttachDisk test_manager (NewVMCID ''bosh'' ''abc'') (NewDiskCID ''bosh'' ''d2'')) one_vm)) \<and>
    (vw_Pods (fake_view ''bosh-namespace'' one_vm) (''agent-'' @ ''abc'') \<noteq> None \<longrightarrow>
      (vw_Pods (fake_view ''bosh-namespace'' (final (AttachDisk test_manager (NewVMCID ''bosh'' ''abc'') (NewDiskCID ''bosh'' ''d2'')) one_vm)) (''agent-'' @ ''abc'') = None \<longleftrightarrow>
       (\<exists>e. r = Err (WrapError e ''Recreating pod''))))"
  by (rule attach_stages [OF test_volumes.volume_api_axioms one_vm_ok valid_ids(1)])

text \<open>C10. Whatever a detach returns, nothing but the agent's own config map and pod has changed.\<close>

theorem detach_frame:
  assumes "volume_api c ok v P ctx vm" and "ok s" and "IsValidLabelValue agentID = []"
  shows "same_but_agent agentID (v s) (v (final (DetachDisk vm (NewVMCID ctx agentID) (NewDiskCID ctx diskID)) s))"
  using volume_api.DetachDisk_result [OF assms run_pair [of "DetachDisk vm (NewVMCID ctx agentID) (NewDiskCID ctx diskID)"]] recreate_outcome_frame by blast

theorem detach_frame_witness:
  "same_but_agent ''abc'' (fake_view ''bosh-namespace'' one_vm)
     (fake_view ''bosh-namespace'' (final (DetachDisk test_manager (NewVMCID ''bosh'' ''abc'') (NewDiskCID ''bosh'' ''d1'')) one_vm))"
  by (rule detach_frame [OF test_volumes.volume_api_axioms one_vm_ok valid_ids(1)])

text \<open>C11. Removing the volume that was just added gives the pod's specification back, when the disk was not in it.\<close>

theorem remove_undoes_add:
  assumes "\<not> disk_mounted spec diskID"
  shows "removeVolume (addVolume spec diskID) diskID = spec"
  using assms by (rule removeVolume_addVolume)

theorem remove_undoes_add_witness:
  "removeVolume (addVolume (pod_Spec vm_pod) ''d2'') ''d2'' = pod_Spec vm_pod"
  by (rule remove_undoes_add) code_simp

section \<open>Virtual machines\<close>

text \<open>C12. Deleting a VM removes its pod, its config map and the services that carry its agent id, and changes nothing else.\<close>

theorem delete_vm_effect:
  assumes "provided_api c ok v P ctx" and "ok s" and "IsValidLabelValue agentID = []"
    and "outcome (DeleteVM P (NewVMCID ctx agentID)) s = Ok u"
  shows "v (final (DeleteVM P (NewVMCID ctx agentID)) s) = vm_deleted agentID (v s)"
  using provided_api.DeleteVM_Ok [OF assms(1-3) outcome_final [OF assms(4)]] by simp

theorem delete_vm_effect_witness:
  "fake_view ''bosh-namespace'' (final (DeleteVM test_provider (NewVMCID ''bosh'' ''abc'')) one_vm) = vm_deleted ''abc'' (fake_view ''bosh-namespace'' one_vm)"
  by (rule delete_vm_effect [OF test_cpi.provided_api_axioms one_vm_ok valid_ids(1) run_delete_vm])

text \<open>C13. Whatever the outcome, deleting a VM leaves every claim, secret, deployment, ingress and namespace as it was: objects of these kinds that belong to the VM stay behind.\<close>

theorem delete_vm_frame:
  assumes "provided_api c ok v P ctx" and "ok s"
  shows "vm_footprint_cleared (v (final (DeleteVM P (NewVMCID ctx agentID)) s)) = vm_footprint_cleared (v s)"
  by (rule provided_api.DeleteVM_frame_final [OF assms])

theorem delete_vm_frame_witness:
  "vm_footprint_cleared (fake_view ''bosh-namespace'' (final (DeleteVM test_provider (NewVMCID ''bosh'' ''abc'')) one_vm)) = vm_footprint_cleared (fake_view ''bosh-namespace'' one_vm)"
  by (rule delete_vm_frame [OF test_cpi.provided_api_axioms one_vm_ok])

text \<open>C14. Whatever the outcome, creating a VM never changes or removes an object that was there before.\<close>

theorem create_vm_only_adds:
  assumes "provided_api c ok v P ctx" and "ok s" and "vmc_ClientProvider vmc = P" and "cp_Context cloudProps = ctx"
    and "names_given cloudProps" and "file_reader ReadFile"
  shows "cluster_le (v s) (v (final (CreateVM ParseQuantity ReadFile vmc agentID stemcellCID cloudProps networks diskCIDs env) s))"
  using provided_api.CreateVM_grows_final [OF assms] by simp

theorem create_vm_only_adds_witness:
  "cluster_le (fake_view ''bosh-namespace'' no_vm)
     (fake_view ''bosh-namespace'' (final (CreateVM test_quantity test_read test_vmc ''abc'' ''img'' (vm_props None) [(''private'', private_network)] [] (Some [(''bosh'', JObj [])])) no_vm))"
  by (rule create_vm_only_adds [OF test_cpi.provided_api_axioms no_vm_ok _ _ vm_props_named test_read_reader])
    (simp_all add: test_vmc_def vm_props_def)

text \<open>C15. A VM that is created without replicas has the CID of its context and agent id, its pod did not exist before, and afterwards a pod carries its agent id.\<close>

theorem create_vm_pod:
  assumes "provided_api c ok v P ctx" and "ok s" and "vmc_ClientProvider vmc = P" and "cp_Context cloudProps = ctx"
    and "names_given cloudProps" and "file_reader ReadFile" and "cp_Replicas cloudProps = None"
    and "outcome (CreateVM ParseQuantity ReadFile vmc agentID stemcellCID cloudProps networks diskCIDs env) s = Ok cid"
  shows "cid = NewVMCID ctx agentID \<and> vw_Pods (v s) (''agent-'' @ agentID) = None \<and>
    pod_exists (v (final (CreateVM ParseQuantity ReadFile vmc agentID stemcellCID cloudProps networks diskCIDs env) s)) agentID"
  using provided_api.CreateVM_Ok(1,4) [OF assms(1-6) outcome_final [OF assms(8)]] assms(7) by simp

theorem create_vm_pod_witness:
  "''bosh:abc'' = NewVMCID ''bosh'' ''abc'' \<and> vw_Pods (fake_view ''bosh-namespace'' no_vm) (''agent-'' @ ''abc'') = None \<and>
    pod_exists (fake_view ''bosh-namespace'' (final (CreateVM test_quantity test_read test_vmc ''abc'' ''img'' (vm_props None) [(''private'', private_network)] [] (Some [(''bosh'', JObj [])])) no_vm)) ''abc''"
  by (rule create_vm_pod [OF test_cpi.provided_api_axioms no_vm_ok _ _ vm_props_named test_read_reader _
        run_create_vm [unfolded create_vm_def]])
    (simp_all add: test_vmc_def vm_props_def)

text \<open>C16. A VM created without replicas is found by the next query for its CID, if that query answers.\<close>

theorem created_vm_is_found:
  assumes "provided_api c ok v P ctx" and "ok s" and "vmc_ClientProvider vmc = P" and "cp_Context cloudProps = ctx"
    and "names_given cloudProps" and "file_reader ReadFile" and "cp_Replicas cloudProps = None"
    and "IsValidLabelValue agentID = []"
    and "outcome (CreateVM ParseQuantity ReadFile vmc agentID stemcellCID cloudProps networks diskCIDs env) s = Ok cid"
    and "outcome (HasVM P cid)
      (final (CreateVM ParseQuantity ReadFile vmc agentID stemcellCID cloudProps networks diskCIDs env) s) = Ok b"
  shows "outcome (HasVM P cid) (final (CreateVM ParseQuantity ReadFile vmc agentID stemcellCID cloudProps networks diskCIDs env) s) = Ok True \<and>
    final (HasVM P cid) (final (CreateVM ParseQuantity ReadFile vmc agentID stemcellCID cloudProps networks diskCIDs env) s) =
      final (CreateVM ParseQuantity ReadFile vmc agentID stemcellCID cloudProps networks diskCIDs env) s"
proof -
  let ?s = "final (CreateVM ParseQuantity ReadFile vmc agentID stemcellCID cloudProps networks diskCIDs env) s"
  have ok: "ok ?s"
    using provided_api.CreateVM_grows_final [OF assms(1-6)] by simp
  have cid: "cid = NewVMCID ctx agentID" and found: "pod_exists (v ?s) agentID"
    using provided_api.CreateVM_Ok(1,4) [OF assms(1-6) outcome_final [OF assms(9)]] assms(7) by simp_all
  have "final (HasVM P cid) ?s = ?s \<and> (b \<longleftrightarrow> pod_exists (v ?s) agentID)"
    by (rule provided_api.HasVM_iff [OF assms(1) ok assms(8)]) (use outcome_final [OF assms(10)] cid in simp)
  with found show ?thesis using assms(10) by simp
qed

theorem created_vm_is_found_witness:
  "outcome (HasVM test_provider ''bosh:abc'') (final (CreateVM test_quantity test_read test_vmc ''abc'' ''img'' (vm_props None) [(''private'', private_network)] [] (Some [(''bosh'', JObj [])])) no_vm) = Ok True \<and>
    final (HasVM test_provider ''bosh:abc'') (final (CreateVM test_quantity test_read test_vmc ''abc'' ''img'' (vm_props None) [(''private'', private_network)] [] (Some [(''bosh'', JObj [])])) no_vm) =
      final (CreateVM test_quantity test_read test_vmc ''abc'' ''img'' (vm_props None) [(''private'', private_network)] [] (Some [(''bosh'', JObj [])])) no_vm"
  by (rule created_vm_is_found [OF test_cpi.provided_api_axioms no_vm_ok _ _ vm_props_named test_read_reader _ valid_ids(1)
        run_create_vm [unfolded create_vm_def] run_created_vm [unfolded create_vm_def]])
    (simp_all add: test_vmc_def vm_props_def)

text \<open>C17. After a VM is created its agent reads from the config map its own id, no disks, and the one network of the request, marked preconfigured.\<close>

theorem create_vm_settings:
  assumes "provided_api c ok v P ctx" and "ok s" and "vmc_ClientProvider vmc = P" and "cp_Context cloudProps = ctx"
    and "names_given cloudProps" and "file_reader ReadFile" and "network_ok nw" and "env_ok env"
    and "any_ok (ac_Blobstore (vmc_AgentConfig vmc))"
    and "outcome (CreateVM ParseQuantity ReadFile vmc agentID stemcellCID cloudProps [(name, nw)] diskCIDs env) s = Ok cid"
  shows "\<exists>st. vm_settings (v (final (CreateVM ParseQuantity ReadFile vmc agentID stemcellCID cloudProps
        [(name, nw)] diskCIDs env) s)) agentID = Some st \<and>
      st_AgentID st = agentID \<and> st_Networks st = Some [(name, agent_view nw)] \<and> Persistent (st_Disks st) = None"
proof -
  let ?m = "CreateVM ParseQuantity ReadFile vmc agentID stemcellCID cloudProps [(name, nw)] diskCIDs env"
  obtain st where st: "InstanceSettings vmc agentID [(name, nw)] env = Ok st"
    and stored: "Settings_ok st \<Longrightarrow> vm_settings (v (final ?m s)) agentID = Some (norm_Settings st)"
    using provided_api.CreateVM_Ok(3) [OF assms(1-6) outcome_final [OF assms(10)]] by blast
  have "Settings_ok st" using InstanceSettings_ok [OF assms(7-9) st] .
  with stored st show ?thesis
    by (auto simp: InstanceSettings_single [OF assms(7)] norm_Settings_def norm_map_def empty_map_def)
qed

theorem create_vm_settings_witness:
  "\<exists>st. vm_settings (fake_view ''bosh-namespace'' (final (CreateVM test_quantity test_read test_vmc ''abc'' ''img'' (vm_props None) [(''private'', private_network)] [] (Some [(''bosh'', JObj [])])) no_vm)) ''abc'' = Some st \<and>
      st_AgentID st = ''abc'' \<and> st_Networks st = Some [(''private'', agent_view private_network)] \<and>
      Persistent (st_Disks st) = None"
  by (rule create_vm_settings [OF test_cpi.provided_api_axioms no_vm_ok _ _ vm_props_named test_read_reader
        private_network_ok some_env_ok test_vmc_blobstore run_create_vm [unfolded create_vm_def]])
    (simp_all add: test_vmc_def vm_props_def)

text \<open>C18. A VM created with replicas leaves its deployment in the cluster when it is deleted.\<close>

theorem create_delete_leaks_deployment:
  assumes "provided_api c ok v P ctx" and "ok s" and "vmc_ClientProvider vmc = P" and "cp_Context cloudProps = ctx"
    and "names_given cloudProps" and "file_reader ReadFile" and "cp_Replicas cloudProps = Some n"
    and "outcome (CreateVM ParseQuantity ReadFile vmc agentID stemcellCID cloudProps networks diskCIDs env) s = Ok cid"
  shows "vw_Deployments (v (final (DeleteVM P cid)
      (final (CreateVM ParseQuantity ReadFile vmc agentID stemcellCID cloudProps networks diskCIDs env) s)))
    (''agent-'' @ agentID) \<noteq> None"
proof -
  let ?s = "final (CreateVM ParseQuantity ReadFile vmc agentID stemcellCID cloudProps networks diskCIDs env) s"
  note run = outcome_final [OF assms(8)]
  have "ok ?s"
    using provided_api.CreateVM_grows_final [OF assms(1-6)] by simp
  then have "vm_footprint_cleared (v (final (DeleteVM P (NewVMCID ctx agentID)) ?s)) = vm_footprint_cleared (v ?s)"
    by (rule provided_api.DeleteVM_frame_final [OF assms(1)])
  then have "vw_Deployments (v (final (DeleteVM P (NewVMCID ctx agentID)) ?s)) = vw_Deployments (v ?s)"
    using vw_Deployments_cleared by metis
  then show ?thesis
    using provided_api.CreateVM_Ok(1,5) [OF assms(1-6) run] assms(7) by simp
qed

theorem create_delete_leaks_deployment_witness:
  "vw_Deployments (fake_view ''bosh-namespace'' (final (DeleteVM test_provider ''bosh:abc'')
      (final (CreateVM test_quantity test_read test_vmc ''abc'' ''img'' (vm_props (Some 2)) [(''private'', private_network)] [] (Some [(''bosh'', JObj [])])) no_vm)))
    (''agent-'' @ ''abc'') \<noteq> None"
  by (rule create_delete_leaks_deployment [where n = 2, OF test_cpi.provided_api_axioms no_vm_ok _ _ vm_props_named test_read_reader _
        run_create_deployment [unfolded create_vm_def]])
    (simp_all add: test_vmc_def vm_props_def)

text \<open>C19. When it answers, the query for a VM says whether a pod with the agent's id exists, and changes nothing.\<close>

theorem has_vm_correct:
  assumes "provided_api c ok v P ctx" and "ok s" and "IsValidLabelValue agentID = []"
    and "outcome (HasVM P (NewVMCID ctx agentID)) s = Ok b"
  shows "(b \<longleftrightarrow> pod_exists (v s) agentID) \<and> final (HasVM P (NewVMCID ctx agentID)) s = s"
  using provided_api.HasVM_iff [OF assms(1-3) outcome_final [OF assms(4)]] by simp

theorem has_vm_correct_witness:
  "(True \<longleftrightarrow> pod_exists (fake_view ''bosh-namespace'' one_vm) ''abc'') \<and> final (HasVM test_provider (NewVMCID ''bosh'' ''abc'')) one_vm = one_vm"
  by (rule has_vm_correct [OF test_cpi.provided_api_axioms one_vm_ok valid_ids(1) run_has_vm])

text \<open>C20. Setting a VM's metadata sends one patch whose application to the pod's labels overrides them with exactly the entries that are valid labels, later entries winning.\<close>

theorem set_vm_metadata_patch:
  assumes "provided_api c ok v P ctx" and "if_Get (Pods c) (''agent-'' @ agentID) s = (Ok pod, s)"
    and "meta_Labels (pod_Meta pod) = Some m" and "gomap_ok m"
  shows "\<exists>patch. SetVMMetadata P (NewVMCID ctx agentID) metadata s =
      and_then (wrap_err ''Patching pod'' (if_Patch (Pods c) (meta_Name (pod_Meta pod)) patch)) (\<lambda>_. ret ()) s \<and>
    apply_label_patch patch m = map_of m ++ map_of (rev (vm_entries metadata))"
  using provided_api.SetVMMetadata_request [OF assms(1-3)] apply_label_diff [OF assms(4)] assms(4)
  by (metis gomap_ok_put_all map_of_put_all)

theorem set_vm_metadata_patch_witness:
  "\<exists>patch. SetVMMetadata test_provider (NewVMCID ''bosh'' ''abc'') good_metadata one_vm =
      and_then (wrap_err ''Patching pod'' (if_Patch (Pods test_client) (meta_Name (pod_Meta vm_pod)) patch)) (\<lambda>_. ret ()) one_vm \<and>
    apply_label_patch patch [(agent_id_key, ''abc'')] =
      map_of [(agent_id_key, ''abc'')] ++ map_of (rev (vm_entries good_metadata))"
  by (rule set_vm_metadata_patch [OF test_cpi.provided_api_axioms get_vm_pod])
    (simp_all add: vm_pod_def meta_of_def gomap_ok_def)

text \<open>C21. Setting valid metadata on a pod without labels panics.\<close>

theorem set_vm_metadata_nil_labels:
  assumes "provided_api c ok v P ctx" and "if_Get (Pods c) (''agent-'' @ agentID) s = (Ok pod, s)"
    and "meta_Labels (pod_Meta pod) = None" and "vm_entries metadata \<noteq> []"
  shows "outcome (SetVMMetadata P (NewVMCID ctx agentID) metadata) s = Panic nil_map_panic"
  using provided_api.SetVMMetadata_nil_labels [OF assms] by (simp add: outcome_def)

theorem set_vm_metadata_nil_labels_witness:
  "outcome (SetVMMetadata test_provider (NewVMCID ''bosh'' ''abc'') good_metadata) nil_vm = Panic nil_map_panic"
  by (rule set_vm_metadata_nil_labels [OF test_cpi.provided_api_axioms get_nil_pod _ good_entries]) simp

section \<open>Disks\<close>

text \<open>C22. The disks of a VM are the CIDs of the labelled claims its pod mounts, in the order of its volumes; a VM without a pod has none.\<close>

theorem get_disks_correct:
  assumes "provided_api c ok v P ctx" and "ok s" and "claims_named (v s)"
    and "outcome (GetDisks P (NewVMCID ctx agentID)) s = Ok ds"
  shows "ds = map (NewDiskCID ctx) (attached_disks (v s) agentID)"
  using provided_api.GetDisks_Ok [OF assms(1-3) outcome_final [OF assms(4)]] by simp

theorem get_disks_correct_witness:
  "[''bosh:d1''] = map (NewDiskCID ''bosh'') (attached_disks (fake_view ''bosh-namespace'' one_vm) ''abc'')"
  by (rule get_disks_correct [OF test_cpi.provided_api_axioms one_vm_ok one_vm_claims run_get_disks])

text \<open>C23. Creating a disk fails before it has changed anything, for its size or for the creation of its claim, or the claim labelled with the new id is added and nothing else is changed. In that case the call gives the disk's CID or the error of the wait, and even then the claim stays.\<close>

theorem create_disk_adds_claim:
  assumes "provided_api c ok v P ctx" and "ok s" and "dc_ClientProvider d = P" and "cd_Context cloudProps = ctx"
    and "quiet ok v (dc_GUIDGeneratorFunc d)" and "outcome (dc_GUIDGeneratorFunc d) s = Ok diskID"
    and "\<forall>t p. ParseQuantity t \<noteq> Panic p" and "IsValidLabelValue diskID = []"
  shows "(\<exists>e msg. msg \<in> {''Parsing quantity'', ''Creating PVC''} \<and>
      outcome (CreateDisk ParseQuantity d sz cloudProps vmcid) s = Err (WrapError e msg) \<and>
      v (final (CreateDisk ParseQuantity d sz cloudProps vmcid) s) = v s) \<or>
    (outcome (CreateDisk ParseQuantity d sz cloudProps vmcid) s = Ok (NewDiskCID ctx diskID) \<or>
     (\<exists>e. outcome (CreateDisk ParseQuantity d sz cloudProps vmcid) s = Err (WrapError e ''Waiting for disk''))) \<and>
      claim_added diskID (v s) (v (final (CreateDisk ParseQuantity d sz cloudProps vmcid) s))"
  using provided_api.CreateDisk_result [OF assms(1-6) _ run_pair [of "CreateDisk ParseQuantity d sz cloudProps vmcid"]]
    provided_api.waitForDisk_no_panic [OF assms(1,8)] assms(7)
  by (fastforce simp: wait_answer_def split: res.splits)

theorem create_disk_adds_claim_witness:
  "(\<exists>e msg. msg \<in> {''Parsing quantity'', ''Creating PVC''} \<and>
      outcome (CreateDisk test_quantity test_creator 20 disk_props []) one_vm = Err (WrapError e msg) \<and>
      fake_view ''bosh-namespace'' (final (CreateDisk test_quantity test_creator 20 disk_props []) one_vm) = fake_view ''bosh-namespace'' one_vm) \<or>
    (outcome (CreateDisk test_quantity test_creator 20 disk_props []) one_vm = Ok (NewDiskCID ''bosh'' ''d3'') \<or>
     (\<exists>e. outcome (CreateDisk test_quantity test_creator 20 disk_props []) one_vm = Err (WrapError e ''Waiting for disk''))) \<and>
      claim_added ''d3'' (fake_view ''bosh-namespace'' one_vm) (fake_view ''bosh-namespace'' (final (CreateDisk test_quantity test_creator 20 disk_props []) one_vm))"
  by (rule create_disk_adds_claim [OF test_cpi.provided_api_axioms one_vm_ok _ _ test_creator_quiet test_creator_guid _ valid_ids(4)])
    (simp_all add: test_creator_def disk_props_def test_quantity_def)

text \<open>C24. Deleting a disk that succeeds removes its claim, which was there, and nothing else.\<close>

theorem delete_disk_effect:
  assumes "provided_api c ok v P ctx" and "ok s" and "outcome (DeleteDisk P (NewDiskCID ctx diskID)) s = Ok u"
  shows "vw_PVCs (v s) (''disk-'' @ diskID) \<noteq> None \<and>
    v (final (DeleteDisk P (NewDiskCID ctx diskID)) s) =
      (v s)\<lparr>vw_PVCs := (vw_PVCs (v s))(''disk-'' @ diskID := None)\<rparr>"
  using provided_api.DeleteDisk_Ok [OF assms(1,2) outcome_final [OF assms(3)]] by simp

theorem delete_disk_effect_witness:
  "vw_PVCs (fake_view ''bosh-namespace'' one_vm) (''disk-'' @ ''d2'') \<noteq> None \<and>
    fake_view ''bosh-namespace'' (final (DeleteDisk test_provider (NewDiskCID ''bosh'' ''d2'')) one_vm) =
      (fake_view ''bosh-namespace'' one_vm)\<lparr>vw_PVCs := (vw_PVCs (fake_view ''bosh-namespace'' one_vm))(''disk-'' @ ''d2'' := None)\<rparr>"
  by (rule delete_disk_effect [OF test_cpi.provided_api_axioms one_vm_ok run_delete_disk])



section \<open>Settings, identifiers and selectors\<close>

text \<open>C26. Settings that were read can be written and read again: the result differs only in the order of map entries and in empty maps, and tells of the same disks.\<close>

theorem settings_round_trip:
  assumes "unmarshal_Settings text = Ok st"
  shows "unmarshal_Settings (marshal_Settings st) = Ok (norm_Settings st) \<and> disks_of (norm_Settings st) = disks_of st"
  using unmarshal_marshal_Settings [OF unmarshal_Settings_ok [OF assms]] disks_of_norm [OF unmarshal_Settings_ok [OF assms]]
  by simp

theorem settings_round_trip_witness:
  "unmarshal_Settings (marshal_Settings zero_Settings) = Ok (norm_Settings zero_Settings) \<and>
    disks_of (norm_Settings zero_Settings) = disks_of zero_Settings"
proof -
  have "unmarshal_Settings (print_json (JObj [])) = Ok zero_Settings" by code_simp
  then show ?thesis by (rule settings_round_trip)
qed

text \<open>C27. A VM's CID is read back as the context and the agent id it was made of exactly when the context has no colon, and reading panics exactly on a text without a colon.\<close>

theorem vm_cid_round_trip:
  "(ParseVMCID (NewVMCID context agentID) = Ok (context, agentID) \<longleftrightarrow> CHR '':'' \<notin> set context) \<and>
   ((\<exists>p. ParseVMCID cid = Panic p) \<longleftrightarrow> CHR '':'' \<notin> set cid)"
  by (simp add: ParseVMCID_Ok_iff ParseVMCID_Panic_iff)

text \<open>C28. For an agent id that is a valid label value the selector the actions send is accepted, and matches exactly the objects labelled with this id.\<close>

theorem selector_exact:
  assumes "IsValidLabelValue ident = []"
  shows "\<exists>rs. Parse (agent_id_key @ ''='' @ ident) = Ok rs \<and> selector_for agent_id_key ident = Ok (agent_id_key @ ''='' @ ident) \<and>
    (\<forall>labels. Matches rs labels \<longleftrightarrow> (\<exists>m. labels = Some m \<and> gget agent_id_key m = Some ident))"
  using assms selector_for_valid [OF good_keys(1) assms] Parse_equals_valid [OF good_keys(1) assms] by simp

theorem selector_exact_witness:
  "\<exists>rs. Parse (agent_id_key @ ''='' @ ''abc'') = Ok rs \<and> selector_for agent_id_key ''abc'' = Ok (agent_id_key @ ''='' @ ''abc'') \<and>
    (\<forall>labels. Matches rs labels \<longleftrightarrow> (\<exists>m. labels = Some m \<and> gget agent_id_key m = Some ''abc''))"
  by (rule selector_exact [OF valid_ids(1)])

section \<open>Waiting\<close>

text \<open>C29. Waiting for a disk is decided by the first event before the timeout that is not a modification of a claim still unbound: it succeeds when that event shows the claim bound, fails with the event's type when it is no modification, and with the object's type when it is no claim; without such an event it times out.\<close>

theorem wait_for_disk_outcome:
  assumes "IsValidLabelValue diskID = []" and "sorted (map fst evs)"
    and "if_Watch pvcService \<lparr>lo_LabelSelector = disk_id_key @ CHR ''='' # diskID, lo_ResourceVersion = rv, lo_Watch = True\<rparr> s =
      (Ok evs, s')"
  shows "waitForDisk d pvcService diskID rv s =
    (case find (\<lambda>ev. \<not> unbound_change ev) (map snd (filter (\<lambda>(arrival, _). arrival < sint (dc_DiskReadyTimeout d)) evs)) of
       None \<Rightarrow> Err (PlainError ''Pod recreate failed with a timeout'')
     | Some ev \<Rightarrow>
         if ev_Type ev \<noteq> Modified then Err (PlainError (''Unexpected pvc watch event: '' @ ev_Type ev))
         else (case ev_Object ev of
                 Obj pvc \<Rightarrow> Ok ()
               | OtherObject t \<Rightarrow> Err (PlainError (''Unexpected object type: '' @ t))), s')"
  using waitForDisk_events [OF assms(1,3), of d] by (simp only: timed_wait_disk [OF assms(2)])

theorem wait_for_disk_outcome_witness:
  "waitForDisk test_creator (PersistentVolumeClaims test_client) ''d3'' ''7'' one_vm =
    (case find (\<lambda>ev. \<not> unbound_change ev)
        (map snd (filter (\<lambda>(arrival, _). arrival < sint (dc_DiskReadyTimeout test_creator)) (fk_PVCEvents one_vm))) of
       None \<Rightarrow> Err (PlainError ''Pod recreate failed with a timeout'')
     | Some ev \<Rightarrow>
         if ev_Type ev \<noteq> Modified then Err (PlainError (''Unexpected pvc watch event: '' @ ev_Type ev))
         else (case ev_Object ev of
                 Obj pvc \<Rightarrow> Ok ()
               | OtherObject t \<Rightarrow> Err (PlainError (''Unexpected object type: '' @ t))), one_vm)"
  by (rule wait_for_disk_outcome [OF valid_ids(4) one_vm_disk_events(2,1)])

text \<open>C30. Waiting for a pod succeeds exactly when, before the timeout has passed, an event shows the agent's container ready and running and every event before it was a modification of a pod whose agent did not run yet.\<close>

theorem wait_for_pod_ready:
  assumes "IsValidLabelValue agentID = []" and "sorted (map fst evs)"
    and "if_Watch podService \<lparr>lo_LabelSelector = agent_id_key @ CHR ''='' # agentID, lo_ResourceVersion = rv, lo_Watch = True\<rparr> s =
      (Ok evs, s')"
  shows "waitForPod vm podService agentID rv s = (Ok (), s') \<longleftrightarrow>
     (\<exists>pre arrival pod post. evs = pre @ (arrival, \<lparr>ev_Type = Modified, ev_Object = Obj pod\<rparr>) # post \<and>
        arrival < sint (mgr_PodReadyTimeout vm) \<and> isAgentContainerRunning pod \<and>
        list_all (\<lambda>(_, e). \<exists>p. e = \<lparr>ev_Type = Modified, ev_Object = Obj p\<rparr> \<and> \<not> isAgentContainerRunning p) pre)"
proof -
  have none: "on_event pod_wait e = None \<longleftrightarrow>
      (\<exists>p. e = \<lparr>ev_Type = Modified, ev_Object = Obj p\<rparr> \<and> \<not> isAgentContainerRunning p)" for e
    by (cases e) (auto simp: on_event_def pod_wait_def split: event_object.splits if_splits)
  have ok: "on_event pod_wait e = Some (Ok ()) \<longleftrightarrow>
      (\<exists>p. e = \<lparr>ev_Type = Modified, ev_Object = Obj p\<rparr> \<and> isAgentContainerRunning p)" for e
    by (cases e) (auto simp: on_event_Ok pod_wait_def)
  have "waitForPod vm podService agentID rv s = (timed_wait pod_wait (mgr_PodReadyTimeout vm) evs, s')"
    using assms(1,3) by (simp add: waitForPod_def selector_for_valid act_simps)
  then show ?thesis
    using timed_wait_Ok_iff [OF assms(2), of pod_wait "mgr_PodReadyTimeout vm"] unfolding none ok by auto
qed

theorem wait_for_pod_ready_witness:
  "waitForPod test_manager (Pods test_client) ''abc'' ''7'' one_vm = (Ok (), one_vm) \<longleftrightarrow>
     (\<exists>pre arrival pod post. fk_PodEvents one_vm = pre @ (arrival, \<lparr>ev_Type = Modified, ev_Object = Obj pod\<rparr>) # post \<and>
        arrival < sint (mgr_PodReadyTimeout test_manager) \<and> isAgentContainerRunning pod \<and>
        list_all (\<lambda>(_, e). \<exists>p. e = \<lparr>ev_Type = Modified, ev_Object = Obj p\<rparr> \<and> \<not> isAgentContainerRunning p) pre)"
  by (rule wait_for_pod_ready [OF valid_ids(1) one_vm_events(2,1)])

text \<open>C31. A disk whose claim is created and stays unbound until the timeout, whatever happens later, is reported as a failure by timeout, and its claim is left behind in the cluster.\<close>

theorem disk_left_unbound:
  assumes "provided_api c ok v P ctx" and "ok s" and "dc_ClientProvider d = P" and "cd_Context cloudProps = ctx"
    and "quiet ok v (dc_GUIDGeneratorFunc d)"
    and "dc_GUIDGeneratorFunc d s = (Ok diskID, t)" and "IsValidLabelValue diskID = []"
    and "ParseQuantity (show_nat (unat sz) @ ''Gi'') = Ok volumeSize"
    and "if_Create (PersistentVolumeClaims c) (new_claim (Namespace c) diskID cloudProps volumeSize) t = (Ok pvc, x)"
    and "if_Watch (PersistentVolumeClaims c) \<lparr>lo_LabelSelector = disk_id_key @ CHR ''='' # diskID,
      lo_ResourceVersion = meta_ResourceVersion (pvc_Meta pvc), lo_Watch = True\<rparr> x = (Ok evs, y)"
    and "sorted (map fst evs)"
    and "list_all (\<lambda>(arrival, ev). arrival < sint (dc_DiskReadyTimeout d) \<longrightarrow> unbound_change ev) evs"
  shows "outcome (CreateDisk ParseQuantity d sz cloudProps vmcid) s =
      Err (WrapError (PlainError ''Pod recreate failed with a timeout'') ''Waiting for disk'') \<and>
    claim_added diskID (v s) (v (final (CreateDisk ParseQuantity d sz cloudProps vmcid) s))"
  using assms by (rule provided_api.CreateDisk_unbound)

theorem disk_left_unbound_witness:
  "outcome (CreateDisk test_quantity test_creator 20 disk_props []) slow_vm =
      Err (WrapError (PlainError ''Pod recreate failed with a timeout'') ''Waiting for disk'') \<and>
    claim_added ''d3'' (fake_view ''bosh-namespace'' slow_vm) (fake_view ''bosh-namespace'' (final (CreateDisk test_quantity test_creator 20 disk_props []) slow_vm))"
proof (rule disk_left_unbound [OF test_cpi.provided_api_axioms slow_vm_ok _ _ test_creator_quiet _ valid_ids(4) _ _ slow_vm_watch slow_vm_events])
  show "dc_GUIDGeneratorFunc test_creator slow_vm = (Ok ''d3'', slow_vm)"
    by (simp add: test_creator_def CreateGUID_def catch_def)
  show "test_quantity (show_nat (unat (20 :: 64 word)) @ ''Gi'') = Ok (Quantity ''20Gi'')" by code_simp
  show "if_Create (PersistentVolumeClaims test_client) (new_claim (Namespace test_client) ''d3'' disk_props (Quantity ''20Gi'')) slow_vm =
      (Ok slow_claim, slow_created)"
    using slow_vm_create by (simp only: slow_claim_def)
qed (simp_all add: test_creator_def disk_props_def)

section \<open>Requests\<close>

text \<open>C32. A process with its two configuration files read, debugging off and an access configuration that the client library accepts prints the answer to the call the director wrote to its input with numbers of at most 2 to the 53rd: the call's result, or its error beside the zero result, of the call performed on the configured world.\<close>

theorem main_answers_director:
  assumes "loadKubeConfig os (fl_kubeConfig fl) s = (Ok kubeConf, s1)"
    and "loadAgentConfig os (fl_agentConfig fl) s1 = (Ok agentConf, s2)"
    and "os_Stdin os s2 = (Ok (request_text uuid cl), s3)" and "\<not> fl_debug fl" and "ClientConfig kubeConf = Ok cfg"
    and "call_ok cl"
  shows "main_cpi ld lb os fl s =
    and_then (print_answer (answer (zero_result cl) (perform (world_of ld lb cfg agentConf) cl)))
      (\<lambda>response. best_effort (os_Stdout os response)) s3"
  using main_cpi_run [OF assms(1-5)] by (simp only: run_main_call [OF assms(6)])

theorem main_answers_director_witness:
  "main_cpi test_loader test_libs (test_os (request_text ''director'' (Call_has_vm ''bosh:abc''))) test_flags one_vm =
    and_then (print_answer (answer (zero_result (Call_has_vm ''bosh:abc''))
        (perform (world_of test_loader test_libs test_api_config test_agent_conf) (Call_has_vm ''bosh:abc''))))
      (\<lambda>response. best_effort (os_Stdout (test_os (request_text ''director'' (Call_has_vm ''bosh:abc''))) response)) one_vm"
  by (rule main_answers_director [OF load_test_kube load_test_agent _ _ test_client_config])
    (simp_all add: test_os_def test_flags_def)

text \<open>C33. A request for a known method with another number of arguments than its action takes, or with an argument that is not of its parameter's type, ends the process with a panic that says so, and nothing is called: the state is unchanged.\<close>

theorem bad_arguments_panic:
  assumes "json_Unmarshal dec_Request input = Ok req" and "map_of (action_table wd) (rq_Method req) = Some action"
    and "\<nexists>vs. arguments_decoded action (rq_Args req) vs"
  shows "(length (rq_Args req) \<noteq> length (af_In action) \<and>
      run_main wd input s =
        (Panic ((if length (rq_Args req) < length (af_In action) then ''Not enough'' else ''Too many'') @ '' arguments: have '' @
           show_nat (length (rq_Args req)) @ '', want '' @ show_nat (length (af_In action))), s)) \<or>
    (\<exists>k < length (af_In action). \<exists>e. Remarshal (rq_Args req ! k) (decode (af_In action ! k)) = Err e \<and>
      run_main wd input s = (Panic (''Unmarshalling arg: '' @ Error e), s))"
  using run_main_bad_arguments [OF assms, of s] by (simp add: arity_error_def Error_WrapError)

theorem bad_arguments_panic_witness:
  "(length (rq_Args (request ''has_vm'' [])) \<noteq> length (af_In (has_vm_func test_world)) \<and>
      run_main test_world (payload ''has_vm'' []) one_vm =
        (Panic ((if length (rq_Args (request ''has_vm'' [])) < length (af_In (has_vm_func test_world)) then ''Not enough'' else ''Too many'')
           @ '' arguments: have '' @ show_nat (length (rq_Args (request ''has_vm'' []))) @ '', want ''
           @ show_nat (length (af_In (has_vm_func test_world)))), one_vm)) \<or>
    (\<exists>k < length (af_In (has_vm_func test_world)). \<exists>e.
      Remarshal (rq_Args (request ''has_vm'' []) ! k) (decode (af_In (has_vm_func test_world) ! k)) = Err e \<and>
      run_main test_world (payload ''has_vm'' []) one_vm = (Panic (''Unmarshalling arg: '' @ Error e), one_vm))"
  by (rule bad_arguments_panic [OF read_has_vm_none])
    (simp_all add: action_table_def request_def arguments_decoded_def has_vm_func_def)

text \<open>C34. Dispatching a request to an action either fails for the number of the arguments, or fails for an argument that cannot be decoded at its parameter's type, both without calling the action, or calls the action with as many values as it has parameters, each the argument decoded at, and of, the parameter's type.\<close>

theorem dispatch_well_typed:
  assumes "(verb, action) \<in> set (action_table wd)"
  shows "(length (rq_Args req) \<noteq> length (af_In action) \<and> (\<exists>e. Dispatch req action s = (Err (PlainError e), s))) \<or>
    (length (rq_Args req) = length (af_In action) \<and>
      (\<exists>k < length (af_In action). \<exists>e. Remarshal (rq_Args req ! k) (decode (af_In action ! k)) = Err e \<and>
        Dispatch req action s = (Err (WrapError e ''Unmarshalling arg''), s))) \<or>
    (\<exists>vs. arguments_decoded action (rq_Args req) vs \<and>
      Dispatch req action s = and_then (af_Call action vs) (\<lambda>rs. lift_res (newResponse rs)) s)"
  by (cases rule: Dispatch_cases [OF actions_fixed_arity [OF assms], of req]) (auto simp: arity_error_def)

theorem dispatch_well_typed_witness:
  "(length (rq_Args (request ''delete_vm'' [JStr ''other:abc''])) \<noteq> length (af_In (delete_vm_func test_world)) \<and>
      (\<exists>e. Dispatch (request ''delete_vm'' [JStr ''other:abc'']) (delete_vm_func test_world) one_vm = (Err (PlainError e), one_vm))) \<or>
    (length (rq_Args (request ''delete_vm'' [JStr ''other:abc''])) = length (af_In (delete_vm_func test_world)) \<and>
      (\<exists>k < length (af_In (delete_vm_func test_world)). \<exists>e.
        Remarshal (rq_Args (request ''delete_vm'' [JStr ''other:abc'']) ! k) (decode (af_In (delete_vm_func test_world) ! k)) = Err e \<and>
        Dispatch (request ''delete_vm'' [JStr ''other:abc'']) (delete_vm_func test_world) one_vm =
          (Err (WrapError e ''Unmarshalling arg''), one_vm))) \<or>
    (\<exists>vs. arguments_decoded (delete_vm_func test_world) (rq_Args (request ''delete_vm'' [JStr ''other:abc''])) vs \<and>
      Dispatch (request ''delete_vm'' [JStr ''other:abc'']) (delete_vm_func test_world) one_vm =
        and_then (af_Call (delete_vm_func test_world) vs) (\<lambda>rs. lift_res (newResponse rs)) one_vm)"
  by (rule dispatch_well_typed [where verb = "''delete_vm''"]) (simp add: action_table_def)

text \<open>C35. A method that has no action, the ones declared unsupported or not implemented among them, ends the process with a panic instead of a response.\<close>

theorem unsupported_methods_panic:
  assumes "json_Unmarshal dec_Request text_in = Ok req" and "rq_Method req \<notin> fst ` set (action_table wd)"
  shows "final (run_main wd text_in) s = s \<and> (\<exists>p. outcome (run_main wd text_in) s = Panic p)"
  using run_method_unknown [OF assms(2), of s] assms(1) by (auto simp: run_main_def catch_def outcome_def final_def)

theorem unsupported_methods_panic_witness:
  "final (run_main test_world (payload ''reboot_vm'' [])) one_vm = one_vm \<and>
    (\<exists>p. outcome (run_main test_world (payload ''reboot_vm'' [])) one_vm = Panic p)"
  by (rule unsupported_methods_panic [OF read_reboot]) (use no_reboot in \<open>simp add: request_def\<close>)

section \<open>Fakes\<close>

text \<open>C36. However the goroutines of a test interleave, at most one is inside a method of a recording fake and none while the method's log is read; the log is the invocations that were recorded, then the arguments that the one goroutine inside has still to record.\<close>

theorem fake_logs_agree:
  assumes "rw_step\<^sup>*\<^sup>* (rw_start n) (ths, args, i)"
  shows "length (filter (writes m) (map fst ths)) \<le> 1 \<and>
    \<not> (list_ex (reads m) (map fst ths) \<and> list_ex (writes m) (map fst ths)) \<and>
    args m = recorded m i @ concat (map (pending m) (map fst ths))"
  using rw_inv_reachable [OF assms] by (auto simp: phases_def exclusive_def filter_empty_conv list_ex_iff)

theorem fake_logs_agree_witness:
  "length (filter (writes ''New'') (map fst [(Appended ''New'' [''a''], True), (Taking [] [''New''], False)])) \<le> 1 \<and>
    \<not> (list_ex (reads ''New'') (map fst [(Appended ''New'' [''a''], True), (Taking [] [''New''], False)]) \<and>
       list_ex (writes ''New'') (map fst [(Appended ''New'' [''a''], True), (Taking [] [''New''], False)])) \<and>
    ((\<lambda>_. [])(''New'' := [[''a'']])) ''New'' = recorded ''New'' None @
      concat (map (pending ''New'') (map fst [(Appended ''New'' [''a''], True), (Taking [] [''New''], False)]))"
  by (rule fake_logs_agree [OF rw_deadlocked_reachable [of "''a''", unfolded rw_deadlocked_def]])

text \<open>C37. A goroutine that calls the fake provider and one that lists its invocations can reach a state in which both wait for the other's mutex for ever.\<close>

theorem fake_can_deadlock:
  "\<exists>s. rw_step\<^sup>*\<^sup>* (rw_start 2) s \<and>
     map fst (fst s) = [Appended ''New'' [ctx], Taking [] [''New'']] \<and> (\<forall>t. \<not> rw_step s t)"
  using rw_deadlocked_reachable [of ctx] rw_deadlocked_stuck [of ctx]
  by (intro exI [of _ "rw_deadlocked ctx"]) (auto simp: rw_deadlocked_def)

text \<open>C38. Goroutines that call methods of a recording fake and ask for counts, but do not list the invocations, can always all finish, whatever state they are in.\<close>

theorem fake_calls_finish:
  assumes "quiet_threads ths"
  shows "\<exists>l'. rw_step\<^sup>*\<^sup>* (ths, l) (replicate (length ths) (Idle, False), l')"
  using assms by (rule quiet_threads_finish)

theorem fake_calls_finish_witness:
  "\<exists>l'. rw_step\<^sup>*\<^sup>* ([(Appended ''New'' [''a''], True), (Counting ''New'', False)], \<lambda>_. [], None)
    (replicate (length [(Appended ''New'' [''a''], True), (Counting ''New'', False)]) (Idle, False), l')"
  by (rule fake_calls_finish) (simp add: quiet_threads_def)

text \<open>C39. The in-memory client of the unit tests keeps the whole contract the properties assume of an API.\<close>

theorem fake_client_lawful:
  assumes "ns \<noteq> []"
  shows "kube_api (NewClient ctx ns) fake_ok (fake_view ns)"
  using assms by (rule fake_kube_api)

theorem fake_client_lawful_witness:
  "kube_api (NewClient ''bosh'' ''bosh-namespace'') fake_ok (fake_view ''bosh-namespace'')"
  by (rule fake_client_lawful) simp

section \<open>Integration helpers\<close>

text \<open>C40. Connecting to the cluster of the integration tests succeeds only with all six variables set and the cluster's name in the listing that was read.\<close>

theorem connect_cluster_checked:
  assumes "outcome (ConnectCluster sh Getenv) s = Ok u"
  shows "list_all (\<lambda>var. Getenv var \<noteq> []) (''KUBECONFIG'' # cluster_variables) \<and>
    (\<exists>t listing. outcome (sh_Output sh [''bx'', ''cs'', ''clusters'']) t = Ok listing \<and>
       Contains listing (Getenv ''CLUSTER_NAME''))"
proof -
  obtain t listing s' where vars: "\<forall>var \<in> set (''KUBECONFIG'' # cluster_variables). Getenv var \<noteq> []"
    and out: "sh_Output sh [''bx'', ''cs'', ''clusters''] t = (Ok listing, s')" "Contains listing (Getenv ''CLUSTER_NAME'')"
    using ConnectCluster_Ok [OF outcome_final [OF assms]] by blast
  have "outcome (sh_Output sh [''bx'', ''cs'', ''clusters'']) t = Ok listing"
    by (simp only: outcome_def out(1) fst_conv)
  with vars out(2) show ?thesis unfolding list_all_iff by blast
qed

theorem connect_cluster_checked_witness:
  "list_all (\<lambda>var. test_env var \<noteq> []) (''KUBECONFIG'' # cluster_variables) \<and>
    (\<exists>t listing. outcome (sh_Output test_shell [''bx'', ''cs'', ''clusters'']) t = Ok listing \<and>
       Contains listing (test_env ''CLUSTER_NAME''))"
  by (rule connect_cluster_checked [OF run_connect])

end
